(* ===== verification/Astra_Prelude.thy ===== *)
theory Astra_Prelude
  imports Main "HOL-Library.Word" "HOL-Library.Char_ord" "HOL-Library.List_Lexorder"
    "HOL-Library.Product_Lexorder" "HOL-Library.Multiset"
begin

text \<open>
  The prelude holds what every component of the library shares: the result type of
  fallible Rust code and the question-mark operator, the integer operations of the
  source at their width, Rust strings as UTF-8 byte lists with the methods the source
  calls on them, the ordered map (\<^verbatim>\<open>BTreeMap\<close>) as a key-sorted association list, and three
  interfaces stated as locales: an ordered map, a text codec (the \<^verbatim>\<open>as_str\<close>/\<^verbatim>\<open>parse\<close> pairs
  of the status enumerations) and a machine whose steps keep an invariant.
\<close>

section \<open>Collections of facts\<close>

named_theorems result_simps \<open>equations that read off the result of fallible code\<close>
named_theorems validate_simps \<open>definitions of the validation functions\<close>

section \<open>Results\<close>

text \<open>
  A Rust \<^verbatim>\<open>Result<T, E>\<close> is a sum: \<open>Inl e\<close> is \<^verbatim>\<open>Err(e)\<close> and \<open>Inr x\<close> is \<^verbatim>\<open>Ok(x)\<close>. \<open>try_bind\<close>
  is the question-mark operator followed by the rest of the function body.
\<close>

type_synonym ('e, 'a) result = "'e + 'a"

definition try_bind :: "('e, 'a) result \<Rightarrow> ('a \<Rightarrow> ('e, 'b) result) \<Rightarrow> ('e, 'b) result" where
  "try_bind r f = (case r of Inl e \<Rightarrow> Inl e | Inr x \<Rightarrow> f x)"

definition map_err :: "('e \<Rightarrow> 'f) \<Rightarrow> ('e, 'a) result \<Rightarrow> ('f, 'a) result" where
  "map_err g r = (case r of Inl e \<Rightarrow> Inl (g e) | Inr x \<Rightarrow> Inr x)"

definition ok_or :: "'a option \<Rightarrow> 'e \<Rightarrow> ('e, 'a) result" where
  "ok_or x e = (case x of None \<Rightarrow> Inl e | Some y \<Rightarrow> Inr y)"

definition result_error :: "('e, 'a) result \<Rightarrow> 'e option" where
  "result_error r = (case r of Inl e \<Rightarrow> Some e | Inr _ \<Rightarrow> None)"

definition is_ok :: "('e, 'a) result \<Rightarrow> bool" where
  "is_ok r = (case r of Inl _ \<Rightarrow> False | Inr _ \<Rightarrow> True)"

lemma try_bind_simps [simp, result_simps]:
  "try_bind (Inl e) f = Inl e"
  "try_bind (Inr x) f = f x"
  by (simp_all add: try_bind_def)

lemma try_bind_Inr_iff [simp, result_simps]:
  "try_bind r f = Inr y \<longleftrightarrow> (\<exists>x. r = Inr x \<and> f x = Inr y)"
  by (cases r) simp_all

lemma try_bind_Inl_iff [result_simps]:
  "try_bind r f = Inl e \<longleftrightarrow> r = Inl e \<or> (\<exists>x. r = Inr x \<and> f x = Inl e)"
  by (cases r) auto

lemma map_err_simps [simp, result_simps]:
  "map_err g (Inl e) = Inl (g e)"
  "map_err g (Inr x) = Inr x"
  by (simp_all add: map_err_def)

lemma map_err_Inr_iff [simp, result_simps]: "map_err g r = Inr y \<longleftrightarrow> r = Inr y"
  by (cases r) simp_all

lemma ok_or_simps [simp, result_simps]:
  "ok_or None e = Inl e"
  "ok_or (Some x) e = Inr x"
  by (simp_all add: ok_or_def)

lemma ok_or_Inr_iff [simp, result_simps]: "ok_or x e = Inr y \<longleftrightarrow> x = Some y"
  by (cases x) simp_all

lemma is_ok_simps [simp, result_simps]:
  "is_ok (Inl e) = False"
  "is_ok (Inr x) = True"
  by (simp_all add: is_ok_def)

lemma result_error_simps [simp]: "result_error (Inl e) = Some e" "result_error (Inr x) = None"
  by (simp_all add: result_error_def)

lemma is_ok_iff: "is_ok r \<longleftrightarrow> (\<exists>x. r = Inr x)"
  by (cases r) simp_all

section \<open>Integers\<close>

text \<open>
  \<^verbatim>\<open>u32\<close> and \<^verbatim>\<open>u64\<close> are words and \<^verbatim>\<open>saturating_add\<close> is written out on them. \<^verbatim>\<open>i64\<close> is \<open>int\<close>
  with the range of the type written out where it matters. \<^verbatim>\<open>usize\<close> is \<open>nat\<close>, as a length
  of a list is; where the source saturates, the bound of the 64-bit target is written out.
\<close>

type_synonym u32 = "32 word"
type_synonym u64 = "64 word"

definition sat_add :: "'a::len word \<Rightarrow> 'a word \<Rightarrow> 'a word" where
  "sat_add a b = (if unat a + unat b < 2 ^ LENGTH('a) then a + b else - 1)"

definition usize_max :: nat where
  "usize_max = 18446744073709551615"

definition usize_sat_add :: "nat \<Rightarrow> nat \<Rightarrow> nat" where
  "usize_sat_add a b = min (a + b) usize_max"

definition usize_sat_mul :: "nat \<Rightarrow> nat \<Rightarrow> nat" where
  "usize_sat_mul a b = min (a * b) usize_max"

definition i64_max :: int where
  "i64_max = 9223372036854775807"

definition checked_add_i64 :: "int \<Rightarrow> int \<Rightarrow> int option" where
  "checked_add_i64 a b =
     (if - i64_max - 1 \<le> a + b \<and> a + b \<le> i64_max then Some (a + b) else None)"

lemma unat_sat_add: "unat (sat_add a b) = min (unat a + unat b) (2 ^ LENGTH('a) - 1)"
  for a b :: "'a::len word"
proof (cases "unat a + unat b < 2 ^ LENGTH('a)")
  case True
  then show ?thesis
    by (simp add: sat_add_def unat_word_ariths)
next
  case False
  then show ?thesis
    by (simp add: sat_add_def unsigned_minus_1_eq_mask mask_eq_exp_minus_1)
qed

lemma sat_add_mono: "unat a \<le> unat (sat_add a b)"
  for a b :: "'a::len word"
proof -
  have "unat a < 2 ^ LENGTH('a)" by (rule unsigned_less)
  then show ?thesis unfolding unat_sat_add by linarith
qed

lemma le_sat_add: "a \<le> sat_add a b"
  for a b :: "'a::len word"
  using sat_add_mono by (simp add: word_le_nat_alt)

lemma sat_add_1_increases:
  fixes a :: "'a::len word"
  assumes "a \<noteq> - 1"
  shows "a < sat_add a 1"
proof -
  have lt: "unat a < 2 ^ LENGTH('a)" by (rule unsigned_less)
  have "unat a \<noteq> unat (- 1 :: 'a word)"
    using assms unfolding word_unat_eq_iff .
  then have "unat a \<noteq> 2 ^ LENGTH('a) - 1"
    by (simp add: unsigned_minus_1_eq_mask mask_eq_exp_minus_1)
  with lt have "unat a + 1 < 2 ^ LENGTH('a)" by linarith
  then show ?thesis
    unfolding word_less_nat_alt unat_sat_add by simp
qed

section \<open>Strings\<close>

text \<open>
  A Rust \<^verbatim>\<open>str\<close> is its UTF-8 bytes, a HOL \<open>string\<close>, so \<^verbatim>\<open>len()\<close> is \<open>length\<close>. \<open>utf8_chars\<close> splits
  the bytes into the encodings of the characters, each a lead byte with its continuation
  bytes. Whitespace is the Unicode property \<^verbatim>\<open>White_Space\<close> (25 code points) and control
  characters the general category \<^verbatim>\<open>Cc\<close>, each listed by encoding.
\<close>

type_synonym rstr = string

definition is_cont_byte :: "char \<Rightarrow> bool" where
  "is_cont_byte c = (128 \<le> (of_char c :: nat) \<and> (of_char c :: nat) < 192)"

function utf8_chars :: "rstr \<Rightarrow> rstr list" where
  "utf8_chars [] = []"
| "utf8_chars (b # bs) =
     (b # takeWhile is_cont_byte bs) # utf8_chars (dropWhile is_cont_byte bs)"
  by pat_completeness auto
termination
  by (relation "measure length") (simp_all add: le_imp_less_Suc length_dropWhile_le)

definition is_whitespace :: "rstr \<Rightarrow> bool" where
  "is_whitespace c = (c \<in> set
     [[CHR 0x09], [CHR 0x0A], [CHR 0x0B], [CHR 0x0C], [CHR 0x0D], [CHR 0x20],
      [CHR 0xC2, CHR 0x85], [CHR 0xC2, CHR 0xA0],
      [CHR 0xE1, CHR 0x9A, CHR 0x80],
      [CHR 0xE2, CHR 0x80, CHR 0x80], [CHR 0xE2, CHR 0x80, CHR 0x81],
      [CHR 0xE2, CHR 0x80, CHR 0x82], [CHR 0xE2, CHR 0x80, CHR 0x83],
      [CHR 0xE2, CHR 0x80, CHR 0x84], [CHR 0xE2, CHR 0x80, CHR 0x85],
      [CHR 0xE2, CHR 0x80, CHR 0x86], [CHR 0xE2, CHR 0x80, CHR 0x87],
      [CHR 0xE2, CHR 0x80, CHR 0x88], [CHR 0xE2, CHR 0x80, CHR 0x89],
      [CHR 0xE2, CHR 0x80, CHR 0x8A], [CHR 0xE2, CHR 0x80, CHR 0xA8],
      [CHR 0xE2, CHR 0x80, CHR 0xA9], [CHR 0xE2, CHR 0x80, CHR 0xAF],
      [CHR 0xE2, CHR 0x81, CHR 0x9F], [CHR 0xE3, CHR 0x80, CHR 0x80]])"

definition is_control :: "rstr \<Rightarrow> bool" where
  "is_control c =
     (case c of
        [a] \<Rightarrow> (of_char a :: nat) < 32 \<or> (of_char a :: nat) = 127
      | [a, b] \<Rightarrow> (of_char a :: nat) = 194 \<and> (of_char b :: nat) < 160
      | _ \<Rightarrow> False)"

definition trim :: "rstr \<Rightarrow> rstr" where
  "trim s = concat (rev (dropWhile is_whitespace (rev (dropWhile is_whitespace (utf8_chars s)))))"

definition is_char_boundary :: "rstr \<Rightarrow> nat \<Rightarrow> bool" where
  "is_char_boundary s i =
     (i = 0 \<or> i = length s \<or> (i < length s \<and> \<not> is_cont_byte (s ! i)))"

definition strip_prefix :: "rstr \<Rightarrow> rstr \<Rightarrow> rstr option" where
  "strip_prefix p s = (if take (length p) s = p then Some (drop (length p) s) else None)"

definition is_ascii_digit :: "char \<Rightarrow> bool" where
  "is_ascii_digit c = (48 \<le> (of_char c :: nat) \<and> (of_char c :: nat) \<le> 57)"

definition is_ascii_alphanumeric :: "char \<Rightarrow> bool" where
  "is_ascii_alphanumeric c =
     (is_ascii_digit c \<or> (65 \<le> (of_char c :: nat) \<and> (of_char c :: nat) \<le> 90)
      \<or> (97 \<le> (of_char c :: nat) \<and> (of_char c :: nat) \<le> 122))"

fun show_nat :: "nat \<Rightarrow> rstr" where
  "show_nat n = (if n < 10 then [char_of (48 + n)] else show_nat (n div 10) @ [char_of (48 + n mod 10)])"

declare show_nat.simps [simp del]

lemma concat_utf8_chars [simp]: "concat (utf8_chars s) = s"
  by (induction s rule: utf8_chars.induct) simp_all

text \<open>
  A list of character encodings that \<open>utf8_chars\<close> splits back: no part is empty, and a
  continuation byte occurs inside a part only, the first part apart.
\<close>

fun char_parts :: "rstr list \<Rightarrow> bool" where
  "char_parts [] = True"
| "char_parts (c # cs) =
     (c \<noteq> [] \<and> list_all is_cont_byte (tl c) \<and> list_all (\<lambda>d. d \<noteq> [] \<and> \<not> is_cont_byte (hd d)) cs
      \<and> char_parts cs)"

lemma utf8_chars_lead:
  "s \<noteq> [] \<Longrightarrow> hd (utf8_chars s) \<noteq> [] \<and> hd (hd (utf8_chars s)) = hd s"
  by (cases s) simp_all

lemma utf8_chars_no_cont:
  "list_all (\<lambda>d. d \<noteq> [] \<and> \<not> is_cont_byte (hd d)) (utf8_chars s) \<or> (s \<noteq> [] \<and> is_cont_byte (hd s))"
proof (induction s rule: utf8_chars.induct)
  case 1
  then show ?case by simp
next
  case (2 b bs)
  have "\<not> (dropWhile is_cont_byte bs \<noteq> [] \<and> is_cont_byte (hd (dropWhile is_cont_byte bs)))"
    using hd_dropWhile by blast
  with 2 show ?case by auto
qed

lemma char_parts_utf8_chars: "char_parts (utf8_chars s)"
proof (induction s rule: utf8_chars.induct)
  case 1
  then show ?case by simp
next
  case (2 b bs)
  have "\<not> (dropWhile is_cont_byte bs \<noteq> [] \<and> is_cont_byte (hd (dropWhile is_cont_byte bs)))"
    using hd_dropWhile by blast
  then have "list_all (\<lambda>d. d \<noteq> [] \<and> \<not> is_cont_byte (hd d)) (utf8_chars (dropWhile is_cont_byte bs))"
    using utf8_chars_no_cont by blast
  with 2 show ?case
    by (auto simp: list_all_iff dest: set_takeWhileD)
qed

lemma utf8_chars_concat: "char_parts cs \<Longrightarrow> utf8_chars (concat cs) = cs"
proof (induction cs)
  case Nil
  then show ?case by simp
next
  case (Cons c cs)
  then obtain b bs where c: "c = b # bs" and bs: "list_all is_cont_byte bs"
    by (cases c) auto
  have rest: "takeWhile is_cont_byte (concat cs) = [] \<and> dropWhile is_cont_byte (concat cs) = concat cs"
    using Cons.prems by (cases cs; cases "hd cs") auto
  have "takeWhile is_cont_byte (bs @ concat cs) = bs"
    "dropWhile is_cont_byte (bs @ concat cs) = concat cs"
    using bs rest by (simp_all add: list_all_iff takeWhile_append dropWhile_append)
  with Cons c show ?case by simp
qed

lemma char_parts_append: "char_parts (xs @ ys) \<Longrightarrow> char_parts xs \<and> char_parts ys"
  by (induction xs) auto

lemma char_parts_dropWhile: "char_parts cs \<Longrightarrow> char_parts (dropWhile p cs)"
  using char_parts_append [of "takeWhile p cs" "dropWhile p cs"] by simp

lemma char_parts_rev_dropWhile: "char_parts cs \<Longrightarrow> char_parts (rev (dropWhile p (rev cs)))"
proof -
  assume "char_parts cs"
  moreover have "cs = rev (dropWhile p (rev cs)) @ rev (takeWhile p (rev cs))"
    by (metis rev_append rev_rev_ident takeWhile_dropWhile_id)
  ultimately show ?thesis using char_parts_append by metis
qed

text \<open>The characters of a trimmed string are the characters left after both ends are stripped.\<close>

lemma utf8_chars_trim:
  "utf8_chars (trim s) =
     rev (dropWhile is_whitespace (rev (dropWhile is_whitespace (utf8_chars s))))"
  unfolding trim_def
  by (intro utf8_chars_concat char_parts_rev_dropWhile char_parts_dropWhile char_parts_utf8_chars)

lemma dropWhile_rev_dropWhile_idem:
  "dropWhile p (rev (dropWhile p (rev (dropWhile p xs)))) = rev (dropWhile p (rev (dropWhile p xs)))"
proof (cases "rev (dropWhile p (rev (dropWhile p xs)))")
  case Nil
  show ?thesis unfolding Nil by simp
next
  case (Cons y ys)
  let ?d = "dropWhile p xs"
  have "?d = (y # ys) @ rev (takeWhile p (rev ?d))"
    using Cons by (metis rev_append rev_rev_ident takeWhile_dropWhile_id)
  then obtain zs where d: "?d = y # zs" by (metis append_Cons)
  then have "\<not> p y" using hd_dropWhile [of p xs] unfolding d by simp
  with Cons show ?thesis by simp
qed

lemma trim_idem [simp]: "trim (trim s) = trim s"
  unfolding trim_def [of "trim s"] utf8_chars_trim
  by (simp add: dropWhile_rev_dropWhile_idem dropWhile_idem trim_def)

lemma trim_Nil [simp]: "trim [] = []"
  by (simp add: trim_def)

section \<open>Ordered maps\<close>

text \<open>
  A \<^verbatim>\<open>BTreeMap\<close> is the association list of its entries in key order. Insertion keeps the
  order and replaces the value of a key that is there; iteration is the list itself.
\<close>

type_synonym ('k, 'v) btree = "('k \<times> 'v) list"

fun bt_insert :: "'k::linorder \<Rightarrow> 'v \<Rightarrow> ('k, 'v) btree \<Rightarrow> ('k, 'v) btree" where
  "bt_insert k v [] = [(k, v)]"
| "bt_insert k v ((k', v') # m) =
     (if k = k' then (k, v) # m
      else if k < k' then (k, v) # (k', v') # m
      else (k', v') # bt_insert k v m)"

definition bt_get :: "('k, 'v) btree \<Rightarrow> 'k \<Rightarrow> 'v option" where
  "bt_get m k = map_of m k"

definition bt_remove :: "'k \<Rightarrow> ('k, 'v) btree \<Rightarrow> ('k, 'v) btree" where
  "bt_remove k m = filter (\<lambda>e. fst e \<noteq> k) m"

definition bt_keys :: "('k, 'v) btree \<Rightarrow> 'k list" where
  "bt_keys m = map fst m"

definition bt_values :: "('k, 'v) btree \<Rightarrow> 'v list" where
  "bt_values m = map snd m"

definition bt_wf :: "('k::linorder, 'v) btree \<Rightarrow> bool" where
  "bt_wf m = sorted_wrt (<) (bt_keys m)"

definition bt_of_list :: "('k::linorder \<times> 'v) list \<Rightarrow> ('k, 'v) btree" where
  "bt_of_list es = fold (\<lambda>(k, v) m. bt_insert k v m) es []"

lemma bt_keys_simps [simp]:
  "bt_keys [] = []"
  "bt_keys ((k, v) # m) = k # bt_keys m"
  by (simp_all add: bt_keys_def)

lemma bt_get_Nil [simp]: "bt_get [] k = None"
  by (simp add: bt_get_def)

lemma bt_get_insert: "bt_get (bt_insert k v m) k' = (if k' = k then Some v else bt_get m k')"
  by (induction m) (auto simp: bt_get_def)

lemma bt_get_remove: "bt_get (bt_remove k m) k' = (if k' = k then None else bt_get m k')"
  by (induction m) (auto simp: bt_get_def bt_remove_def)

lemma set_bt_keys_insert: "set (bt_keys (bt_insert k v m)) = insert k (set (bt_keys m))"
  by (induction k v m rule: bt_insert.induct) auto

lemma set_bt_keys_remove: "set (bt_keys (bt_remove k m)) = set (bt_keys m) - {k}"
  by (auto simp: bt_keys_def bt_remove_def)

lemma bt_get_None_iff: "bt_get m k = None \<longleftrightarrow> k \<notin> set (bt_keys m)"
  by (simp add: bt_get_def bt_keys_def map_of_eq_None_iff)

lemma bt_wf_Nil [simp]: "bt_wf []"
  by (simp add: bt_wf_def bt_keys_def)

lemma bt_wf_Cons: "bt_wf ((k, v) # m) \<longleftrightarrow> (\<forall>x \<in> set (bt_keys m). k < x) \<and> bt_wf m"
  by (simp add: bt_wf_def bt_keys_def)

lemma bt_wf_insert: "bt_wf m \<Longrightarrow> bt_wf (bt_insert k v m)"
proof (induction k v m rule: bt_insert.induct)
  case (1 k v)
  then show ?case by (simp add: bt_wf_def bt_keys_def)
next
  case (2 k v k' v' m)
  then show ?case
    by (cases k k' rule: linorder_cases) (auto simp: bt_wf_Cons set_bt_keys_insert)
qed

lemma bt_wf_remove: "bt_wf m \<Longrightarrow> bt_wf (bt_remove k m)"
  unfolding bt_wf_def bt_keys_def bt_remove_def
  by (induction m) auto

lemma bt_wf_distinct: "bt_wf m \<Longrightarrow> distinct (bt_keys m)"
  by (simp add: bt_wf_def strict_sorted_iff)

lemma bt_get_Some_in: "bt_get m k = Some v \<Longrightarrow> (k, v) \<in> set m"
  by (simp add: bt_get_def map_of_SomeD)

lemma bt_get_eq_Some_iff: "bt_wf m \<Longrightarrow> bt_get m k = Some v \<longleftrightarrow> (k, v) \<in> set m"
  using bt_wf_distinct [of m] by (simp add: bt_get_def bt_keys_def)

lemma bt_entries:
  assumes "distinct (bt_keys m)"
  shows "m = map (\<lambda>k. (k, the (bt_get m k))) (bt_keys m)"
proof -
  have "bt_get m (fst e) = Some (snd e)" if "e \<in> set m" for e
    using assms that by (simp add: bt_get_def bt_keys_def map_of_is_SomeI)
  then have "map (\<lambda>e. (fst e, the (bt_get m (fst e)))) m = m"
    by (intro map_idI) simp
  then show ?thesis by (simp add: bt_keys_def comp_def)
qed

text \<open>Two well-formed maps with the same lookups are the same list of entries.\<close>

lemma bt_ext:
  assumes "bt_wf m" and "bt_wf m'" and get: "\<And>k. bt_get m k = bt_get m' k"
  shows "m = m'"
proof -
  have "set (bt_keys m) = set (bt_keys m')"
    using get bt_get_None_iff by (metis (no_types) subsetI subset_antisym)
  then have "bt_keys m = bt_keys m'"
    using assms(1,2) strict_sorted_equal unfolding bt_wf_def by blast
  moreover have "m = map (\<lambda>k. (k, the (bt_get m k))) (bt_keys m)"
    "m' = map (\<lambda>k. (k, the (bt_get m' k))) (bt_keys m')"
    by (intro bt_entries bt_wf_distinct assms)+
  ultimately show ?thesis using get by (metis (no_types, lifting) map_cong)
qed

section \<open>Interfaces\<close>

text \<open>
  The contract of an ordered map: what a lookup returns after an insertion or a removal,
  that every operation keeps the map well formed, and that a well-formed map is
  determined by its lookups. The client facts are about maps collected from an iterator.
\<close>

locale ordered_map =
  fixes emp :: 'm
    and get :: "'m \<Rightarrow> 'k \<Rightarrow> 'v option"
    and ins :: "'k \<Rightarrow> 'v \<Rightarrow> 'm \<Rightarrow> 'm"
    and del :: "'k \<Rightarrow> 'm \<Rightarrow> 'm"
    and wf :: "'m \<Rightarrow> bool"
  assumes get_emp: "get emp k = None"
    and get_ins: "get (ins k v m) k' = (if k' = k then Some v else get m k')"
    and get_del: "get (del k m) k' = (if k' = k then None else get m k')"
    and wf_emp: "wf emp"
    and wf_ins: "wf m \<Longrightarrow> wf (ins k v m)"
    and wf_del: "wf m \<Longrightarrow> wf (del k m)"
    and ext: "wf m \<Longrightarrow> wf m' \<Longrightarrow> (\<And>k. get m k = get m' k) \<Longrightarrow> m = m'"
begin

lemma wf_collect: "wf m \<Longrightarrow> wf (fold (\<lambda>(k, v) m. ins k v m) es m)"
  by (induction es arbitrary: m) (auto simp: wf_ins)

lemma get_collect:
  "get (fold (\<lambda>(k, v) m. ins k v m) es m) k =
     (case map_of (rev es) k of None \<Rightarrow> get m k | Some v \<Rightarrow> Some v)"
proof (induction es arbitrary: m)
  case Nil
  then show ?case by simp
next
  case (Cons e es)
  then show ?case
    by (cases e) (auto simp: get_ins map_add_def split: option.splits)
qed

text \<open>Entries with different keys may arrive in any order: the collected map is the same.\<close>

lemma collect_perm:
  assumes "distinct (map fst es)" and "mset es = mset es'"
  shows "fold (\<lambda>(k, v) m. ins k v m) es emp = fold (\<lambda>(k, v) m. ins k v m) es' emp"
proof (rule ext)
  show "wf (fold (\<lambda>(k, v) m. ins k v m) es emp)" by (rule wf_collect [OF wf_emp])
  show "wf (fold (\<lambda>(k, v) m. ins k v m) es' emp)" by (rule wf_collect [OF wf_emp])
  fix k
  have "set (rev es) = set (rev es')"
    using assms(2) by (metis set_mset_mset set_rev)
  moreover have "distinct (map fst (rev es))"
    using assms(1) by (simp flip: rev_map)
  moreover have "distinct (map fst (rev es'))"
    using assms by (metis distinct_rev mset_eq_imp_distinct_iff mset_map rev_map)
  ultimately have "map_of (rev es) = map_of (rev es')"
    by (simp add: map_of_inject_set)
  then show "get (fold (\<lambda>(k, v) m. ins k v m) es emp) k = get (fold (\<lambda>(k, v) m. ins k v m) es' emp) k"
    by (simp add: get_collect)
qed

lemma del_absent: "wf m \<Longrightarrow> get m k = None \<Longrightarrow> del k m = m"
  by (rule ext) (auto simp: wf_del get_del)

lemma ins_same: "wf m \<Longrightarrow> get m k = Some v \<Longrightarrow> ins k v m = m"
  by (rule ext) (auto simp: wf_ins get_ins)

end

interpretation bt: ordered_map "[]" bt_get bt_insert bt_remove bt_wf
  by unfold_locales
    (auto simp: bt_get_insert bt_get_remove bt_wf_insert bt_wf_remove intro: bt_ext)

lemma bt_wf_of_list: "bt_wf (bt_of_list es)"
  unfolding bt_of_list_def by (rule bt.wf_collect) simp

text \<open>
  A label codec: the label of a status and the parser of the persisted label are inverse
  to each other. Distinct statuses then have distinct labels.
\<close>

locale text_codec =
  fixes enc :: "'a \<Rightarrow> rstr" and dec :: "rstr \<Rightarrow> 'a option"
  assumes dec_enc: "dec (enc x) = Some x"
    and enc_dec: "dec s = Some x \<Longrightarrow> enc x = s"
begin

lemma enc_inject: "enc x = enc y \<longleftrightarrow> x = y"
  using dec_enc by (metis option.inject)

lemma dec_iff: "dec s = Some x \<longleftrightarrow> s = enc x"
  using dec_enc enc_dec by metis

lemma dec_None_iff: "dec s = None \<longleftrightarrow> s \<notin> range enc"
  using dec_iff by (metis not_None_eq rangeE rangeI)

end

text \<open>
  A machine: a step function that keeps an invariant under the admissible operations, and a
  preorder that every admissible step of an invariant state climbs. Both then hold along
  every run.
\<close>

locale machine =
  fixes step :: "'s \<Rightarrow> 'o \<Rightarrow> 's" and ok :: "'o \<Rightarrow> bool" and inv :: "'s \<Rightarrow> bool"
  assumes step_inv: "inv s \<Longrightarrow> ok a \<Longrightarrow> inv (step s a)"
begin

lemma run_inv: "inv s \<Longrightarrow> list_all ok acts \<Longrightarrow> inv (foldl step s acts)"
  by (induction acts arbitrary: s) (auto simp: step_inv)

end

locale climbing_machine = machine step ok inv
  for step :: "'s \<Rightarrow> 'o \<Rightarrow> 's" and ok :: "'o \<Rightarrow> bool" and inv :: "'s \<Rightarrow> bool" +
  fixes below :: "'s \<Rightarrow> 's \<Rightarrow> bool"
  assumes below_refl: "below s s"
    and below_trans: "below s t \<Longrightarrow> below t u \<Longrightarrow> below s u"
    and step_below: "inv s \<Longrightarrow> ok a \<Longrightarrow> below s (step s a)"
begin

lemma run_below: "inv s \<Longrightarrow> list_all ok acts \<Longrightarrow> below s (foldl step s acts)"
proof (induction acts arbitrary: s)
  case Nil
  then show ?case by (simp add: below_refl)
next
  case (Cons a acts)
  then have "below (step s a) (foldl step (step s a) acts)" by (simp add: step_inv)
  with Cons.prems step_below show ?case by (auto intro: below_trans)
qed

end

end
