(* ===== verification/Json_Value.thy ===== *)
theory Json_Value
  imports Astra_Prelude
begin

text \<open>
  JSON values as \<^verbatim>\<open>serde_json::Value\<close> has them, and the generic JSON routines of
  \<^verbatim>\<open>crates/astra-turn-types/src/tool_invocation.rs\<close>: canonicalisation, the structural size
  of a value, and the length-prefixed byte stream that the metadata digest hashes. The
  loops of the source keep an explicit stack; here the head of the list is its top. Both
  loops are shown to compute the recursive reference definition, and the digest stream is
  shown to determine the value it was made from.
\<close>

section \<open>Values\<close>

text \<open>
  An object is a \<^verbatim>\<open>BTreeMap\<close> (the crate is built without \<^verbatim>\<open>preserve_order\<close>), hence its
  entries in key order. A number is carried by the text \<^verbatim>\<open>Number::to_string\<close> prints.
\<close>

datatype json =
    JNull
  | JBool bool
  | JNumber rstr
  | JString rstr
  | JArray "json list"
  | JObject "(rstr \<times> json) list"

definition is_object :: "json \<Rightarrow> bool" where
  "is_object v = (case v of JObject _ \<Rightarrow> True | _ \<Rightarrow> False)"

lemma is_object_simps [simp]:
  "is_object (JObject es)"
  "\<not> is_object JNull" "\<not> is_object (JBool b)" "\<not> is_object (JNumber t)"
  "\<not> is_object (JString t)" "\<not> is_object (JArray vs)"
  by (simp_all add: is_object_def)

text \<open>\<^verbatim>\<open>Value::get\<close> with a text index.\<close>

definition json_get :: "json \<Rightarrow> rstr \<Rightarrow> json option" where
  "json_get v key = (case v of JObject es \<Rightarrow> bt_get es key | _ \<Rightarrow> None)"

lemma json_induct [case_names JNull JBool JNumber JString JArray JObject]:
  assumes "P JNull" "\<And>b. P (JBool b)" "\<And>t. P (JNumber t)" "\<And>t. P (JString t)"
    "\<And>vs. (\<And>v. v \<in> set vs \<Longrightarrow> P v) \<Longrightarrow> P (JArray vs)"
    "\<And>es. (\<And>k v. (k, v) \<in> set es \<Longrightarrow> P v) \<Longrightarrow> P (JObject es)"
  shows "P v"
proof (induction v)
  case (JObject es)
  show ?case
    by (rule assms(6)) (use JObject in force)
qed (use assms in blast)+

text \<open>A value the source can hold: every object below it has its entries in key order.\<close>

primrec json_wf :: "json \<Rightarrow> bool" where
  "json_wf JNull = True"
| "json_wf (JBool b) = True"
| "json_wf (JNumber t) = True"
| "json_wf (JString t) = True"
| "json_wf (JArray vs) = list_all id (map json_wf vs)"
| "json_wf (JObject es) =
     (bt_wf es \<and> list_all (\<lambda>e. snd e) (map (map_prod id json_wf) es))"

lemma json_wf_JArray [simp]: "json_wf (JArray vs) \<longleftrightarrow> (\<forall>v \<in> set vs. json_wf v)"
  by (auto simp: list_all_iff)

lemma json_wf_JObject [simp]:
  "json_wf (JObject es) \<longleftrightarrow> bt_wf es \<and> (\<forall>(k, v) \<in> set es. json_wf v)"
  by (auto simp: list_all_iff)

declare json_wf.simps(5,6) [simp del]

section \<open>Canonical form\<close>

primrec canonical_json :: "json \<Rightarrow> json" where
  "canonical_json JNull = JNull"
| "canonical_json (JBool b) = JBool b"
| "canonical_json (JNumber t) = JNumber t"
| "canonical_json (JString t) = JString t"
| "canonical_json (JArray vs) = JArray (map canonical_json vs)"
| "canonical_json (JObject es) = JObject (bt_of_list (map (map_prod id canonical_json) es))"

text \<open>Two values that differ only in the order in which object entries are listed.\<close>

inductive json_perm :: "json \<Rightarrow> json \<Rightarrow> bool" where
  null: "json_perm JNull JNull"
| bool: "json_perm (JBool b) (JBool b)"
| number: "json_perm (JNumber t) (JNumber t)"
| string: "json_perm (JString t) (JString t)"
| array: "list_all2 json_perm vs ws \<Longrightarrow> json_perm (JArray vs) (JArray ws)"
| object: "distinct (map fst es) \<Longrightarrow>
     list_all2 (\<lambda>e f. fst e = fst f \<and> json_perm (snd e) (snd f)) es fs \<Longrightarrow>
     mset fs = mset gs \<Longrightarrow> json_perm (JObject es) (JObject gs)"
monos list.rel_mono_strong

lemma bt_get_of_list: "bt_get (bt_of_list es) k = map_of (rev es) k"
  by (simp add: bt_of_list_def bt.get_collect split: option.splits)

lemma bt_of_list_in: "(k, v) \<in> set (bt_of_list es) \<Longrightarrow> (k, v) \<in> set es"
  using bt_get_eq_Some_iff [OF bt_wf_of_list, of es k v]
  by (auto simp: bt_get_of_list dest: map_of_SomeD)

lemma bt_of_list_id:
  assumes "bt_wf es"
  shows "bt_of_list es = es"
proof (rule bt_ext [OF bt_wf_of_list assms])
  fix k
  have "distinct (map fst (rev es))" "distinct (map fst es)"
    using bt_wf_distinct [OF assms] by (simp_all add: bt_keys_def flip: rev_map)
  then have "map_of (rev es) = map_of es"
    by (simp add: map_of_inject_set)
  then show "bt_get (bt_of_list es) k = bt_get es k"
    by (simp only: bt_get_of_list) (simp add: bt_get_def)
qed

lemma canonical_json_wf: "json_wf (canonical_json v)"
proof (induction v rule: json_induct)
  case (JObject es)
  then show ?case
    by (fastforce simp: bt_wf_of_list dest!: bt_of_list_in)
qed auto

lemma canonical_json_id: "json_wf v \<Longrightarrow> canonical_json v = v"
proof (induction v rule: json_induct)
  case (JArray vs)
  then show ?case by (simp add: map_idI)
next
  case (JObject es)
  then have "map (map_prod id canonical_json) es = es"
    by (intro map_idI) force
  with JObject.prems show ?case by (simp add: bt_of_list_id)
qed simp_all

lemma canonical_json_idem: "canonical_json (canonical_json v) = canonical_json v"
  by (rule canonical_json_id [OF canonical_json_wf])

lemma canonical_json_perm: "json_perm v w \<Longrightarrow> canonical_json v = canonical_json w"
proof (induction rule: json_perm.induct)
  case (array vs ws)
  then show ?case
    by (auto simp: list_all2_conv_all_nth intro!: nth_equalityI)
next
  case (object es fs gs)
  let ?c = "map_prod id canonical_json :: rstr \<times> json \<Rightarrow> rstr \<times> json"
  have eq: "map ?c es = map ?c fs"
    using object.IH
    by (auto simp: list_all2_conv_all_nth map_prod_def split_beta intro!: nth_equalityI)
  have "map fst (map ?c fs) = map fst es"
    unfolding eq [symmetric] by simp
  with object.hyps(1) have "distinct (map fst (map ?c fs))" by simp
  moreover have "mset (map ?c fs) = mset (map ?c gs)"
    using object.hyps(2) by simp
  ultimately have "bt_of_list (map ?c fs) = bt_of_list (map ?c gs)"
    unfolding bt_of_list_def by (rule bt.collect_perm)
  with eq show ?case by simp
qed simp_all

section \<open>Structural size\<close>

lemma sum_list_map_rev [simp]: "sum_list (map f (rev xs)) = sum_list (map f xs)"
  for f :: "'a \<Rightarrow> nat"
  by (induction xs) simp_all

primrec jweight :: "json \<Rightarrow> nat" where
  "jweight JNull = 1"
| "jweight (JBool b) = 1"
| "jweight (JNumber t) = 1"
| "jweight (JString t) = 1"
| "jweight (JArray vs) = 1 + sum_list (map jweight vs)"
| "jweight (JObject es) = 1 + sum_list (map (\<lambda>e. 1 + snd e) (map (map_prod id jweight) es))"

lemma jweight_JObject [simp]:
  "jweight (JObject es) = 1 + length es + sum_list (map (\<lambda>e. jweight (snd e)) es)"
  by (simp add: comp_def sum_list_Suc)

declare jweight.simps(6) [simp del]

text \<open>The loop of \<^verbatim>\<open>json_value_structural_size\<close>: its state is the size so far and the stack.\<close>

function structural_size_loop :: "nat \<Rightarrow> json list \<Rightarrow> nat" where
  "structural_size_loop sz [] = sz"
| "structural_size_loop sz (v # pending) =
     (let sz = usize_sat_add sz 1 in
      case v of
        JNull \<Rightarrow> structural_size_loop sz pending
      | JBool _ \<Rightarrow> structural_size_loop sz pending
      | JNumber t \<Rightarrow> structural_size_loop (usize_sat_add sz (length t)) pending
      | JString t \<Rightarrow> structural_size_loop (usize_sat_add sz (length t)) pending
      | JArray vs \<Rightarrow> structural_size_loop sz (rev vs @ pending)
      | JObject es \<Rightarrow>
          structural_size_loop (fold (\<lambda>k sz. usize_sat_add sz (length k)) (bt_keys es) sz)
            (rev (bt_values es) @ pending))"
  by pat_completeness auto
termination
  by (relation "measure (\<lambda>(sz, pending). sum_list (map jweight pending))")
    (auto simp: bt_values_def comp_def)

definition json_value_structural_size :: "json \<Rightarrow> nat" where
  "json_value_structural_size root = structural_size_loop 0 [root]"

text \<open>The reference: one unit a node, plus the bytes of every key, string and number.\<close>

primrec json_bytes :: "json \<Rightarrow> nat" where
  "json_bytes JNull = 1"
| "json_bytes (JBool b) = 1"
| "json_bytes (JNumber t) = 1 + length t"
| "json_bytes (JString t) = 1 + length t"
| "json_bytes (JArray vs) = 1 + sum_list (map json_bytes vs)"
| "json_bytes (JObject es) =
     1 + sum_list (map (\<lambda>e. length (fst e) + snd e) (map (map_prod id json_bytes) es))"

lemma json_bytes_JObject [simp]:
  "json_bytes (JObject es) =
     1 + sum_list (map length (bt_keys es)) + sum_list (map json_bytes (bt_values es))"
  by (simp add: comp_def bt_keys_def bt_values_def sum_list_addf)

declare json_bytes.simps(6) [simp del]

lemma usize_sat_add_min [simp]:
  "usize_sat_add (min a usize_max) b = min (a + b) usize_max"
  by (simp add: usize_sat_add_def min_def)

lemma fold_usize_sat_add:
  "fold (\<lambda>k sz. usize_sat_add sz (length k)) ks (min sz usize_max) =
     min (sz + sum_list (map length ks)) usize_max"
  by (induction ks arbitrary: sz) (simp_all add: add.assoc)

lemma structural_size_loop_eq:
  "structural_size_loop (min sz usize_max) pending =
     min (sz + sum_list (map json_bytes pending)) usize_max"
proof (induction "sum_list (map jweight pending)" arbitrary: sz pending rule: less_induct)
  case less
  show ?case
  proof (cases pending)
    case Nil
    then show ?thesis by simp
  next
    case (Cons v rest)
    show ?thesis
    proof (cases v)
      case (JArray vs)
      have "structural_size_loop (min (sz + 1) usize_max) (rev vs @ rest) =
          min (sz + 1 + sum_list (map json_bytes (rev vs @ rest))) usize_max"
        by (rule less) (simp add: Cons JArray)
      then show ?thesis
        by (simp add: Cons JArray Let_def add.assoc)
    next
      case (JObject es)
      let ?s = "sz + 1 + sum_list (map length (bt_keys es))"
      have "structural_size_loop (min ?s usize_max) (rev (bt_values es) @ rest) =
          min (?s + sum_list (map json_bytes (rev (bt_values es) @ rest))) usize_max"
        by (rule less) (simp add: Cons JObject bt_values_def comp_def)
      moreover have "fold (\<lambda>k sz. usize_sat_add sz (length k)) (bt_keys es)
          (usize_sat_add (min sz usize_max) 1) = min ?s usize_max"
        by (simp only: usize_sat_add_min fold_usize_sat_add)
      ultimately show ?thesis
        by (simp add: Cons JObject Let_def add_ac)
    qed (use less [of rest] in \<open>simp_all add: Cons Let_def add.assoc\<close>)
  qed
qed

theorem json_value_structural_size_eq:
  "json_value_structural_size v = min (json_bytes v) usize_max"
  using structural_size_loop_eq [of 0 "[v]"] by (simp add: json_value_structural_size_def)

section \<open>The digest stream\<close>

text \<open>
  A hasher is the bytes it has been fed. \<^verbatim>\<open>u64::to_be_bytes\<close> is eight bytes, the most
  significant first.
\<close>

type_synonym hasher = rstr

definition be_bytes :: "nat \<Rightarrow> rstr" where
  "be_bytes n = map (\<lambda>i. char_of (n div 256 ^ (7 - i) mod 256)) [0..<8]"

definition update_len :: "hasher \<Rightarrow> nat \<Rightarrow> hasher" where
  "update_len d n = d @ be_bytes (if n < 2 ^ 64 then n else 2 ^ 64 - 1)"

definition update_tagged_bytes :: "hasher \<Rightarrow> char \<Rightarrow> rstr \<Rightarrow> hasher" where
  "update_tagged_bytes d tag bytes = update_len (d @ [tag]) (length bytes) @ bytes"

datatype JsonDigestFrame = FValue json | FKey rstr

fun frame_weight :: "JsonDigestFrame \<Rightarrow> nat" where
  "frame_weight (FValue v) = jweight v"
| "frame_weight (FKey k) = 1"

definition object_frames :: "(rstr \<times> json) list \<Rightarrow> JsonDigestFrame list" where
  "object_frames es = concat (map (\<lambda>(k, v). [FKey k, FValue v]) (sort_key fst es))"

lemma sum_list_map_sort_key: "sum_list (map f (sort_key g xs)) = sum_list (map f xs)"
  for f :: "'a \<Rightarrow> nat"
proof -
  have "sum_mset (mset (map f (sort_key g xs))) = sum_mset (mset (map f xs))" by simp
  then show ?thesis by (simp only: sum_mset_sum_list)
qed

lemma object_frames_weight:
  "sum_list (map frame_weight (object_frames es)) =
     length es + sum_list (map (\<lambda>e. jweight (snd e)) es)"
proof -
  have "sum_list (map frame_weight (concat (map (\<lambda>(k, v). [FKey k, FValue v]) xs))) =
      sum_list (map (\<lambda>e. 1 + jweight (snd e)) xs)" for xs :: "(rstr \<times> json) list"
    by (induction xs) auto
  then show ?thesis
    by (simp add: object_frames_def sum_list_map_sort_key sum_list_Suc)
qed

function digest_loop :: "hasher \<Rightarrow> JsonDigestFrame list \<Rightarrow> hasher" where
  "digest_loop d [] = d"
| "digest_loop d (FKey k # pending) = digest_loop (update_tagged_bytes d (CHR ''K'') k) pending"
| "digest_loop d (FValue v # pending) =
     (case v of
        JNull \<Rightarrow> digest_loop (d @ ''N'') pending
      | JBool b \<Rightarrow> digest_loop (d @ (if b then ''T'' else ''F'')) pending
      | JNumber t \<Rightarrow> digest_loop (update_tagged_bytes d (CHR ''D'') t) pending
      | JString t \<Rightarrow> digest_loop (update_tagged_bytes d (CHR ''S'') t) pending
      | JArray vs \<Rightarrow>
          digest_loop (update_len (d @ ''A'') (length vs)) (map FValue vs @ pending)
      | JObject es \<Rightarrow>
          digest_loop (update_len (d @ ''O'') (length es)) (object_frames es @ pending))"
  by pat_completeness auto
termination
  by (relation "measure (\<lambda>(d, pending). sum_list (map frame_weight pending))")
    (auto simp: object_frames_weight comp_def)

definition update_json_value_digest :: "hasher \<Rightarrow> json \<Rightarrow> hasher" where
  "update_json_value_digest d root = digest_loop d [FValue root]"

text \<open>The reference: the stream of a value, by recursion on it.\<close>

definition len_stream :: "nat \<Rightarrow> rstr" where
  "len_stream n = be_bytes (if n < 2 ^ 64 then n else 2 ^ 64 - 1)"

definition tagged_stream :: "char \<Rightarrow> rstr \<Rightarrow> rstr" where
  "tagged_stream tag bytes = tag # len_stream (length bytes) @ bytes"

primrec json_stream :: "json \<Rightarrow> rstr" where
  "json_stream JNull = ''N''"
| "json_stream (JBool b) = (if b then ''T'' else ''F'')"
| "json_stream (JNumber t) = tagged_stream (CHR ''D'') t"
| "json_stream (JString t) = tagged_stream (CHR ''S'') t"
| "json_stream (JArray vs) = ''A'' @ len_stream (length vs) @ concat (map json_stream vs)"
| "json_stream (JObject es) =
     ''O'' @ len_stream (length es) @
     concat (map (\<lambda>e. tagged_stream (CHR ''K'') (fst e) @ snd e)
       (sort_key fst (map (map_prod id json_stream) es)))"

lemma insort_key_map_snd:
  "insort_key fst (map_prod id f x) (map (map_prod id f) xs) = map (map_prod id f) (insort_key fst x xs)"
  by (induction xs) auto

lemma sort_key_map_snd:
  "sort_key fst (map (map_prod id f) xs) = map (map_prod id f) (sort_key fst xs)"
  by (induction xs) (simp_all add: insort_key_map_snd [unfolded id_def] id_def)

lemma json_stream_JObject [simp]:
  "json_stream (JObject es) =
     ''O'' @ len_stream (length es) @
     concat (map (\<lambda>e. tagged_stream (CHR ''K'') (fst e) @ json_stream (snd e)) (sort_key fst es))"
  by (simp add: sort_key_map_snd comp_def)

declare json_stream.simps(6) [simp del]

fun frame_stream :: "JsonDigestFrame \<Rightarrow> rstr" where
  "frame_stream (FValue v) = json_stream v"
| "frame_stream (FKey k) = tagged_stream (CHR ''K'') k"

lemma update_stream [simp]:
  "update_len d n = d @ len_stream n"
  "update_tagged_bytes d tag bytes = d @ tagged_stream tag bytes"
  by (simp_all add: update_len_def update_tagged_bytes_def tagged_stream_def len_stream_def)

lemma concat_frame_stream_object:
  "concat (map frame_stream (object_frames es)) =
     concat (map (\<lambda>e. tagged_stream (CHR ''K'') (fst e) @ json_stream (snd e)) (sort_key fst es))"
proof -
  have "concat (map frame_stream (concat (map (\<lambda>(k, v). [FKey k, FValue v]) xs))) =
      concat (map (\<lambda>e. tagged_stream (CHR ''K'') (fst e) @ json_stream (snd e)) xs)"
    for xs :: "(rstr \<times> json) list"
    by (induction xs) auto
  then show ?thesis by (simp add: object_frames_def)
qed

lemma digest_loop_eq: "digest_loop d pending = d @ concat (map frame_stream pending)"
proof (induction d pending rule: digest_loop.induct)
  case (3 d v pending)
  show ?case
  proof (cases v)
    case (JArray vs)
    then show ?thesis using 3(5) by (simp add: comp_def)
  next
    case (JObject es)
    then show ?thesis using 3(6) by (simp add: concat_frame_stream_object)
  qed (use 3 in simp_all)
qed simp_all

theorem update_json_value_digest_eq: "update_json_value_digest d v = d @ json_stream v"
  by (simp add: update_json_value_digest_def digest_loop_eq)

section \<open>The stream determines the value\<close>

text \<open>Every length below the value fits \<^verbatim>\<open>u64\<close>, so that no length prefix is clamped.\<close>

primrec json_small :: "json \<Rightarrow> bool" where
  "json_small JNull = True"
| "json_small (JBool b) = True"
| "json_small (JNumber t) = (length t < 2 ^ 64)"
| "json_small (JString t) = (length t < 2 ^ 64)"
| "json_small (JArray vs) = (length vs < 2 ^ 64 \<and> list_all id (map json_small vs))"
| "json_small (JObject es) =
     (length es < 2 ^ 64 \<and>
      list_all (\<lambda>e. length (fst e) < 2 ^ 64 \<and> snd e) (map (map_prod id json_small) es))"

lemma json_small_nested [simp]:
  "json_small (JArray vs) \<longleftrightarrow> length vs < 2 ^ 64 \<and> (\<forall>v \<in> set vs. json_small v)"
  "json_small (JObject es) \<longleftrightarrow>
     length es < 2 ^ 64 \<and> (\<forall>(k, v) \<in> set es. length k < 2 ^ 64 \<and> json_small v)"
  by (auto simp: list_all_iff)

declare json_small.simps(5,6) [simp del]

lemma length_be_bytes [simp]: "length (be_bytes n) = 8"
  by (simp add: be_bytes_def)

lemma be_bytes_nth:
  "i < 8 \<Longrightarrow> (of_char (be_bytes n ! i) :: nat) = n div 256 ^ (7 - i) mod 256"
  by (simp add: be_bytes_def)

lemma base256_inject:
  "(\<And>i. i < k \<Longrightarrow> m div 256 ^ i mod 256 = n div 256 ^ i mod (256 :: nat)) \<Longrightarrow>
     m mod 256 ^ k = n mod 256 ^ k"
proof (induction k)
  case 0
  then show ?case by simp
next
  case (Suc k)
  then have "m mod 256 ^ k = n mod 256 ^ k" by simp
  moreover have "m div 256 ^ k mod 256 = n div 256 ^ k mod 256" using Suc.prems by simp
  moreover have "x mod 256 ^ Suc k = 256 ^ k * (x div 256 ^ k mod 256) + x mod 256 ^ k" for x :: nat
    using mod_mult2_eq [of x "256 ^ k" 256] by (simp add: mult.commute)
  ultimately show ?case by metis
qed

lemma be_bytes_inject:
  assumes "be_bytes m = be_bytes n" and "m < 2 ^ 64" and "n < 2 ^ 64"
  shows "m = n"
proof -
  have "m div 256 ^ i mod 256 = n div 256 ^ i mod 256" if "i < 8" for i
    using be_bytes_nth [of "7 - i" m] be_bytes_nth [of "7 - i" n] that assms(1) by simp
  then have "m mod 256 ^ 8 = n mod 256 ^ 8" by (rule base256_inject)
  moreover have "(256 :: nat) ^ 8 = 2 ^ 64" by simp
  ultimately show ?thesis using assms(2,3) by simp
qed

lemma len_stream_inject:
  assumes "len_stream m @ r = len_stream n @ r'" and "m < 2 ^ 64" and "n < 2 ^ 64"
  shows "m = n \<and> r = r'"
proof -
  have "be_bytes m @ r = be_bytes n @ r'"
    using assms by (simp add: len_stream_def)
  then have "be_bytes m = be_bytes n \<and> r = r'"
    by (metis append_eq_append_conv length_be_bytes)
  with assms(2,3) be_bytes_inject show ?thesis by blast
qed

lemma tagged_stream_inject:
  assumes "tagged_stream a s @ r = tagged_stream b t @ r'"
    and "length s < 2 ^ 64" and "length t < 2 ^ 64"
  shows "a = b \<and> s = t \<and> r = r'"
proof -
  have "a = b" and "len_stream (length s) @ s @ r = len_stream (length t) @ t @ r'"
    using assms(1) by (simp_all add: tagged_stream_def)
  with len_stream_inject [OF this(2) assms(2,3)] show ?thesis
    by (auto simp: append_eq_append_conv)
qed

lemma concat_stream_inject:
  assumes "\<And>x y r r'. x \<in> set xs \<Longrightarrow> y \<in> set ys \<Longrightarrow> f x @ r = f y @ r' \<Longrightarrow> x = y \<and> r = r'"
    and "length xs = length ys"
    and "concat (map f xs) @ r = concat (map f ys) @ r'"
  shows "xs = ys \<and> r = r'"
  using assms(2,1,3)
proof (induction xs ys rule: list_induct2)
  case Nil
  then show ?case by simp
next
  case (Cons x xs y ys)
  have "f x @ (concat (map f xs) @ r) = f y @ (concat (map f ys) @ r')"
    using Cons.prems(2) by simp
  with Cons.prems(1) have "x = y" and "concat (map f xs) @ r = concat (map f ys) @ r'"
    by (metis list.set_intros(1))+
  with Cons show ?case by (metis list.set_intros(2))
qed

lemma sort_key_bt_wf: "bt_wf es \<Longrightarrow> sort_key fst es = es"
  by (simp add: bt_wf_def bt_keys_def sort_key_id_if_sorted strict_sorted_imp_sorted)

fun json_tag :: "json \<Rightarrow> char" where
  "json_tag JNull = CHR ''N''"
| "json_tag (JBool b) = (if b then CHR ''T'' else CHR ''F'')"
| "json_tag (JNumber t) = CHR ''D''"
| "json_tag (JString t) = CHR ''S''"
| "json_tag (JArray vs) = CHR ''A''"
| "json_tag (JObject es) = CHR ''O''"

lemma json_tag_eq:
  assumes "json_stream v @ r = json_stream w @ r'"
  shows "json_tag v = json_tag w"
proof -
  have "\<exists>u. json_stream x = json_tag x # u" for x
    by (cases x) (simp_all add: tagged_stream_def)
  then obtain u u' where "json_stream v = json_tag v # u" "json_stream w = json_tag w # u'"
    by blast
  with assms show ?thesis by simp
qed

lemma json_stream_array_inject:
  assumes IH: "\<And>x y u u'. x \<in> set vs \<Longrightarrow> y \<in> set ws \<Longrightarrow>
      json_stream x @ u = json_stream y @ u' \<Longrightarrow> x = y \<and> u = u'"
    and small: "length vs < 2 ^ 64" "length ws < 2 ^ 64"
    and eq: "json_stream (JArray vs) @ r = json_stream (JArray ws) @ r'"
  shows "vs = ws \<and> r = r'"
proof -
  have "len_stream (length vs) @ (concat (map json_stream vs) @ r) =
      len_stream (length ws) @ (concat (map json_stream ws) @ r')"
    using eq by simp
  from len_stream_inject [OF this small] show ?thesis
    using concat_stream_inject [of vs ws json_stream r r'] IH by blast
qed

lemma json_stream_object_inject:
  assumes IH: "\<And>x y u u'. x \<in> set es \<Longrightarrow> y \<in> set fs \<Longrightarrow>
      json_stream (snd x) @ u = json_stream (snd y) @ u' \<Longrightarrow> snd x = snd y \<and> u = u'"
    and wf: "bt_wf es" "bt_wf fs"
    and small: "length es < 2 ^ 64" "length fs < 2 ^ 64"
    and keys: "\<And>x. x \<in> set es \<union> set fs \<Longrightarrow> length (fst x) < 2 ^ 64"
    and eq: "json_stream (JObject es) @ r = json_stream (JObject fs) @ r'"
  shows "es = fs \<and> r = r'"
proof -
  let ?f = "\<lambda>e. tagged_stream (CHR ''K'') (fst e) @ json_stream (snd e)"
  have entry: "x = y \<and> u = u'" if "x \<in> set es" "y \<in> set fs" "?f x @ u = ?f y @ u'" for x y u u'
  proof -
    have "tagged_stream (CHR ''K'') (fst x) @ (json_stream (snd x) @ u) =
        tagged_stream (CHR ''K'') (fst y) @ (json_stream (snd y) @ u')"
      using that(3) by simp
    from tagged_stream_inject [OF this] keys that IH [of x y u u'] show ?thesis
      by (simp add: prod_eq_iff)
  qed
  have "len_stream (length es) @ (concat (map ?f es) @ r) =
      len_stream (length fs) @ (concat (map ?f fs) @ r')"
    using eq wf by (simp add: sort_key_bt_wf)
  from len_stream_inject [OF this small] show ?thesis
    using concat_stream_inject [of es fs ?f r r'] entry by blast
qed

lemma json_stream_prefix_free:
  "json_wf v \<Longrightarrow> json_small v \<Longrightarrow> json_wf w \<Longrightarrow> json_small w \<Longrightarrow>
     json_stream v @ r = json_stream w @ r' \<Longrightarrow> v = w \<and> r = r'"
proof (induction v arbitrary: w r r' rule: json_induct)
  case (JArray vs)
  from json_tag_eq [OF JArray.prems(5)] obtain ws where w: "w = JArray ws"
    by (cases w) (auto split: if_splits)
  have "vs = ws \<and> r = r'"
    by (rule json_stream_array_inject) (use JArray w in auto)
  with w show ?case by simp
next
  case (JObject es)
  from json_tag_eq [OF JObject.prems(5)] obtain fs where w: "w = JObject fs"
    by (cases w) (auto split: if_splits)
  have "es = fs \<and> r = r'"
  proof (rule json_stream_object_inject)
    fix x y u u'
    assume x: "x \<in> set es" and y: "y \<in> set fs"
      and eq: "json_stream (snd x) @ u = json_stream (snd y) @ u'"
    show "snd x = snd y \<and> u = u'"
      by (rule JObject.IH [of "fst x" "snd x", OF _ _ _ _ _ eq])
        (use x y w JObject.prems in \<open>auto simp: case_prod_beta\<close>)
  qed (use JObject.prems w in \<open>auto simp: case_prod_beta simp del: json_stream_JObject\<close>)
  with w show ?case by simp
next
  case (JNumber t)
  from json_tag_eq [OF JNumber.prems(5)] obtain t' where w: "w = JNumber t'"
    by (cases w) (auto split: if_splits)
  with JNumber.prems(5) have "tagged_stream (CHR ''D'') t @ r = tagged_stream (CHR ''D'') t' @ r'"
    by simp
  from tagged_stream_inject [OF this] JNumber.prems(2,4) w show ?case by simp
next
  case (JString t)
  from json_tag_eq [OF JString.prems(5)] obtain t' where w: "w = JString t'"
    by (cases w) (auto split: if_splits)
  with JString.prems(5) have "tagged_stream (CHR ''S'') t @ r = tagged_stream (CHR ''S'') t' @ r'"
    by simp
  from tagged_stream_inject [OF this] JString.prems(2,4) w show ?case by simp
next
  case JNull
  from json_tag_eq [OF JNull.prems(5)] have "w = JNull"
    by (cases w) (auto split: if_splits)
  with JNull.prems show ?case by simp
next
  case (JBool b)
  from json_tag_eq [OF JBool.prems(5)] have "w = JBool b"
    by (cases w) (auto split: if_splits)
  with JBool.prems show ?case by (auto split: if_splits)
qed

end
