(* ===== verification/Tool_Invocation.thy ===== *)
theory Tool_Invocation
  imports Json_Value
begin

text \<open>
  The durable tool-invocation contract of
  \<^verbatim>\<open>crates/astra-turn-types/src/tool_invocation.rs\<close>: identities, fingerprints, decisions,
  leases, bounded result payloads, terminal outcomes, completion sources and the ledger
  record with its validation. Hashing (\<^verbatim>\<open>sha2\<close>) and JSON printing (\<^verbatim>\<open>serde_json::to_vec\<close>) are
  code of other crates: they are the two functions of the record \<open>externals\<close> that every
  definition using them takes as an argument. Printing a JSON value cannot fail, so the
  branch \<open>ResultSerialization\<close> is never taken. A \<^verbatim>\<open>Deserialize\<close> implementation is the function from the decoded raw fields to
  the checked value.
\<close>

record externals =
  to_vec :: "json \<Rightarrow> rstr"
  sha256_hex :: "rstr \<Rightarrow> rstr"

section \<open>Limits and labels\<close>

definition TOOL_INVOCATION_DISPATCH_OWNER_MAX_BYTES :: nat where
  "TOOL_INVOCATION_DISPATCH_OWNER_MAX_BYTES = 64"

definition TOOL_INVOCATION_RESULT_MAX_BYTES :: nat where
  "TOOL_INVOCATION_RESULT_MAX_BYTES = 256 * 1024"

definition TOOL_INVOCATION_RESULT_OUTPUT_MAX_BYTES :: nat where
  "TOOL_INVOCATION_RESULT_OUTPUT_MAX_BYTES = 192 * 1024"

definition TOOL_INVOCATION_RESULT_METADATA_MAX_BYTES :: nat where
  "TOOL_INVOCATION_RESULT_METADATA_MAX_BYTES = 64 * 1024"

definition TOOL_INVOCATION_RESULT_METADATA_MAX_DEPTH :: nat where
  "TOOL_INVOCATION_RESULT_METADATA_MAX_DEPTH = 16"

definition TOOL_INVOCATION_RESULT_METADATA_MAX_NODES :: nat where
  "TOOL_INVOCATION_RESULT_METADATA_MAX_NODES = 4096"

definition TOOL_INVOCATION_RESULT_CLASSIFIER_MAX_BYTES :: nat where
  "TOOL_INVOCATION_RESULT_CLASSIFIER_MAX_BYTES = 256"

definition TOOL_INVOCATION_RESULT_ARTIFACT_METADATA_KEY :: rstr where
  "TOOL_INVOCATION_RESULT_ARTIFACT_METADATA_KEY = ''astraResultArtifact''"

definition TOOL_INVOCATION_RESULT_PROJECTED_OUTPUT_BYTES :: nat where
  "TOOL_INVOCATION_RESULT_PROJECTED_OUTPUT_BYTES = 180 * 1024"

definition TOOL_INVOCATION_RESULT_PROJECTION_CONTRACT_VERSION :: rstr where
  "TOOL_INVOCATION_RESULT_PROJECTION_CONTRACT_VERSION = ''tool-result-projection-v1''"

definition TOOL_INVOCATION_CACHE_COMPLETION_CONTRACT_VERSION :: rstr where
  "TOOL_INVOCATION_CACHE_COMPLETION_CONTRACT_VERSION = ''tool-invocation-cache-completion-v1''"

definition TOOL_INVOCATION_RUN_CLOSURE_CONTRACT_VERSION :: rstr where
  "TOOL_INVOCATION_RUN_CLOSURE_CONTRACT_VERSION = ''tool-invocation-run-closure-v1''"

definition TOOL_INVOCATION_GUIDANCE_COMPLETION_CONTRACT_VERSION :: rstr where
  "TOOL_INVOCATION_GUIDANCE_COMPLETION_CONTRACT_VERSION = ''tool-invocation-guidance-completion-v1''"

definition INTERNAL_TRANSPORT_ARGUMENTS :: "rstr list" where
  "INTERNAL_TRANSPORT_ARGUMENTS = [''_run_id'', ''_tool_call_id'', ''_turn_chain_id'']"

lemmas limit_defs =
  TOOL_INVOCATION_DISPATCH_OWNER_MAX_BYTES_def TOOL_INVOCATION_RESULT_MAX_BYTES_def
  TOOL_INVOCATION_RESULT_OUTPUT_MAX_BYTES_def TOOL_INVOCATION_RESULT_METADATA_MAX_BYTES_def
  TOOL_INVOCATION_RESULT_METADATA_MAX_DEPTH_def TOOL_INVOCATION_RESULT_METADATA_MAX_NODES_def
  TOOL_INVOCATION_RESULT_CLASSIFIER_MAX_BYTES_def TOOL_INVOCATION_RESULT_PROJECTED_OUTPUT_BYTES_def

section \<open>States and errors\<close>

datatype ToolInvocationState =
    Prepared
  | Dispatched
  | Succeeded
  | Failed
  | Rejected
  | OutcomeUnknown

datatype DispatchCertainty = NotDispatched | CertainlyDispatched | Unknown

fun state_is_terminal :: "ToolInvocationState \<Rightarrow> bool" where
  "state_is_terminal Succeeded = True"
| "state_is_terminal Failed = True"
| "state_is_terminal Rejected = True"
| "state_is_terminal OutcomeUnknown = True"
| "state_is_terminal _ = False"

fun can_transition_to :: "ToolInvocationState \<Rightarrow> ToolInvocationState \<Rightarrow> bool" where
  "can_transition_to Prepared Dispatched = True"
| "can_transition_to Dispatched Succeeded = True"
| "can_transition_to Dispatched Failed = True"
| "can_transition_to Dispatched Rejected = True"
| "can_transition_to Dispatched OutcomeUnknown = True"
| "can_transition_to OutcomeUnknown Succeeded = True"
| "can_transition_to OutcomeUnknown Failed = True"
| "can_transition_to OutcomeUnknown Rejected = True"
| "can_transition_to _ _ = False"

fun required_dispatch_certainty :: "ToolInvocationState \<Rightarrow> DispatchCertainty" where
  "required_dispatch_certainty Prepared = NotDispatched"
| "required_dispatch_certainty OutcomeUnknown = Unknown"
| "required_dispatch_certainty _ = CertainlyDispatched"

datatype ToolInvocationContractError =
    InvalidExecutionCeiling
  | InvalidExecutionBudget
  | EmptyIdentityField rstr
  | EmptyPolicyDecisionId
  | EmptyToolReferenceField rstr
  | EmptyCanonicalArgumentsHash
  | EmptyDispatchOwner
  | DispatchOwnerTooLong nat nat
  | InvalidDispatchLeaseExpiry
  | InvalidDecisionSnapshot
  | DecisionSerialization rstr
  | DecisionContentIdMismatch rstr rstr
  | RecordDecisionMismatch rstr rstr
  | MissingTerminalOutcome ToolInvocationState
  | OutcomeStateMismatch ToolInvocationState ToolInvocationState
  | RecordCertaintyMismatch ToolInvocationState DispatchCertainty DispatchCertainty
  | MissingDispatchLease
  | UnexpectedDispatchLease
  | UnsupportedCacheCompletionContractVersion rstr
  | UnsupportedRunClosureContractVersion rstr
  | UnsupportedGuidanceCompletionContractVersion rstr
  | InvalidRunClosureStatus rstr
  | InvalidCompletionContentId rstr
  | InvalidCacheCompletionState ToolInvocationState
  | InvalidRunClosureCompletionState ToolInvocationState
  | InvalidGuidanceCompletionState ToolInvocationState
  | InvalidGuidanceCompletionEventIndex int
  | InvalidNonDispatchAttemptCount u32
  | NonDispatchCompletionHasDispatchLease
  | ResultSerialization rstr
  | ResultFieldTooLarge rstr nat nat
  | ResultMetadataTooLarge nat nat
  | ResultMetadataTooDeep nat nat
  | ResultMetadataTooManyNodes nat nat
  | ResultPayloadTooLarge nat nat

type_synonym 'a checked = "(ToolInvocationContractError, 'a) result"

section \<open>Identity\<close>

datatype ToolInvocationIdentity = ToolInvocationIdentity
  (user_id: rstr) (session_id: rstr) (run_id: rstr) (turn_chain_id: rstr) (invocation_id: rstr)

text \<open>The derived order compares the fields in the order of their declaration.\<close>

definition identity_key :: "ToolInvocationIdentity \<Rightarrow> rstr \<times> rstr \<times> rstr \<times> rstr \<times> rstr" where
  "identity_key i = (user_id i, session_id i, run_id i, turn_chain_id i, invocation_id i)"

lemma identity_key_inject [simp]: "identity_key i = identity_key j \<longleftrightarrow> i = j"
  by (cases i; cases j) (simp add: identity_key_def)

instantiation ToolInvocationIdentity :: linorder
begin

definition less_eq_ToolInvocationIdentity where
  "i \<le> j \<longleftrightarrow> identity_key i \<le> identity_key j"

definition less_ToolInvocationIdentity where
  "i < j \<longleftrightarrow> identity_key i < identity_key j"

instance
  by intro_classes
    (auto simp: less_eq_ToolInvocationIdentity_def less_ToolInvocationIdentity_def
      less_le_not_le simp flip: identity_key_inject)

end

definition identity_validate :: "ToolInvocationIdentity \<Rightarrow> unit checked" where
  "identity_validate i =
     (case find (\<lambda>(field, value). trim value = [])
        [(''user_id'', user_id i), (''session_id'', session_id i), (''run_id'', run_id i),
         (''turn_chain_id'', turn_chain_id i), (''invocation_id'', invocation_id i)]
      of Some (field, _) \<Rightarrow> Inl (EmptyIdentityField field) | None \<Rightarrow> Inr ())"

definition identity_new ::
    "rstr \<Rightarrow> rstr \<Rightarrow> rstr \<Rightarrow> rstr \<Rightarrow> rstr \<Rightarrow> ToolInvocationIdentity checked" where
  "identity_new u s r t n =
     (let identity = ToolInvocationIdentity u s r t n in
      try_bind (identity_validate identity) (\<lambda>_. Inr identity))"

definition content_id :: "externals \<Rightarrow> rstr \<Rightarrow> rstr" where
  "content_id ext bytes = ''sha256:'' @ sha256_hex ext bytes"

definition storage_key :: "externals \<Rightarrow> ToolInvocationIdentity \<Rightarrow> rstr" where
  "storage_key ext i =
     content_id ext (to_vec ext (JObject
       [(''user_id'', JString (user_id i)), (''session_id'', JString (session_id i)),
        (''run_id'', JString (run_id i)), (''turn_chain_id'', JString (turn_chain_id i)),
        (''invocation_id'', JString (invocation_id i))]))"

definition identity_deserialize ::
    "rstr \<Rightarrow> rstr \<Rightarrow> rstr \<Rightarrow> rstr \<Rightarrow> rstr \<Rightarrow> ToolInvocationIdentity checked" where
  "identity_deserialize u s r t n = identity_new u s r t n"

section \<open>Tool reference and fingerprint\<close>

record ToolIdentity =
  provider_binding :: rstr
  native_tool_id :: rstr

record ResolvedToolDescriptorRef =
  descriptor_identity :: ToolIdentity
  descriptor_version :: rstr

datatype DurableToolReference =
    BuiltIn (tool_name: rstr) (registry_contract_version: rstr)
  | Provider (descriptor: ResolvedToolDescriptorRef)

definition built_in :: "rstr \<Rightarrow> rstr \<Rightarrow> DurableToolReference checked" where
  "built_in name version =
     (if trim name = [] then Inl (EmptyToolReferenceField ''tool_name'')
      else if trim version = [] then Inl (EmptyToolReferenceField ''registry_contract_version'')
      else Inr (BuiltIn name version))"

fun tool_reference_deserialize :: "DurableToolReference \<Rightarrow> DurableToolReference checked" where
  "tool_reference_deserialize (BuiltIn name version) = built_in name version"
| "tool_reference_deserialize (Provider d) = Inr (Provider d)"

record ToolInvocationFingerprint =
  tool :: DurableToolReference
  canonical_arguments_hash :: rstr
  policy_decision_id :: rstr

definition fingerprint_deserialize ::
    "DurableToolReference \<Rightarrow> rstr \<Rightarrow> rstr \<Rightarrow> ToolInvocationFingerprint checked" where
  "fingerprint_deserialize t hash decision =
     (if trim hash = [] then Inl EmptyCanonicalArgumentsHash
      else if trim decision = [] then Inl EmptyPolicyDecisionId
      else Inr \<lparr>tool = t, canonical_arguments_hash = hash, policy_decision_id = decision\<rparr>)"

definition canonical_public_tool_arguments :: "json \<Rightarrow> json" where
  "canonical_public_tool_arguments arguments =
     canonical_json
       (case arguments of
          JObject es \<Rightarrow> JObject (fold bt_remove INTERNAL_TRANSPORT_ARGUMENTS es)
        | v \<Rightarrow> v)"

definition canonical_public_arguments_hash :: "externals \<Rightarrow> json \<Rightarrow> rstr" where
  "canonical_public_arguments_hash ext arguments =
     content_id ext (to_vec ext (canonical_public_tool_arguments arguments))"

definition fingerprint_new ::
    "externals \<Rightarrow> DurableToolReference \<Rightarrow> json \<Rightarrow> rstr \<Rightarrow> ToolInvocationFingerprint checked" where
  "fingerprint_new ext t arguments decision =
     (if trim decision = [] then Inl EmptyPolicyDecisionId
      else Inr \<lparr>tool = t,
                canonical_arguments_hash = canonical_public_arguments_hash ext arguments,
                policy_decision_id = decision\<rparr>)"

definition same_tool_and_arguments ::
    "ToolInvocationFingerprint \<Rightarrow> ToolInvocationFingerprint \<Rightarrow> bool" where
  "same_tool_and_arguments f g \<longleftrightarrow>
     tool f = tool g \<and> canonical_arguments_hash f = canonical_arguments_hash g"

section \<open>Decision and lease\<close>

record ToolInvocationDecision =
  decision_id :: rstr
  snapshot :: json

definition decision_content_id :: "externals \<Rightarrow> json \<Rightarrow> rstr" where
  "decision_content_id ext snap = content_id ext (to_vec ext snap)"

definition decision_from_snapshot :: "externals \<Rightarrow> json \<Rightarrow> ToolInvocationDecision checked" where
  "decision_from_snapshot ext snap =
     (if \<not> is_object snap then Inl InvalidDecisionSnapshot
      else let snap = canonical_json snap in
        Inr \<lparr>decision_id = decision_content_id ext snap, snapshot = snap\<rparr>)"

text \<open>The argument is what \<^verbatim>\<open>serde_json::to_value\<close> made of the snapshot, or its error text.\<close>

definition decision_new :: "externals \<Rightarrow> (rstr, json) result \<Rightarrow> ToolInvocationDecision checked" where
  "decision_new ext value = try_bind (map_err DecisionSerialization value) (decision_from_snapshot ext)"

definition decision_validate :: "externals \<Rightarrow> ToolInvocationDecision \<Rightarrow> unit checked" where
  "decision_validate ext d =
     (if \<not> is_object (snapshot d) then Inl InvalidDecisionSnapshot
      else let expected = decision_content_id ext (canonical_json (snapshot d)) in
        if decision_id d \<noteq> expected then Inl (DecisionContentIdMismatch expected (decision_id d))
        else Inr ())"

definition decision_deserialize ::
    "externals \<Rightarrow> rstr \<Rightarrow> json \<Rightarrow> ToolInvocationDecision checked" where
  "decision_deserialize ext did snap =
     (let d = \<lparr>decision_id = did, snapshot = snap\<rparr> in
      try_bind (decision_validate ext d) (\<lambda>_. Inr d))"

record ToolInvocationDispatchLease =
  owner_id :: rstr
  expires_at_epoch_ms :: u64

definition lease_new :: "rstr \<Rightarrow> u64 \<Rightarrow> ToolInvocationDispatchLease checked" where
  "lease_new owner expires =
     (if trim owner = [] then Inl EmptyDispatchOwner
      else if length owner > TOOL_INVOCATION_DISPATCH_OWNER_MAX_BYTES
      then Inl (DispatchOwnerTooLong (length owner) TOOL_INVOCATION_DISPATCH_OWNER_MAX_BYTES)
      else if expires = 0 then Inl InvalidDispatchLeaseExpiry
      else Inr \<lparr>owner_id = owner, expires_at_epoch_ms = expires\<rparr>)"

definition is_expired_at :: "ToolInvocationDispatchLease \<Rightarrow> u64 \<Rightarrow> bool" where
  "is_expired_at l now = (expires_at_epoch_ms l \<le> now)"

definition lease_deserialize :: "rstr \<Rightarrow> u64 \<Rightarrow> ToolInvocationDispatchLease checked" where
  "lease_deserialize owner expires = lease_new owner expires"

section \<open>Result payload\<close>

record ToolInvocationResultPayload =
  payload_output :: rstr
  metadata :: "(rstr, json) btree"
  exit_semantics :: "rstr option"

definition validate_bounded_string :: "rstr \<Rightarrow> rstr \<Rightarrow> nat \<Rightarrow> unit checked" where
  "validate_bounded_string field value max_bytes =
     (if length value > max_bytes then Inl (ResultFieldTooLarge field (length value) max_bytes)
      else Inr ())"

definition validate_optional_classifier :: "rstr \<Rightarrow> rstr option \<Rightarrow> unit checked" where
  "validate_optional_classifier field value =
     (case value of None \<Rightarrow> Inr ()
      | Some v \<Rightarrow> validate_bounded_string field v TOOL_INVOCATION_RESULT_CLASSIFIER_MAX_BYTES)"

text \<open>The loop of \<^verbatim>\<open>validate_result_metadata\<close>: the node count and the stack of values with depths.\<close>

function metadata_loop :: "nat \<Rightarrow> (json \<times> nat) list \<Rightarrow> unit checked" where
  "metadata_loop nodes [] = Inr ()"
| "metadata_loop nodes ((v, depth) # pending) =
     (if depth > TOOL_INVOCATION_RESULT_METADATA_MAX_DEPTH
      then Inl (ResultMetadataTooDeep depth TOOL_INVOCATION_RESULT_METADATA_MAX_DEPTH)
      else let nodes = usize_sat_add nodes 1 in
        if nodes > TOOL_INVOCATION_RESULT_METADATA_MAX_NODES
        then Inl (ResultMetadataTooManyNodes nodes TOOL_INVOCATION_RESULT_METADATA_MAX_NODES)
        else case v of
          JArray vs \<Rightarrow>
            metadata_loop nodes (rev (map (\<lambda>w. (w, usize_sat_add depth 1)) vs) @ pending)
        | JObject es \<Rightarrow>
            (let nodes = usize_sat_add nodes (length es) in
             if nodes > TOOL_INVOCATION_RESULT_METADATA_MAX_NODES
             then Inl (ResultMetadataTooManyNodes nodes TOOL_INVOCATION_RESULT_METADATA_MAX_NODES)
             else metadata_loop nodes
               (rev (map (\<lambda>w. (w, usize_sat_add depth 1)) (bt_values es)) @ pending))
        | _ \<Rightarrow> metadata_loop nodes pending)"
  by pat_completeness auto
termination
  by (relation "measure (\<lambda>(nodes, pending). sum_list (map (\<lambda>p. jweight (fst p)) pending))")
    (auto simp: comp_def bt_values_def)

definition validate_result_metadata :: "externals \<Rightarrow> (rstr, json) btree \<Rightarrow> unit checked" where
  "validate_result_metadata ext md =
     try_bind (metadata_loop (length md) (rev (map (\<lambda>v. (v, 1)) (bt_values md)))) (\<lambda>_.
     let encoded_bytes = length (to_vec ext (JObject md)) in
     if encoded_bytes > TOOL_INVOCATION_RESULT_METADATA_MAX_BYTES
     then Inl (ResultMetadataTooLarge encoded_bytes TOOL_INVOCATION_RESULT_METADATA_MAX_BYTES)
     else Inr ())"

text \<open>The printed form of a payload: fields in declaration order, the empty ones left out.\<close>

definition payload_json :: "ToolInvocationResultPayload \<Rightarrow> json" where
  "payload_json p =
     JObject ([(''output'', JString (payload_output p))]
       @ (if metadata p = [] then [] else [(''metadata'', JObject (metadata p))])
       @ (case exit_semantics p of None \<Rightarrow> [] | Some e \<Rightarrow> [(''exit_semantics'', JString e)]))"

definition payload_validate :: "externals \<Rightarrow> ToolInvocationResultPayload \<Rightarrow> unit checked" where
  "payload_validate ext p =
     try_bind (validate_bounded_string ''output'' (payload_output p)
                 TOOL_INVOCATION_RESULT_OUTPUT_MAX_BYTES) (\<lambda>_.
     try_bind (case exit_semantics p of None \<Rightarrow> Inr ()
               | Some e \<Rightarrow> validate_bounded_string ''exit_semantics'' e
                   TOOL_INVOCATION_RESULT_CLASSIFIER_MAX_BYTES) (\<lambda>_.
     try_bind (validate_result_metadata ext (metadata p)) (\<lambda>_.
     let encoded_bytes = length (to_vec ext (payload_json p)) in
     if encoded_bytes > TOOL_INVOCATION_RESULT_MAX_BYTES
     then Inl (ResultPayloadTooLarge encoded_bytes TOOL_INVOCATION_RESULT_MAX_BYTES)
     else Inr ())))"

definition payload_new ::
    "externals \<Rightarrow> rstr \<Rightarrow> (rstr, json) btree \<Rightarrow> rstr option \<Rightarrow> ToolInvocationResultPayload checked" where
  "payload_new ext out md ex =
     (let result = \<lparr>payload_output = out, metadata = md, exit_semantics = ex\<rparr> in
      try_bind (payload_validate ext result) (\<lambda>_. Inr result))"

definition payload_deserialize ::
    "externals \<Rightarrow> rstr \<Rightarrow> (rstr, json) btree \<Rightarrow> rstr option \<Rightarrow> ToolInvocationResultPayload checked" where
  "payload_deserialize ext out md ex = payload_new ext out md ex"

section \<open>Bounded projection\<close>

function head_boundary :: "rstr \<Rightarrow> nat \<Rightarrow> nat" where
  "head_boundary s i = (if is_char_boundary s i then i else head_boundary s (i - 1))"
  by pat_completeness auto
termination
  by (relation "measure snd") (auto simp: is_char_boundary_def)

text \<open>An index below a string's length is below the largest \<^verbatim>\<open>usize\<close>: the addition is exact.\<close>

function tail_boundary :: "rstr \<Rightarrow> nat \<Rightarrow> nat" where
  "tail_boundary s i =
     (if i < length s \<and> \<not> is_char_boundary s i then tail_boundary s (i + 1) else i)"
  by pat_completeness auto
termination
  by (relation "measure (\<lambda>(s, i). length s - i)") auto

declare head_boundary.simps [simp del] tail_boundary.simps [simp del]

definition truncate_utf8_head_tail :: "rstr \<Rightarrow> nat \<Rightarrow> rstr \<Rightarrow> rstr" where
  "truncate_utf8_head_tail value max_bytes marker =
     (if length value \<le> max_bytes then value
      else let content_budget = max_bytes - length marker;
               head_budget = content_budget div 2;
               tail_budget = content_budget - head_budget;
               head_end = head_boundary value (min head_budget (length value));
               tail_start = tail_boundary value (length value - tail_budget)
           in take head_end value @ marker @ drop tail_start value)"

definition projection_evidence :: "nat \<Rightarrow> rstr \<Rightarrow> rstr \<Rightarrow> rstr \<Rightarrow> json" where
  "projection_evidence observed_bytes content_hash reason size_kind =
     JObject (bt_of_list
       [(''contentHash'', JString content_hash), (''observedBytes'', JNumber (show_nat observed_bytes)),
        (''sizeKind'', JString size_kind), (''reason'', JString reason), (''inline'', JBool False)])"

fun result_metadata_error_code :: "ToolInvocationContractError \<Rightarrow> rstr" where
  "result_metadata_error_code (ResultMetadataTooLarge _ _) = ''too_large''"
| "result_metadata_error_code (ResultMetadataTooDeep _ _) = ''too_deep''"
| "result_metadata_error_code (ResultMetadataTooManyNodes _ _) = ''too_many_nodes''"
| "result_metadata_error_code (ResultSerialization _) = ''serialization_failed''"
| "result_metadata_error_code _ = ''payload_budget''"

definition stable_metadata_size_hint :: "(rstr, json) btree \<Rightarrow> nat" where
  "stable_metadata_size_hint md =
     fold (\<lambda>(k, v) sz. usize_sat_add (usize_sat_add sz (length k)) (json_value_structural_size v)) md 0"

definition stable_metadata_stream :: "(rstr, json) btree \<Rightarrow> hasher" where
  "stable_metadata_stream md =
     fold (\<lambda>(k, v) d. update_json_value_digest (update_tagged_bytes d (CHR ''K'') k) v) md
       (update_len (''astra-tool-result-metadata-v1'' @ [CHR 0x00]) (length md))"

definition stable_metadata_digest :: "externals \<Rightarrow> (rstr, json) btree \<Rightarrow> rstr" where
  "stable_metadata_digest ext md = content_id ext (stable_metadata_stream md)"

definition metadata_observed_size ::
    "(rstr, json) btree \<Rightarrow> ToolInvocationContractError \<Rightarrow> nat \<times> rstr" where
  "metadata_observed_size md e =
     (case e of ResultMetadataTooLarge actual_bytes _ \<Rightarrow> (actual_bytes, ''json'')
      | _ \<Rightarrow> (stable_metadata_size_hint md, ''structural''))"

definition digest_bytes :: "externals \<Rightarrow> rstr \<Rightarrow> rstr" where
  "digest_bytes ext bytes = content_id ext bytes"

text \<open>The marker; \<open>E2 80 A6\<close> is the ellipsis.\<close>

definition projection_marker :: rstr where
  "projection_marker =
     [CHR 0x0A, CHR ''['', CHR 0xE2, CHR 0x80, CHR 0xA6]
     @ '' durable result projection omitted bytes; see astraResultProjection ''
     @ [CHR 0xE2, CHR 0x80, CHR 0xA6, CHR '']'', CHR 0x0A]"

definition bounded_projection ::
    "externals \<Rightarrow> rstr \<Rightarrow> (rstr, json) btree \<Rightarrow> rstr option \<Rightarrow> ToolInvocationResultPayload" where
  "bounded_projection ext out md ex =
     (case payload_new ext out md ex of
        Inr payload \<Rightarrow> payload
      | Inl _ \<Rightarrow>
        (let artifact_reference = bt_get md TOOL_INVOCATION_RESULT_ARTIFACT_METADATA_KEY;
             output_too_large = length out > TOOL_INVOCATION_RESULT_OUTPUT_MAX_BYTES;
             metadata_error = (case validate_result_metadata ext md of Inl e \<Rightarrow> Some e | Inr _ \<Rightarrow> None);
             exit_too_large =
               (case ex of None \<Rightarrow> False
                | Some e \<Rightarrow> length e > TOOL_INVOCATION_RESULT_CLASSIFIER_MAX_BYTES);
             projected_output =
               (if output_too_large
                then truncate_utf8_head_tail out TOOL_INVOCATION_RESULT_PROJECTED_OUTPUT_BYTES projection_marker
                else out);
             projection =
               bt_insert ''artifactRequired'' (JBool (artifact_reference = None))
                 (bt_insert ''contractVersion''
                    (JString TOOL_INVOCATION_RESULT_PROJECTION_CONTRACT_VERSION) []);
             projection =
               (if output_too_large
                then bt_insert ''output''
                  (projection_evidence (length out) (digest_bytes ext out) ''too_large'' ''utf8'') projection
                else projection);
             projection =
               (case metadata_error of None \<Rightarrow> projection
                | Some e \<Rightarrow>
                    (let (observed_bytes, size_kind) = metadata_observed_size md e in
                     bt_insert ''metadata''
                       (projection_evidence observed_bytes (stable_metadata_digest ext md)
                          (result_metadata_error_code e) size_kind) projection));
             projection =
               (if exit_too_large
                then (let e = (case ex of None \<Rightarrow> [] | Some e \<Rightarrow> e) in
                  bt_insert ''exitSemantics''
                    (projection_evidence (length e) (digest_bytes ext e) ''too_large'' ''utf8'') projection)
                else projection);
             projected_metadata = (if metadata_error \<noteq> None then [] else md);
             projected_metadata =
               (case artifact_reference of None \<Rightarrow> projected_metadata
                | Some reference \<Rightarrow>
                    bt_insert TOOL_INVOCATION_RESULT_ARTIFACT_METADATA_KEY reference projected_metadata);
             projected_metadata = bt_insert ''astraResultProjection'' (JObject projection) projected_metadata;
             projected_exit = (if exit_too_large then None else ex);
             candidate = \<lparr>payload_output = projected_output, metadata = projected_metadata,
                          exit_semantics = projected_exit\<rparr>
         in if is_ok (payload_validate ext candidate) then candidate
            else
              let projection =
                    (case bt_get projection ''metadata'' of
                       Some _ \<Rightarrow> projection
                     | None \<Rightarrow>
                         bt_insert ''metadata''
                           (projection_evidence (stable_metadata_size_hint (metadata candidate))
                              (stable_metadata_digest ext (metadata candidate))
                              ''projection_budget'' ''structural'') projection);
                  fallback_metadata = bt_insert ''astraResultProjection'' (JObject projection) [];
                  fallback_metadata =
                    (case artifact_reference of None \<Rightarrow> fallback_metadata
                     | Some reference \<Rightarrow>
                         bt_insert TOOL_INVOCATION_RESULT_ARTIFACT_METADATA_KEY reference fallback_metadata)
              in \<lparr>payload_output = projected_output, metadata = fallback_metadata,
                   exit_semantics = projected_exit\<rparr>))"

section \<open>Outcomes and completion sources\<close>

datatype ToolInvocationTerminalOutcome =
    OutcomeSucceeded (result: ToolInvocationResultPayload)
  | OutcomeFailed (result: ToolInvocationResultPayload) (error_kind: "rstr option") (retryable: bool)
  | OutcomeRejected (result: ToolInvocationResultPayload) (rejection_code: "rstr option") (retryable: bool)

datatype ToolInvocationCompletionSource =
    SemanticReadCache (cache_contract_version: rstr) (cache_key_id: rstr) (observation_id: rstr)
  | RunClosure (closure_contract_version: rstr) (run_status: rstr)
  | SupersededByGuidance (guidance_contract_version: rstr) (user_intent_event_index: int)

definition validate_sha256_content_id :: "rstr \<Rightarrow> rstr \<Rightarrow> unit checked" where
  "validate_sha256_content_id field value =
     (if (case strip_prefix ''sha256:'' value of None \<Rightarrow> False
          | Some digest \<Rightarrow> length digest = 64 \<and>
              list_all (\<lambda>b. is_ascii_digit b \<or> (97 \<le> (of_char b :: nat) \<and> (of_char b :: nat) \<le> 102)) digest)
      then Inr () else Inl (InvalidCompletionContentId field))"

fun source_validate :: "ToolInvocationCompletionSource \<Rightarrow> unit checked" where
  "source_validate (SemanticReadCache version key observation) =
     (if version \<noteq> TOOL_INVOCATION_CACHE_COMPLETION_CONTRACT_VERSION
      then Inl (UnsupportedCacheCompletionContractVersion version)
      else try_bind (validate_sha256_content_id ''cache_key_id'' key) (\<lambda>_.
        validate_sha256_content_id ''observation_id'' observation))"
| "source_validate (RunClosure version status) =
     (if version \<noteq> TOOL_INVOCATION_RUN_CLOSURE_CONTRACT_VERSION
      then Inl (UnsupportedRunClosureContractVersion version)
      else if status \<notin> set [''completed'', ''delegated'', ''failed'', ''cancelled'']
      then Inl (InvalidRunClosureStatus status)
      else Inr ())"
| "source_validate (SupersededByGuidance version index) =
     (if version \<noteq> TOOL_INVOCATION_GUIDANCE_COMPLETION_CONTRACT_VERSION
      then Inl (UnsupportedGuidanceCompletionContractVersion version)
      else if index < 0 then Inl (InvalidGuidanceCompletionEventIndex index)
      else Inr ())"

definition semantic_read_cache :: "rstr \<Rightarrow> rstr \<Rightarrow> ToolInvocationCompletionSource checked" where
  "semantic_read_cache key observation =
     (let source = SemanticReadCache TOOL_INVOCATION_CACHE_COMPLETION_CONTRACT_VERSION key observation in
      try_bind (source_validate source) (\<lambda>_. Inr source))"

definition run_closure :: "rstr \<Rightarrow> ToolInvocationCompletionSource checked" where
  "run_closure status =
     (let source = RunClosure TOOL_INVOCATION_RUN_CLOSURE_CONTRACT_VERSION status in
      try_bind (source_validate source) (\<lambda>_. Inr source))"

definition superseded_by_guidance :: "int \<Rightarrow> ToolInvocationCompletionSource checked" where
  "superseded_by_guidance index =
     (let source = SupersededByGuidance TOOL_INVOCATION_GUIDANCE_COMPLETION_CONTRACT_VERSION index in
      try_bind (source_validate source) (\<lambda>_. Inr source))"

definition source_deserialize ::
    "ToolInvocationCompletionSource \<Rightarrow> ToolInvocationCompletionSource checked" where
  "source_deserialize source = try_bind (source_validate source) (\<lambda>_. Inr source)"

fun outcome_state :: "ToolInvocationTerminalOutcome \<Rightarrow> ToolInvocationState" where
  "outcome_state (OutcomeSucceeded _) = Succeeded"
| "outcome_state (OutcomeFailed _ _ _) = Failed"
| "outcome_state (OutcomeRejected _ _ _) = Rejected"

definition outcome_validate :: "externals \<Rightarrow> ToolInvocationTerminalOutcome \<Rightarrow> unit checked" where
  "outcome_validate ext out =
     try_bind (payload_validate ext (result out)) (\<lambda>_.
     case out of
       OutcomeSucceeded _ \<Rightarrow> Inr ()
     | OutcomeFailed _ kind _ \<Rightarrow> validate_optional_classifier ''error_kind'' kind
     | OutcomeRejected _ code _ \<Rightarrow> validate_optional_classifier ''rejection_code'' code)"

definition outcome_deserialize ::
    "externals \<Rightarrow> ToolInvocationTerminalOutcome \<Rightarrow> ToolInvocationTerminalOutcome checked" where
  "outcome_deserialize ext out = try_bind (outcome_validate ext out) (\<lambda>_. Inr out)"

section \<open>The ledger record\<close>

record ToolInvocationRecord =
  identity :: ToolInvocationIdentity
  fingerprint :: ToolInvocationFingerprint
  decision :: ToolInvocationDecision
  state :: ToolInvocationState
  dispatch_certainty :: DispatchCertainty
  attempt_count :: u32
  dispatch_lease :: "ToolInvocationDispatchLease option"
  outcome :: "ToolInvocationTerminalOutcome option"
  completion_source :: "ToolInvocationCompletionSource option"

definition required_certainty :: "ToolInvocationRecord \<Rightarrow> DispatchCertainty" where
  "required_certainty r =
     (if completion_source r \<noteq> None then NotDispatched else required_dispatch_certainty (state r))"

definition check_lease :: "ToolInvocationRecord \<Rightarrow> unit checked" where
  "check_lease r =
     (case (dispatch_lease r, state r) of
        (None, Dispatched) \<Rightarrow> Inl MissingDispatchLease
      | (Some _, Prepared) \<Rightarrow> Inl UnexpectedDispatchLease
      | _ \<Rightarrow> Inr ())"

definition check_non_dispatch_completion :: "ToolInvocationRecord \<Rightarrow> unit checked" where
  "check_non_dispatch_completion r =
     (case completion_source r of
        None \<Rightarrow> Inr ()
      | Some source \<Rightarrow>
          try_bind
            (case source of
               SemanticReadCache _ _ _ \<Rightarrow>
                 (if state r \<noteq> Succeeded then Inl (InvalidCacheCompletionState (state r)) else Inr ())
             | RunClosure _ _ \<Rightarrow>
                 (if state r \<noteq> Rejected then Inl (InvalidRunClosureCompletionState (state r)) else Inr ())
             | SupersededByGuidance _ _ \<Rightarrow>
                 (if state r \<noteq> Rejected then Inl (InvalidGuidanceCompletionState (state r)) else Inr ()))
            (\<lambda>_. if attempt_count r \<noteq> 0 then Inl (InvalidNonDispatchAttemptCount (attempt_count r))
                  else if dispatch_lease r \<noteq> None then Inl NonDispatchCompletionHasDispatchLease
                  else Inr ()))"

definition check_outcome :: "externals \<Rightarrow> ToolInvocationRecord \<Rightarrow> unit checked" where
  "check_outcome ext r =
     try_bind (case outcome r of None \<Rightarrow> Inr () | Some out \<Rightarrow> outcome_validate ext out) (\<lambda>_.
     case outcome r of
       Some out \<Rightarrow>
         (if outcome_state out = state r then Inr ()
          else Inl (OutcomeStateMismatch (state r) (outcome_state out)))
     | None \<Rightarrow>
         (if state r \<in> {Succeeded, Failed, Rejected} then Inl (MissingTerminalOutcome (state r))
          else Inr ()))"

definition record_validate :: "externals \<Rightarrow> ToolInvocationRecord \<Rightarrow> unit checked" where
  "record_validate ext r =
     try_bind (decision_validate ext (decision r)) (\<lambda>_.
     if policy_decision_id (fingerprint r) \<noteq> decision_id (decision r)
     then Inl (RecordDecisionMismatch (policy_decision_id (fingerprint r)) (decision_id (decision r)))
     else
     try_bind (case completion_source r of None \<Rightarrow> Inr () | Some source \<Rightarrow> source_validate source) (\<lambda>_.
     if dispatch_certainty r \<noteq> required_certainty r
     then Inl (RecordCertaintyMismatch (state r) (required_certainty r) (dispatch_certainty r))
     else
     try_bind (check_lease r) (\<lambda>_.
     try_bind (check_non_dispatch_completion r) (\<lambda>_.
     check_outcome ext r))))"

definition record_deserialize :: "externals \<Rightarrow> ToolInvocationRecord \<Rightarrow> ToolInvocationRecord checked" where
  "record_deserialize ext r = try_bind (record_validate ext r) (\<lambda>_. Inr r)"

datatype ToolInvocationPrepareOutcome =
    PreparedNew ToolInvocationRecord
  | Existing ToolInvocationRecord

text \<open>The JSON value of an outcome, as the derived \<^verbatim>\<open>Serialize\<close> with its \<^verbatim>\<open>kind\<close> tag makes it.\<close>

definition option_field :: "rstr \<Rightarrow> rstr option \<Rightarrow> (rstr \<times> json) list" where
  "option_field name value = (case value of None \<Rightarrow> [] | Some v \<Rightarrow> [(name, JString v)])"

fun outcome_json :: "ToolInvocationTerminalOutcome \<Rightarrow> json" where
  "outcome_json (OutcomeSucceeded p) =
     JObject [(''kind'', JString ''succeeded''), (''result'', payload_json p)]"
| "outcome_json (OutcomeFailed p kind retry) =
     JObject ([(''kind'', JString ''failed''), (''result'', payload_json p)]
       @ option_field ''error_kind'' kind @ [(''retryable'', JBool retry)])"
| "outcome_json (OutcomeRejected p code retry) =
     JObject ([(''kind'', JString ''rejected''), (''result'', payload_json p)]
       @ option_field ''rejection_code'' code @ [(''retryable'', JBool retry)])"

record ToolInvocationCompletionRef =
  ref_identity :: ToolInvocationIdentity
  ref_fingerprint :: ToolInvocationFingerprint
  ref_state :: ToolInvocationState
  ref_dispatch_certainty :: DispatchCertainty
  ref_completion_source :: "ToolInvocationCompletionSource option"
  outcome_digest :: "rstr option"

definition completion_ref_from_record ::
    "externals \<Rightarrow> ToolInvocationRecord \<Rightarrow> ToolInvocationCompletionRef checked" where
  "completion_ref_from_record ext r =
     try_bind (record_validate ext r) (\<lambda>_.
     Inr \<lparr>ref_identity = identity r, ref_fingerprint = fingerprint r, ref_state = state r,
          ref_dispatch_certainty = dispatch_certainty r, ref_completion_source = completion_source r,
          outcome_digest =
            map_option (\<lambda>out. content_id ext (to_vec ext (canonical_json (outcome_json out)))) (outcome r)\<rparr>)"

section \<open>Truncation on character boundaries\<close>

lemma head_boundary_props:
  "head_boundary s i \<le> i \<and> is_char_boundary s (head_boundary s i)"
proof (induction s i rule: head_boundary.induct)
  case (1 s i)
  then show ?case
    by (cases "is_char_boundary s i") (auto simp: head_boundary.simps [of s i])
qed

lemma tail_boundary_props:
  "i \<le> length s \<Longrightarrow>
     i \<le> tail_boundary s i \<and> tail_boundary s i \<le> length s \<and> is_char_boundary s (tail_boundary s i)"
proof (induction s i rule: tail_boundary.induct)
  case (1 s i)
  show ?case
  proof (cases "i < length s \<and> \<not> is_char_boundary s i")
    case True
    with 1 have "i + 1 \<le> tail_boundary s (i + 1) \<and> tail_boundary s (i + 1) \<le> length s
        \<and> is_char_boundary s (tail_boundary s (i + 1))" by simp
    with True show ?thesis by (simp add: tail_boundary.simps [of s i])
  next
    case False
    with 1 show ?thesis
      by (auto simp: tail_boundary.simps [of s i] is_char_boundary_def)
  qed
qed

lemma truncate_utf8_cases:
  assumes "length marker \<le> max_bytes"
  shows "length (truncate_utf8_head_tail s max_bytes marker) \<le> max_bytes \<and>
    (truncate_utf8_head_tail s max_bytes marker = s \<or>
     (\<exists>h t. h \<le> t \<and> t \<le> length s \<and> is_char_boundary s h \<and> is_char_boundary s t \<and>
        truncate_utf8_head_tail s max_bytes marker = take h s @ marker @ drop t s))"
proof (cases "length s \<le> max_bytes")
  case True
  then show ?thesis by (simp add: truncate_utf8_head_tail_def)
next
  case False
  define c where "c = max_bytes - length marker"
  define h where "h = head_boundary s (min (c div 2) (length s))"
  define t where "t = tail_boundary s (length s - (c - c div 2))"
  have res: "truncate_utf8_head_tail s max_bytes marker = take h s @ marker @ drop t s"
    by (simp only: truncate_utf8_head_tail_def Let_def c_def h_def t_def False if_False)
  have h: "h \<le> c div 2" "is_char_boundary s h"
    using head_boundary_props [of s "min (c div 2) (length s)"] by (simp_all add: h_def)
  have t: "length s - (c - c div 2) \<le> t" "t \<le> length s" "is_char_boundary s t"
    using tail_boundary_props [of "length s - (c - c div 2)" s] by (simp_all add: t_def)
  have "c < length s" using False by (simp add: c_def)
  with h t have "h \<le> t" by linarith
  moreover have "length (take h s @ marker @ drop t s) \<le> max_bytes"
    using h t assms by (simp add: c_def)
  ultimately show ?thesis using res h t by auto
qed

lemmas truncate_length = truncate_utf8_cases [THEN conjunct1]

text \<open>
  C35. Truncating an oversized result keeps a prefix and a suffix of it around the marker,
  both cut on UTF-8 character boundaries and without overlap, and the result fits the
  byte limit.
\<close>

theorem truncate_utf8_head_tail_bounded:
  assumes "length marker \<le> max_bytes"
  shows "length (truncate_utf8_head_tail s max_bytes marker) \<le> max_bytes \<and>
    (truncate_utf8_head_tail s max_bytes marker = s \<or>
     (\<exists>h t. h \<le> t \<and> t \<le> length s \<and> is_char_boundary s h \<and> is_char_boundary s t \<and>
        truncate_utf8_head_tail s max_bytes marker = take h s @ marker @ drop t s))"
  using assms by (rule truncate_utf8_cases)

section \<open>Metadata limits\<close>

primrec json_height :: "json \<Rightarrow> nat" where
  "json_height JNull = 1"
| "json_height (JBool b) = 1"
| "json_height (JNumber t) = 1"
| "json_height (JString t) = 1"
| "json_height (JArray vs) = 1 + fold max (map json_height vs) 0"
| "json_height (JObject es) = 1 + fold max (map snd (map (map_prod id json_height) es)) 0"

lemma fold_max_le: "fold max xs (a :: nat) \<le> n \<longleftrightarrow> a \<le> n \<and> (\<forall>x \<in> set xs. x \<le> n)"
  by (induction xs arbitrary: a) auto

lemma json_height_pos: "1 \<le> json_height v"
  by (cases v) simp_all

lemma json_height_nested_le:
  "d + json_height (JArray vs) \<le> Suc n \<longleftrightarrow> d \<le> n \<and> (\<forall>v \<in> set vs. Suc d + json_height v \<le> Suc n)"
  "d + json_height (JObject es) \<le> Suc n \<longleftrightarrow>
     d \<le> n \<and> (\<forall>v \<in> set (bt_values es). Suc d + json_height v \<le> Suc n)"
proof -
  have "d + (1 + fold max xs 0) \<le> Suc n \<longleftrightarrow> d \<le> n \<and> (\<forall>x \<in> set xs. Suc d + x \<le> Suc n)" for xs
    using fold_max_le [of xs 0 "n - d"] by auto
  then show "d + json_height (JArray vs) \<le> Suc n \<longleftrightarrow> d \<le> n \<and> (\<forall>v \<in> set vs. Suc d + json_height v \<le> Suc n)"
    "d + json_height (JObject es) \<le> Suc n \<longleftrightarrow>
     d \<le> n \<and> (\<forall>v \<in> set (bt_values es). Suc d + json_height v \<le> Suc n)"
    by (simp_all add: bt_values_def comp_def)
qed

declare json_height.simps(5,6) [simp del]

lemma usize_sat_add_le_small: "n < usize_max \<Longrightarrow> usize_sat_add a b \<le> n \<longleftrightarrow> a + b \<le> n"
  by (auto simp: usize_sat_add_def)

lemma usize_sat_add_small: "a + b < usize_max \<Longrightarrow> usize_sat_add a b = a + b"
  by (simp add: usize_sat_add_def)

lemma metadata_limits_small:
  "TOOL_INVOCATION_RESULT_METADATA_MAX_NODES < usize_max"
  "d \<le> TOOL_INVOCATION_RESULT_METADATA_MAX_DEPTH \<Longrightarrow> usize_sat_add d 1 = Suc d"
  by (simp_all add: limit_defs usize_sat_add_def usize_max_def)

abbreviation fits_depth :: "json \<times> nat \<Rightarrow> bool" where
  "fits_depth p \<equiv> snd p + json_height (fst p) \<le> Suc TOOL_INVOCATION_RESULT_METADATA_MAX_DEPTH"

lemma metadata_loop_accepts_iff:
  "metadata_loop nodes pending = Inr () \<longleftrightarrow>
     (\<forall>p \<in> set pending. fits_depth p) \<and>
     (pending = [] \<or> nodes + sum_list (map (\<lambda>p. jweight (fst p)) pending)
        \<le> TOOL_INVOCATION_RESULT_METADATA_MAX_NODES)"
proof (induction nodes pending rule: metadata_loop.induct)
  case (1 nodes)
  then show ?case by simp
next
  case (2 nodes v depth pending)
  let ?D = TOOL_INVOCATION_RESULT_METADATA_MAX_DEPTH
  let ?N = TOOL_INVOCATION_RESULT_METADATA_MAX_NODES
  let ?W = "\<lambda>ps. sum_list (map (\<lambda>p. jweight (fst p)) ps)"
  show ?case
  proof (cases "depth \<le> ?D \<and> usize_sat_add nodes 1 \<le> ?N")
    case False
    then have "\<not> depth \<le> ?D \<or> \<not> Suc nodes \<le> ?N"
      using usize_sat_add_le_small [OF metadata_limits_small(1), of nodes 1] by simp
    moreover have "1 \<le> json_height v" "1 \<le> jweight v"
      by (rule json_height_pos) (cases v; simp)
    moreover have "metadata_loop nodes ((v, depth) # pending) \<noteq> Inr ()"
      using False by (auto simp: Let_def)
    ultimately show ?thesis by auto
  next
    case True
    then have n: "usize_sat_add nodes 1 = Suc nodes" "Suc nodes \<le> ?N"
      using usize_sat_add_le_small [OF metadata_limits_small(1), of nodes 1] metadata_limits_small(1)
        usize_sat_add_small [of nodes 1] by auto
    have d: "usize_sat_add depth 1 = Suc depth" "depth \<le> ?D"
      using True metadata_limits_small(2) by auto
    note IH = 2 [unfolded n d]
    show ?thesis
    proof (cases v)
      case (JArray vs)
      show ?thesis
        using IH(5) n d JArray True
        by (auto simp: Let_def comp_def json_height_nested_le ball_Un)
    next
      case (JObject es)
      have "usize_sat_add (Suc nodes) (length es) \<le> ?N \<longleftrightarrow> Suc nodes + length es \<le> ?N"
        by (rule usize_sat_add_le_small [OF metadata_limits_small(1)])
      then show ?thesis
        using IH(6) n d JObject True usize_sat_add_small [of "Suc nodes" "length es"] metadata_limits_small(1)
        by (auto simp: Let_def comp_def json_height_nested_le bt_values_def ball_Un)
    qed (use IH n d True in \<open>auto simp: Let_def\<close>)
  qed
qed

lemma metadata_valid_iff:
  "validate_result_metadata ext md = Inr () \<longleftrightarrow>
     (\<forall>v \<in> set (bt_values md). json_height v \<le> 16) \<and>
     length md + sum_list (map jweight (bt_values md)) \<le> 4096 \<and>
     length (to_vec ext (JObject md)) \<le> 65536"
proof -
  have "metadata_loop (length md) (rev (map (\<lambda>v. (v, 1)) (bt_values md))) = Inr () \<longleftrightarrow>
     (\<forall>v \<in> set (bt_values md). json_height v \<le> 16) \<and>
     (md = [] \<or> length md + sum_list (map jweight (bt_values md)) \<le> 4096)"
    unfolding metadata_loop_accepts_iff by (simp add: limit_defs comp_def bt_values_def)
  moreover have "md = [] \<longrightarrow> length md + sum_list (map jweight (bt_values md)) \<le> 4096"
    by (simp add: bt_values_def)
  ultimately show ?thesis
    unfolding validate_result_metadata_def
    by (auto simp: Let_def limit_defs)
qed

text \<open>
  The metadata check, a loop over an explicit stack with two running counters, accepts
  exactly the metadata whose values nest at most 16 deep, whose nodes and keys number at
  most 4096 and whose JSON text has at most 64 KiB.
\<close>

theorem validate_result_metadata_iff:
  "validate_result_metadata ext md = Inr () \<longleftrightarrow>
     (\<forall>v \<in> set (bt_values md). json_height v \<le> 16) \<and>
     length md + sum_list (map jweight (bt_values md)) \<le> 4096 \<and>
     length (to_vec ext (JObject md)) \<le> 65536"
  by (rule metadata_valid_iff)

section \<open>The metadata digest\<close>

lemma stable_metadata_stream_eq:
  assumes "bt_wf md"
  shows "stable_metadata_stream md =
    ''astra-tool-result-metadata-v1'' @ [CHR 0x00] @ tl (json_stream (JObject md))"
proof -
  have "fold (\<lambda>(k, v) d. update_json_value_digest (update_tagged_bytes d (CHR ''K'') k) v) es d =
      d @ concat (map (\<lambda>e. tagged_stream (CHR ''K'') (fst e) @ json_stream (snd e)) es)"
    for es :: "(rstr \<times> json) list" and d
    by (induction es arbitrary: d) (auto simp: update_json_value_digest_eq)
  with assms show ?thesis
    by (simp add: stable_metadata_stream_def sort_key_bt_wf)
qed

text \<open>
  C34. The byte stream hashed for a metadata map determines the map: the tags and length
  prefixes make it injective, so equal digests mean equal metadata up to a collision of
  the hash function itself.
\<close>

theorem stable_metadata_stream_injective:
  assumes "json_wf (JObject md)" and "json_small (JObject md)"
    and "json_wf (JObject md')" and "json_small (JObject md')"
  shows "stable_metadata_stream md = stable_metadata_stream md' \<longleftrightarrow> md = md'"
proof
  assume eq: "stable_metadata_stream md = stable_metadata_stream md'"
  have "json_stream (JObject m) = CHR ''O'' # tl (json_stream (JObject m))" for m
    by simp
  moreover have "tl (json_stream (JObject md)) = tl (json_stream (JObject md'))"
    using eq assms(1,3) unfolding json_wf_JObject by (simp only: stable_metadata_stream_eq same_append_eq)
  ultimately have "json_stream (JObject md) @ [] = json_stream (JObject md') @ []"
    by metis
  with assms(1-4) have "JObject md = JObject md'"
    using json_stream_prefix_free by blast
  then show "md = md'" by simp
qed simp

section \<open>Canonical arguments\<close>

lemma bt_get_fold_remove:
  "bt_get (fold bt_remove ks m) k = (if k \<in> set ks then None else bt_get m k)"
  by (induction ks arbitrary: m) (auto simp: bt_get_remove)

lemma bt_wf_fold_remove: "bt_wf m \<Longrightarrow> bt_wf (fold bt_remove ks m)"
  by (induction ks arbitrary: m) (auto simp: bt_wf_remove)

lemma bt_wf_map_values: "bt_wf (map (map_prod id f) m) \<longleftrightarrow> bt_wf m"
  by (simp add: bt_wf_def bt_keys_def comp_def)

text \<open>
  Redelivering a call with other transport fields does not change its fingerprint: two
  argument objects that agree outside \<^verbatim>\<open>_run_id\<close>, \<^verbatim>\<open>_tool_call_id\<close> and \<^verbatim>\<open>_turn_chain_id\<close> have
  the same canonical arguments hash, and every other argument, underscore-prefixed or
  not, is kept in the canonical form.
\<close>

theorem canonical_public_arguments_ignore_transport:
  assumes "bt_wf es" and "bt_wf es'"
    and agree: "\<And>k. k \<notin> set INTERNAL_TRANSPORT_ARGUMENTS \<Longrightarrow> bt_get es k = bt_get es' k"
  shows "canonical_public_arguments_hash ext (JObject es) = canonical_public_arguments_hash ext (JObject es') \<and>
    (\<exists>cs. canonical_public_tool_arguments (JObject es) = JObject cs \<and> bt_wf cs \<and>
       (\<forall>k. bt_get cs k = (if k \<in> set INTERNAL_TRANSPORT_ARGUMENTS then None
                            else map_option canonical_json (bt_get es k))))"
proof -
  let ?strip = "fold bt_remove INTERNAL_TRANSPORT_ARGUMENTS :: (rstr, json) btree \<Rightarrow> (rstr, json) btree"
  let ?cs = "bt_of_list (map (map_prod id canonical_json) (?strip es))"
  have "?strip es = ?strip es'"
    by (rule bt_ext) (use assms in \<open>auto simp: bt_wf_fold_remove bt_get_fold_remove\<close>)
  then have "canonical_public_arguments_hash ext (JObject es) = canonical_public_arguments_hash ext (JObject es')"
    by (simp add: canonical_public_arguments_hash_def canonical_public_tool_arguments_def)
  moreover have "bt_get ?cs k = (if k \<in> set INTERNAL_TRANSPORT_ARGUMENTS then None
      else map_option canonical_json (bt_get es k))" for k
  proof -
    have "bt_wf (map (map_prod id canonical_json) (?strip es))"
      using bt_wf_fold_remove [OF assms(1)] by (simp add: bt_wf_map_values)
    then have "bt_get ?cs k = map_of (map (map_prod id canonical_json) (?strip es)) k"
      by (simp add: bt_of_list_id bt_get_def)
    also have "\<dots> = map_option canonical_json (bt_get (?strip es) k)"
      by (simp add: bt_get_def map_prod_def map_of_map split_beta)
    finally show ?thesis by (simp add: bt_get_fold_remove)
  qed
  ultimately show ?thesis
    by (auto simp: canonical_public_tool_arguments_def bt_wf_of_list)
qed

section \<open>Validated records\<close>

lemma payload_validate_output:
  "payload_validate ext p = Inr () \<Longrightarrow> length (payload_output p) \<le> TOOL_INVOCATION_RESULT_OUTPUT_MAX_BYTES"
  by (auto simp: payload_validate_def validate_bounded_string_def split: if_splits)

lemma payload_validate_exit:
  "payload_validate ext p = Inr () \<Longrightarrow> exit_semantics p = Some e \<Longrightarrow>
     length e \<le> TOOL_INVOCATION_RESULT_CLASSIFIER_MAX_BYTES"
  by (auto simp: payload_validate_def validate_bounded_string_def split: if_splits option.splits)

lemma payload_validate_metadata:
  "payload_validate ext p = Inr () \<Longrightarrow> validate_result_metadata ext (metadata p) = Inr ()"
  by (auto simp: payload_validate_def)

lemma payload_validate_encoded:
  "payload_validate ext p = Inr () \<Longrightarrow>
     length (to_vec ext (payload_json p)) \<le> TOOL_INVOCATION_RESULT_MAX_BYTES"
  by (auto simp: payload_validate_def Let_def split: if_splits)

lemma payload_new_eq_Inr:
  "payload_new ext out md ex = Inr p \<longleftrightarrow>
     p = \<lparr>payload_output = out, metadata = md, exit_semantics = ex\<rparr> \<and> payload_validate ext p = Inr ()"
  by (auto simp: payload_new_def Let_def)

fun source_fits :: "ToolInvocationState \<Rightarrow> ToolInvocationCompletionSource \<Rightarrow> bool" where
  "source_fits st (SemanticReadCache _ _ _) = (st = Succeeded)"
| "source_fits st (RunClosure _ _) = (st = Rejected)"
| "source_fits st (SupersededByGuidance _ _) = (st = Rejected)"

text \<open>The five shapes of a consistent record.\<close>

datatype record_shape = Undispatched | InFlight | Lost | Settled | Substituted

fun has_shape :: "externals \<Rightarrow> ToolInvocationRecord \<Rightarrow> record_shape \<Rightarrow> bool" where
  "has_shape ext r Undispatched \<longleftrightarrow>
     state r = Prepared \<and> dispatch_certainty r = NotDispatched \<and> dispatch_lease r = None \<and>
     outcome r = None \<and> completion_source r = None"
| "has_shape ext r InFlight \<longleftrightarrow>
     state r = Dispatched \<and> dispatch_certainty r = CertainlyDispatched \<and> dispatch_lease r \<noteq> None \<and>
     outcome r = None \<and> completion_source r = None"
| "has_shape ext r Lost \<longleftrightarrow>
     state r = OutcomeUnknown \<and> dispatch_certainty r = Unknown \<and>
     outcome r = None \<and> completion_source r = None"
| "has_shape ext r Settled \<longleftrightarrow>
     dispatch_certainty r = CertainlyDispatched \<and> completion_source r = None \<and>
     (\<exists>out. outcome r = Some out \<and> state r = outcome_state out \<and> outcome_validate ext out = Inr ())"
| "has_shape ext r Substituted \<longleftrightarrow>
     dispatch_certainty r = NotDispatched \<and> dispatch_lease r = None \<and> attempt_count r = 0 \<and>
     (\<exists>out. outcome r = Some out \<and> state r = outcome_state out \<and> outcome_validate ext out = Inr ()) \<and>
     (\<exists>src. completion_source r = Some src \<and> source_validate src = Inr () \<and> source_fits (state r) src)"

lemma outcome_state_settled [simp]:
  "outcome_state out \<noteq> Prepared" "Prepared \<noteq> outcome_state out"
  "outcome_state out \<noteq> Dispatched" "Dispatched \<noteq> outcome_state out"
  "outcome_state out \<noteq> OutcomeUnknown" "OutcomeUnknown \<noteq> outcome_state out"
  "required_dispatch_certainty (outcome_state out) = CertainlyDispatched"
  by (cases out; simp)+

lemma check_outcome_iff:
  "check_outcome ext r = Inr () \<longleftrightarrow>
     (case outcome r of
        None \<Rightarrow> state r \<notin> {Succeeded, Failed, Rejected}
      | Some out \<Rightarrow> state r = outcome_state out \<and> outcome_validate ext out = Inr ())"
  by (auto simp: check_outcome_def split: option.splits)

lemma check_non_dispatch_completion_iff:
  "check_non_dispatch_completion r = Inr () \<longleftrightarrow>
     (case completion_source r of
        None \<Rightarrow> True
      | Some src \<Rightarrow> source_fits (state r) src \<and> attempt_count r = 0 \<and> dispatch_lease r = None)"
  by (auto simp: check_non_dispatch_completion_def
      split: option.splits ToolInvocationCompletionSource.splits if_splits)

lemma check_lease_iff:
  "check_lease r = Inr () \<longleftrightarrow>
     (state r = Dispatched \<longrightarrow> dispatch_lease r \<noteq> None) \<and> (state r = Prepared \<longrightarrow> dispatch_lease r = None)"
  by (cases "state r"; cases "dispatch_lease r") (simp_all add: check_lease_def)

lemma record_validate_iff:
  "record_validate ext r = Inr () \<longleftrightarrow>
     decision_validate ext (decision r) = Inr () \<and>
     policy_decision_id (fingerprint r) = decision_id (decision r) \<and>
     (\<forall>src. completion_source r = Some src \<longrightarrow> source_validate src = Inr ()) \<and>
     dispatch_certainty r = required_certainty r \<and> check_lease r = Inr () \<and>
     check_non_dispatch_completion r = Inr () \<and> check_outcome ext r = Inr ()"
  by (auto simp: record_validate_def split: option.splits)

lemma decision_validate_iff:
  "decision_validate ext d = Inr () \<longleftrightarrow>
     is_object (snapshot d) \<and> decision_id d = content_id ext (to_vec ext (canonical_json (snapshot d)))"
  by (auto simp: decision_validate_def Let_def decision_content_id_def)

lemma shape_of_checks:
  "(\<exists>shape. has_shape ext r shape) \<longleftrightarrow>
     (\<forall>src. completion_source r = Some src \<longrightarrow> source_validate src = Inr ()) \<and>
     dispatch_certainty r = required_certainty r \<and> check_lease r = Inr () \<and>
     check_non_dispatch_completion r = Inr () \<and> check_outcome ext r = Inr ()" (is "?L = ?R")
proof
  assume ?L
  then obtain shape where "has_shape ext r shape" ..
  then show ?R
    by (cases shape)
      (auto simp: required_certainty_def check_lease_iff check_non_dispatch_completion_iff
        check_outcome_iff)
next
  assume R: ?R
  show ?L
  proof (cases "completion_source r")
    case None
    then show ?thesis using R
      by (cases "state r"; cases "outcome r")
        (auto simp: required_certainty_def check_lease_iff check_outcome_iff
          intro: exI [of _ Undispatched] exI [of _ InFlight] exI [of _ Lost] exI [of _ Settled])
  next
    case (Some src)
    then have "has_shape ext r Substituted" using R
      by (cases "outcome r"; cases src)
        (auto simp: required_certainty_def check_non_dispatch_completion_iff check_outcome_iff)
    then show ?thesis ..
  qed
qed

text \<open>
  C32. A ledger record passes validation exactly when its decision is a JSON object filed
  under the digest of its canonical form, its fingerprint names that decision, and the
  record has one of five shapes: undispatched, in flight under a lease, of unknown
  outcome, settled by a dispatch, or settled without any dispatch by a named source.
\<close>

theorem record_validate_shapes:
  "record_validate ext r = Inr () \<longleftrightarrow>
     is_object (snapshot (decision r)) \<and>
     decision_id (decision r) = content_id ext (to_vec ext (canonical_json (snapshot (decision r)))) \<and>
     policy_decision_id (fingerprint r) = decision_id (decision r) \<and>
     (\<exists>shape. has_shape ext r shape)"
  unfolding record_validate_iff decision_validate_iff shape_of_checks by auto

section \<open>What the bounded projection keeps\<close>

lemma projected_output_bounded:
  "length (if length out > TOOL_INVOCATION_RESULT_OUTPUT_MAX_BYTES
           then truncate_utf8_head_tail out TOOL_INVOCATION_RESULT_PROJECTED_OUTPUT_BYTES projection_marker
           else out) \<le> TOOL_INVOCATION_RESULT_OUTPUT_MAX_BYTES"
proof -
  have "length (truncate_utf8_head_tail out TOOL_INVOCATION_RESULT_PROJECTED_OUTPUT_BYTES projection_marker)
      \<le> TOOL_INVOCATION_RESULT_PROJECTED_OUTPUT_BYTES"
    by (rule truncate_length) (simp add: projection_marker_def limit_defs)
  then show ?thesis by (simp add: limit_defs)
qed

lemma bounded_projection_projected:
  assumes "\<not> is_ok (payload_validate ext \<lparr>payload_output = out, metadata = md, exit_semantics = ex\<rparr>)"
  shows "payload_output (bounded_projection ext out md ex) =
      (if length out > TOOL_INVOCATION_RESULT_OUTPUT_MAX_BYTES
       then truncate_utf8_head_tail out TOOL_INVOCATION_RESULT_PROJECTED_OUTPUT_BYTES projection_marker
       else out)"
    and "exit_semantics (bounded_projection ext out md ex) =
      (case ex of None \<Rightarrow> None
       | Some e \<Rightarrow> if length e > TOOL_INVOCATION_RESULT_CLASSIFIER_MAX_BYTES then None else Some e)"
    and "bt_get (metadata (bounded_projection ext out md ex)) ''astraResultArtifact'' =
      bt_get md ''astraResultArtifact''"
    and "bt_get (metadata (bounded_projection ext out md ex)) ''astraResultProjection'' \<noteq> None"
proof -
  have new: "payload_new ext out md ex = Inl e \<or> (\<exists>p. payload_new ext out md ex = Inr p \<and> False)" 
    if "payload_validate ext \<lparr>payload_output = out, metadata = md, exit_semantics = ex\<rparr> = Inl e" for e
    using that by (simp add: payload_new_def)
  with assms obtain e where e: "payload_new ext out md ex = Inl e"
    by (cases "payload_validate ext \<lparr>payload_output = out, metadata = md, exit_semantics = ex\<rparr>") auto
  note unf = bounded_projection_def Let_def e TOOL_INVOCATION_RESULT_ARTIFACT_METADATA_KEY_def
  show "payload_output (bounded_projection ext out md ex) =
      (if length out > TOOL_INVOCATION_RESULT_OUTPUT_MAX_BYTES
       then truncate_utf8_head_tail out TOOL_INVOCATION_RESULT_PROJECTED_OUTPUT_BYTES projection_marker
       else out)"
    by (simp add: unf)
  show "exit_semantics (bounded_projection ext out md ex) =
      (case ex of None \<Rightarrow> None
       | Some e \<Rightarrow> if length e > TOOL_INVOCATION_RESULT_CLASSIFIER_MAX_BYTES then None else Some e)"
    by (simp add: unf split: option.splits)
  show "bt_get (metadata (bounded_projection ext out md ex)) ''astraResultArtifact'' =
      bt_get md ''astraResultArtifact''"
    by (cases "bt_get md ''astraResultArtifact''"; cases "validate_result_metadata ext md")
      (simp_all add: unf bt_get_insert bt_get_Nil del: bt_insert.simps)
  show "bt_get (metadata (bounded_projection ext out md ex)) ''astraResultProjection'' \<noteq> None"
    by (cases "bt_get md ''astraResultArtifact''") (simp_all add: unf bt_get_insert del: bt_insert.simps)
qed

text \<open>
  Projecting a tool result into the durable payload keeps a payload that already fits as
  it is. In every case the output and the exit classifier of the projection are within
  their limits and the reference to the full result artifact, if there is one, is kept,
  and a projection that changed anything says so under \<^verbatim>\<open>astraResultProjection\<close>.
\<close>

theorem bounded_projection_keeps:
  "let p = bounded_projection ext out md ex;
       whole = \<lparr>payload_output = out, metadata = md, exit_semantics = ex\<rparr> in
   (is_ok (payload_validate ext whole) \<longrightarrow> p = whole) \<and>
   length (payload_output p) \<le> TOOL_INVOCATION_RESULT_OUTPUT_MAX_BYTES \<and>
   (\<forall>e. exit_semantics p = Some e \<longrightarrow> length e \<le> TOOL_INVOCATION_RESULT_CLASSIFIER_MAX_BYTES) \<and>
   bt_get (metadata p) ''astraResultArtifact'' = bt_get md ''astraResultArtifact'' \<and>
   (p \<noteq> whole \<longrightarrow> bt_get (metadata p) ''astraResultProjection'' \<noteq> None)"
proof (cases "is_ok (payload_validate ext \<lparr>payload_output = out, metadata = md, exit_semantics = ex\<rparr>)")
  case True
  let ?w = "\<lparr>payload_output = out, metadata = md, exit_semantics = ex\<rparr>"
  have v: "payload_validate ext ?w = Inr ()" using True by (simp add: is_ok_iff)
  then have "payload_new ext out md ex = Inr ?w" by (simp add: payload_new_eq_Inr)
  then have "bounded_projection ext out md ex = ?w" by (simp add: bounded_projection_def)
  then show ?thesis
    using payload_validate_output [OF v] payload_validate_exit [OF v] by (simp add: Let_def)
next
  case False
  note pr = bounded_projection_projected [OF False]
  show ?thesis
    unfolding Let_def pr
    using projected_output_bounded [of out] False pr(4)
    by (auto split: option.splits if_splits)
qed

text \<open>
  The fallback of the projection is not always a valid payload, although the code
  asserts it in debug builds: a metadata map whose artifact reference nests more than 16
  deep is projected to a payload that keeps the reference and fails validation.
\<close>

theorem bounded_projection_deep_reference_invalid:
  assumes "bt_get md ''astraResultArtifact'' = Some reference" and "16 < json_height reference"
  shows "\<not> is_ok (payload_validate ext (bounded_projection ext out md ex))"
proof
  have deep: False
    if "is_ok (payload_validate ext p)" and "bt_get (metadata p) ''astraResultArtifact'' = Some reference" for p
  proof -
    have "validate_result_metadata ext (metadata p) = Inr ()"
      using that(1) payload_validate_metadata by (auto simp: is_ok_iff)
    moreover have "reference \<in> set (bt_values (metadata p))"
      using bt_get_Some_in [OF that(2)] by (force simp: bt_values_def)
    ultimately show False
      using assms(2) by (auto simp: metadata_valid_iff)
  qed
  assume ok: "is_ok (payload_validate ext (bounded_projection ext out md ex))"
  show False
  proof (cases "is_ok (payload_validate ext \<lparr>payload_output = out, metadata = md, exit_semantics = ex\<rparr>)")
    case True
    with deep [OF True] assms(1) show False by simp
  next
    case False
    with deep [OF ok] assms(1) bounded_projection_projected(3) [OF False] show False by simp
  qed
qed

section \<open>A concrete instance of the external functions\<close>

text \<open>
  A JSON printer that escapes quotes and backslashes, and a constant 64-digit digest. They
  instantiate \<open>externals\<close> where a statement is evaluated on concrete values.
\<close>

definition json_quote :: "rstr \<Rightarrow> rstr" where
  "json_quote s =
     [CHR 0x22] @ concat (map (\<lambda>c. if c = CHR 0x22 \<or> c = CHR 0x5C then [CHR 0x5C, c] else [c]) s) @ [CHR 0x22]"

fun comma_join :: "rstr list \<Rightarrow> rstr" where
  "comma_join [] = []"
| "comma_join [x] = x"
| "comma_join (x # y # xs) = x @ '','' @ comma_join (y # xs)"

primrec json_text :: "json \<Rightarrow> rstr" where
  "json_text JNull = ''null''"
| "json_text (JBool b) = (if b then ''true'' else ''false'')"
| "json_text (JNumber t) = t"
| "json_text (JString t) = json_quote t"
| "json_text (JArray vs) = ''['' @ comma_join (map json_text vs) @ '']''"
| "json_text (JObject es) =
     ''{'' @ comma_join (map (\<lambda>(k, t). json_quote k @ '':'' @ t) (map (map_prod id json_text) es)) @ ''}''"

definition sample_externals :: externals where
  "sample_externals = \<lparr>to_vec = json_text, sha256_hex = (\<lambda>_. replicate 64 (CHR ''0''))\<rparr>"

lemma length_comma_join_Cons: "length x \<le> length (comma_join (x # xs))"
  by (cases xs) simp_all

lemma length_json_quote:
  "length s + count_list s (CHR 0x22) \<le> length (json_quote s)"
  by (induction s) (auto simp: json_quote_def)

lemma count_replicate: "count_list (replicate n c) c = n"
  by (induction n) simp_all

lemma sample_externals_escape:
  "length (payload_output p) + count_list (payload_output p) (CHR 0x22)
     \<le> length (to_vec sample_externals (payload_json p))"
proof -
  obtain rest where "payload_json p = JObject ((''output'', JString (payload_output p)) # rest)"
    by (simp add: payload_json_def)
  then show ?thesis
    using length_json_quote [of "payload_output p"]
      length_comma_join_Cons [of "json_quote ''output'' @ '':'' @ json_quote (payload_output p)"
        "map (\<lambda>(k, t). json_quote k @ '':'' @ t) (map (map_prod id json_text) rest)"]
    by (simp add: sample_externals_def)
qed

text \<open>
  Nor is the fallback valid when escaping makes the text grow: an output of more than
  128 Ki quote characters within the 192 KiB output limit is left whole, and any printer
  that escapes each quote with one more byte makes the payload exceed its 256 KiB.
\<close>

theorem bounded_projection_escaped_output_invalid:
  assumes escapes: "\<And>p. length (payload_output p) + count_list (payload_output p) (CHR 0x22)
      \<le> length (to_vec ext (payload_json p))"
    and "131072 < n" and "n \<le> 196608"
  shows "\<not> is_ok (payload_validate ext (bounded_projection ext (replicate n (CHR 0x22)) md ex))"
proof
  let ?p = "bounded_projection ext (replicate n (CHR 0x22)) md ex"
  have "payload_output ?p = replicate n (CHR 0x22)"
  proof (cases "payload_new ext (replicate n (CHR 0x22)) md ex")
    case (Inl e)
    then have "\<not> is_ok (payload_validate ext
        \<lparr>payload_output = replicate n (CHR 0x22), metadata = md, exit_semantics = ex\<rparr>)"
      by (auto simp: payload_new_def is_ok_iff)
    from bounded_projection_projected(1) [OF this] assms(3) show ?thesis
      by (simp add: limit_defs)
  next
    case (Inr p)
    then show ?thesis by (simp add: bounded_projection_def) (simp add: payload_new_eq_Inr)
  qed
  then have "n + n \<le> length (to_vec ext (payload_json ?p))"
    using escapes [of ?p] by (simp add: count_replicate)
  moreover assume "is_ok (payload_validate ext ?p)"
  then have "length (to_vec ext (payload_json ?p)) \<le> 262144"
    using payload_validate_encoded by (auto simp: is_ok_iff limit_defs)
  ultimately show False using assms(2) by simp
qed

section \<open>Concrete applications\<close>

theorem truncate_utf8_head_tail_bounded_witness:
  "length (truncate_utf8_head_tail ''abcdefghij'' 6 ''..'') \<le> 6 \<and>
   truncate_utf8_head_tail ''abcdefghij'' 6 ''..'' = ''ab..ij''"
proof
  show "length (truncate_utf8_head_tail ''abcdefghij'' 6 ''..'') \<le> 6"
    using truncate_utf8_head_tail_bounded [of "''..''" 6 "''abcdefghij''"] by simp
  show "truncate_utf8_head_tail ''abcdefghij'' 6 ''..'' = ''ab..ij''"
    by code_simp
qed

theorem validate_result_metadata_iff_witness:
  "validate_result_metadata sample_externals [(''a'', JArray [JNull, JBool True])] = Inr ()"
  unfolding validate_result_metadata_iff
  by (simp add: bt_values_def json_height.simps sample_externals_def json_quote_def)

theorem stable_metadata_stream_injective_witness:
  "stable_metadata_stream [(''a'', JNull)] \<noteq> stable_metadata_stream [(''a'', JString ''null'')]"
  by (simp add: stable_metadata_stream_injective bt_wf_def)

theorem canonical_public_arguments_ignore_transport_witness:
  "canonical_public_arguments_hash sample_externals (JObject [(''_run_id'', JString ''1''), (''q'', JNull)]) =
   canonical_public_arguments_hash sample_externals (JObject [(''_run_id'', JString ''2''), (''q'', JNull)])"
  by (rule canonical_public_arguments_ignore_transport [THEN conjunct1])
    (auto simp: bt_wf_def bt_get_def INTERNAL_TRANSPORT_ARGUMENTS_def less_char_def)

theorem bounded_projection_keeps_witness:
  "bounded_projection sample_externals ''ok'' [] None =
     \<lparr>payload_output = ''ok'', metadata = [], exit_semantics = None\<rparr>"
proof -
  have "is_ok (payload_validate sample_externals \<lparr>payload_output = ''ok'', metadata = [], exit_semantics = None\<rparr>)"
    by (simp add: payload_validate_def validate_bounded_string_def validate_result_metadata_def bt_values_def
        sample_externals_def payload_json_def json_quote_def limit_defs)
  then show ?thesis
    using bounded_projection_keeps [of sample_externals "''ok''" "[]" None] by (simp add: Let_def)
qed

theorem bounded_projection_deep_reference_invalid_witness:
  "\<not> is_ok (payload_validate sample_externals
      (bounded_projection sample_externals ''ok''
         [(''astraResultArtifact'', ((\<lambda>v. JArray [v]) ^^ 16) JNull)] None))"
  by (rule bounded_projection_deep_reference_invalid [of _ "((\<lambda>v. JArray [v]) ^^ 16) JNull"])
    (simp_all add: bt_get_def json_height.simps eval_nat_numeral)

theorem bounded_projection_escaped_output_invalid_witness:
  "\<not> is_ok (payload_validate sample_externals
      (bounded_projection sample_externals (replicate 150000 (CHR 0x22)) [] None))"
  by (rule bounded_projection_escaped_output_invalid [OF sample_externals_escape]) simp_all

end
