(* ===== verification/Invocation_Ledger.thy ===== *)
theory Invocation_Ledger
  imports Tool_Invocation
begin

text \<open>
  The in-memory invocation ledger of \<^verbatim>\<open>crates/astra-turn-core/src/invocation_ledger.rs\<close>, the
  executable contract of the durable ledger. An operation takes the ledger and returns its
  result beside the ledger as it leaves it, also when the result is an error: what the
  code has already written through a mutable reference stays written.
\<close>

section \<open>State and errors\<close>

type_synonym identity_set = "(ToolInvocationIdentity, unit) btree"

record InMemoryInvocationLedger =
  entries :: "(ToolInvocationIdentity, ToolInvocationRecord) btree"
  run_members :: "(rstr \<times> rstr, identity_set) btree"
  terminal_order :: "ToolInvocationIdentity list"

definition empty_ledger :: InMemoryInvocationLedger where
  "empty_ledger = \<lparr>entries = [], run_members = [], terminal_order = []\<rparr>"

text \<open>The last constructor is no error of the source: it stands for the panic of an \<^verbatim>\<open>expect\<close>.\<close>

datatype InvocationLedgerError =
    IdentityConflict ToolInvocationIdentity
  | MissingInvocation ToolInvocationIdentity
  | StateMismatch ToolInvocationIdentity ToolInvocationState ToolInvocationState
  | IllegalTransition ToolInvocationIdentity ToolInvocationState ToolInvocationState
  | DecisionMismatch ToolInvocationIdentity
  | LedgerMissingDispatchLease ToolInvocationIdentity
  | DispatchOwnerMismatch ToolInvocationIdentity
  | DispatchOwnerRequired ToolInvocationIdentity
  | LeaseNotExtended ToolInvocationIdentity u64 u64
  | Contract ToolInvocationContractError
  | LedgerPanic

type_synonym 'a ledger_result = "(InvocationLedgerError, 'a) result \<times> InMemoryInvocationLedger"

definition put_entry ::
    "InMemoryInvocationLedger \<Rightarrow> ToolInvocationIdentity \<Rightarrow> ToolInvocationRecord \<Rightarrow> InMemoryInvocationLedger" where
  "put_entry L i r = L\<lparr>entries := bt_insert i r (entries L)\<rparr>"

definition push_terminal ::
    "InMemoryInvocationLedger \<Rightarrow> ToolInvocationIdentity \<Rightarrow> InMemoryInvocationLedger" where
  "push_terminal L i = L\<lparr>terminal_order := terminal_order L @ [i]\<rparr>"

section \<open>Preparation and dispatch\<close>

definition prepare ::
    "InMemoryInvocationLedger \<Rightarrow> ToolInvocationIdentity \<Rightarrow> ToolInvocationFingerprint \<Rightarrow>
     ToolInvocationDecision \<Rightarrow> ToolInvocationPrepareOutcome ledger_result" where
  "prepare L i fp d =
     (if policy_decision_id fp \<noteq> decision_id d then (Inl (DecisionMismatch i), L)
      else case bt_get (entries L) i of
        Some existing \<Rightarrow>
          (if \<not> same_tool_and_arguments (fingerprint existing) fp then (Inl (IdentityConflict i), L)
           else (Inr (Existing existing), L))
      | None \<Rightarrow>
          (let entry = \<lparr>identity = i, fingerprint = fp, decision = d, state = Prepared,
                        dispatch_certainty = NotDispatched, attempt_count = 0, dispatch_lease = None,
                        outcome = None, completion_source = None\<rparr>;
               key = (user_id i, run_id i);
               members = (case bt_get (run_members L) key of None \<Rightarrow> [] | Some s \<Rightarrow> s);
               L = L\<lparr>run_members := bt_insert key (bt_insert i () members) (run_members L)\<rparr>;
               L = put_entry L i entry
           in (Inr (PreparedNew entry), L)))"

definition dispatch_claim_candidate ::
    "InMemoryInvocationLedger \<Rightarrow> ToolInvocationIdentity \<Rightarrow> ToolInvocationDispatchLease \<Rightarrow>
     (InvocationLedgerError, ToolInvocationRecord) result" where
  "dispatch_claim_candidate L i lease =
     try_bind (ok_or (bt_get (entries L) i) (MissingInvocation i)) (\<lambda>entry.
     if state entry \<noteq> Prepared then Inl (StateMismatch i Prepared (state entry))
     else Inr (entry\<lparr>state := Dispatched, dispatch_certainty := CertainlyDispatched,
                     attempt_count := sat_add (attempt_count entry) 1, dispatch_lease := Some lease\<rparr>))"

definition commit_dispatch_claim ::
    "InMemoryInvocationLedger \<Rightarrow> ToolInvocationRecord \<Rightarrow> ToolInvocationRecord ledger_result" where
  "commit_dispatch_claim L candidate =
     (let i = identity candidate in
      case bt_get (entries L) i of
        None \<Rightarrow> (Inl (MissingInvocation i), L)
      | Some current \<Rightarrow>
          if state current \<noteq> Prepared then (Inl (StateMismatch i Prepared (state current)), L)
          else if state candidate \<noteq> Dispatched
              \<or> \<not> same_tool_and_arguments (fingerprint current) (fingerprint candidate)
              \<or> decision current \<noteq> decision candidate
          then (Inl (IdentityConflict i), L)
          else (Inr candidate, put_entry L i candidate))"

definition claim_dispatch ::
    "InMemoryInvocationLedger \<Rightarrow> ToolInvocationIdentity \<Rightarrow> ToolInvocationDispatchLease \<Rightarrow>
     ToolInvocationRecord ledger_result" where
  "claim_dispatch L i lease =
     (case dispatch_claim_candidate L i lease of
        Inl e \<Rightarrow> (Inl e, L)
      | Inr candidate \<Rightarrow> commit_dispatch_claim L candidate)"

definition ensure_owner ::
    "ToolInvocationIdentity \<Rightarrow> ToolInvocationRecord \<Rightarrow> rstr \<Rightarrow> (InvocationLedgerError, unit) result" where
  "ensure_owner i entry owner =
     try_bind (ok_or (dispatch_lease entry) (LedgerMissingDispatchLease i)) (\<lambda>lease.
     if owner_id lease \<noteq> owner then Inl (DispatchOwnerMismatch i) else Inr ())"

definition dispatched_entry_for_owner ::
    "InMemoryInvocationLedger \<Rightarrow> ToolInvocationIdentity \<Rightarrow> rstr \<Rightarrow>
     (InvocationLedgerError, ToolInvocationRecord) result" where
  "dispatched_entry_for_owner L i owner =
     try_bind (ok_or (bt_get (entries L) i) (MissingInvocation i)) (\<lambda>entry.
     if state entry \<noteq> Dispatched then Inl (StateMismatch i Dispatched (state entry))
     else try_bind (ensure_owner i entry owner) (\<lambda>_. Inr entry))"

definition renew_dispatch ::
    "InMemoryInvocationLedger \<Rightarrow> ToolInvocationIdentity \<Rightarrow> ToolInvocationDispatchLease \<Rightarrow>
     ToolInvocationRecord ledger_result" where
  "renew_dispatch L i lease =
     (case dispatched_entry_for_owner L i (owner_id lease) of
        Inl e \<Rightarrow> (Inl e, L)
      | Inr entry \<Rightarrow>
          (case dispatch_lease entry of
             None \<Rightarrow> (Inl LedgerPanic, L)
           | Some current \<Rightarrow>
               if expires_at_epoch_ms lease \<le> expires_at_epoch_ms current
               then (Inl (LeaseNotExtended i (expires_at_epoch_ms current) (expires_at_epoch_ms lease)), L)
               else let entry = entry\<lparr>dispatch_lease := Some lease\<rparr>
                    in (Inr entry, put_entry L i entry)))"

section \<open>Completion\<close>

definition reconcile_expired_dispatch ::
    "InMemoryInvocationLedger \<Rightarrow> ToolInvocationIdentity \<Rightarrow> u64 \<Rightarrow> ToolInvocationRecord ledger_result" where
  "reconcile_expired_dispatch L i now =
     (case bt_get (entries L) i of
        None \<Rightarrow> (Inl (MissingInvocation i), L)
      | Some entry \<Rightarrow>
          if state entry \<noteq> Dispatched then (Inl (StateMismatch i Dispatched (state entry)), L)
          else (case dispatch_lease entry of
            None \<Rightarrow> (Inl (LedgerMissingDispatchLease i), L)
          | Some lease \<Rightarrow>
              if \<not> is_expired_at lease now then (Inr entry, L)
              else let entry = entry\<lparr>state := OutcomeUnknown, dispatch_certainty := Unknown\<rparr>
                   in (Inr entry, push_terminal (put_entry L i entry) i)))"

definition mark_outcome_unknown ::
    "InMemoryInvocationLedger \<Rightarrow> ToolInvocationIdentity \<Rightarrow> rstr \<Rightarrow> ToolInvocationRecord ledger_result" where
  "mark_outcome_unknown L i owner =
     (case dispatched_entry_for_owner L i owner of
        Inl e \<Rightarrow> (Inl e, L)
      | Inr entry \<Rightarrow>
          (let entry = entry\<lparr>state := OutcomeUnknown, dispatch_certainty := Unknown\<rparr>
           in (Inr entry, push_terminal (put_entry L i entry) i)))"

definition completion_owner_check ::
    "ToolInvocationIdentity \<Rightarrow> ToolInvocationRecord \<Rightarrow> ToolInvocationState \<Rightarrow> rstr option \<Rightarrow>
     (InvocationLedgerError, unit) result" where
  "completion_owner_check i entry expected owner =
     (if expected = Dispatched
      then try_bind (ok_or owner (DispatchOwnerRequired i)) (ensure_owner i entry)
      else Inr ())"

definition compare_and_complete ::
    "externals \<Rightarrow> InMemoryInvocationLedger \<Rightarrow> ToolInvocationIdentity \<Rightarrow> ToolInvocationState \<Rightarrow>
     rstr option \<Rightarrow> ToolInvocationTerminalOutcome \<Rightarrow> ToolInvocationRecord ledger_result" where
  "compare_and_complete ext L i expected owner out =
     (case outcome_validate ext out of Inl e \<Rightarrow> (Inl (Contract e), L) | Inr _ \<Rightarrow>
      (case bt_get (entries L) i of
         None \<Rightarrow> (Inl (MissingInvocation i), L)
       | Some entry \<Rightarrow>
           if state entry \<noteq> expected then (Inl (StateMismatch i expected (state entry)), L)
           else (case completion_owner_check i entry expected owner of
             Inl e \<Rightarrow> (Inl e, L)
           | Inr _ \<Rightarrow>
               if \<not> can_transition_to expected (outcome_state out)
               then (Inl (IllegalTransition i expected (outcome_state out)), L)
               else let entry = entry\<lparr>state := outcome_state out, dispatch_certainty := CertainlyDispatched,
                                     outcome := Some out, completion_source := None\<rparr>
                    in (Inr entry, push_terminal (put_entry L i entry) i))))"

definition complete_from_semantic_read_cache ::
    "externals \<Rightarrow> InMemoryInvocationLedger \<Rightarrow> ToolInvocationIdentity \<Rightarrow> ToolInvocationResultPayload \<Rightarrow>
     ToolInvocationCompletionSource \<Rightarrow> ToolInvocationRecord ledger_result" where
  "complete_from_semantic_read_cache ext L i p src =
     (case payload_validate ext p of Inl e \<Rightarrow> (Inl (Contract e), L) | Inr _ \<Rightarrow>
      (case source_validate src of Inl e \<Rightarrow> (Inl (Contract e), L) | Inr _ \<Rightarrow>
       (case bt_get (entries L) i of
          None \<Rightarrow> (Inl (MissingInvocation i), L)
        | Some entry \<Rightarrow>
            if state entry \<noteq> Prepared then (Inl (StateMismatch i Prepared (state entry)), L)
            else let entry = entry\<lparr>state := Succeeded, dispatch_certainty := NotDispatched,
                                  outcome := Some (OutcomeSucceeded p), completion_source := Some src\<rparr>;
                     L = put_entry L i entry
                 in (case record_validate ext entry of
                       Inl e \<Rightarrow> (Inl (Contract e), L)
                     | Inr _ \<Rightarrow> (Inr entry, push_terminal L i)))))"

section \<open>Queries and retirement\<close>

definition ledger_get ::
    "InMemoryInvocationLedger \<Rightarrow> ToolInvocationIdentity \<Rightarrow> ToolInvocationRecord option" where
  "ledger_get L i = bt_get (entries L) i"

definition ledger_len :: "InMemoryInvocationLedger \<Rightarrow> nat" where
  "ledger_len L = length (entries L)"

definition ledger_is_empty :: "InMemoryInvocationLedger \<Rightarrow> bool" where
  "ledger_is_empty L \<longleftrightarrow> entries L = []"

definition has_unsettled_dispatch :: "InMemoryInvocationLedger \<Rightarrow> bool" where
  "has_unsettled_dispatch L \<longleftrightarrow>
     list_ex (\<lambda>r. state r = Dispatched \<or> state r = OutcomeUnknown) (bt_values (entries L))"

definition is_terminal_entry :: "InMemoryInvocationLedger \<Rightarrow> ToolInvocationIdentity \<Rightarrow> bool" where
  "is_terminal_entry L i \<longleftrightarrow>
     (case bt_get (entries L) i of None \<Rightarrow> False | Some r \<Rightarrow> state_is_terminal (state r))"

fun pop_terminal ::
    "InMemoryInvocationLedger \<Rightarrow> ToolInvocationIdentity list \<Rightarrow>
     ToolInvocationIdentity option \<times> ToolInvocationIdentity list" where
  "pop_terminal L [] = (None, [])"
| "pop_terminal L (i # queue) = (if is_terminal_entry L i then (Some i, queue) else pop_terminal L queue)"

definition take_oldest_terminal_candidate ::
    "InMemoryInvocationLedger \<Rightarrow> ToolInvocationIdentity option \<times> InMemoryInvocationLedger" where
  "take_oldest_terminal_candidate L =
     (let (candidate, queue) = pop_terminal L (terminal_order L)
      in (candidate, L\<lparr>terminal_order := queue\<rparr>))"

definition defer_terminal_candidate ::
    "InMemoryInvocationLedger \<Rightarrow> ToolInvocationIdentity \<Rightarrow> InMemoryInvocationLedger" where
  "defer_terminal_candidate L i = (if is_terminal_entry L i then push_terminal L i else L)"

definition remove_run ::
    "InMemoryInvocationLedger \<Rightarrow> rstr \<Rightarrow> rstr \<Rightarrow> nat \<times> InMemoryInvocationLedger" where
  "remove_run L user run =
     (case bt_get (run_members L) (user, run) of
        None \<Rightarrow> (0, L)
      | Some identities \<Rightarrow>
          (length identities,
           L\<lparr>run_members := bt_remove (user, run) (run_members L),
             entries := fold bt_remove (bt_keys identities) (entries L)\<rparr>))"

section \<open>Operations as data\<close>

datatype ledger_op =
    Prepare ToolInvocationIdentity ToolInvocationFingerprint ToolInvocationDecision
  | Claim ToolInvocationIdentity ToolInvocationDispatchLease
  | Commit ToolInvocationRecord
  | Renew ToolInvocationIdentity ToolInvocationDispatchLease
  | Reconcile ToolInvocationIdentity u64
  | MarkUnknown ToolInvocationIdentity rstr
  | Complete ToolInvocationIdentity ToolInvocationState "rstr option" ToolInvocationTerminalOutcome
  | CompleteCached ToolInvocationIdentity ToolInvocationResultPayload ToolInvocationCompletionSource
  | TakeOldest
  | Defer ToolInvocationIdentity
  | RemoveRun rstr rstr

fun ledger_exec ::
    "externals \<Rightarrow> InMemoryInvocationLedger \<Rightarrow> ledger_op \<Rightarrow>
     InvocationLedgerError option \<times> InMemoryInvocationLedger" where
  "ledger_exec ext L (Prepare i fp d) = map_prod result_error id (prepare L i fp d)"
| "ledger_exec ext L (Claim i lease) = map_prod result_error id (claim_dispatch L i lease)"
| "ledger_exec ext L (Commit c) = map_prod result_error id (commit_dispatch_claim L c)"
| "ledger_exec ext L (Renew i lease) = map_prod result_error id (renew_dispatch L i lease)"
| "ledger_exec ext L (Reconcile i now) = map_prod result_error id (reconcile_expired_dispatch L i now)"
| "ledger_exec ext L (MarkUnknown i owner) = map_prod result_error id (mark_outcome_unknown L i owner)"
| "ledger_exec ext L (Complete i expected owner out) =
     map_prod result_error id (compare_and_complete ext L i expected owner out)"
| "ledger_exec ext L (CompleteCached i p src) =
     map_prod result_error id (complete_from_semantic_read_cache ext L i p src)"
| "ledger_exec ext L TakeOldest = (None, snd (take_oldest_terminal_candidate L))"
| "ledger_exec ext L (Defer i) = (None, defer_terminal_candidate L i)"
| "ledger_exec ext L (RemoveRun user run) = (None, snd (remove_run L user run))"

definition ledger_step :: "externals \<Rightarrow> InMemoryInvocationLedger \<Rightarrow> ledger_op \<Rightarrow> InMemoryInvocationLedger" where
  "ledger_step ext L op = snd (ledger_exec ext L op)"

section \<open>What a step does to one entry\<close>

definition claimed :: "ToolInvocationRecord \<Rightarrow> ToolInvocationDispatchLease \<Rightarrow> ToolInvocationRecord" where
  "claimed r lease =
     r\<lparr>state := Dispatched, dispatch_certainty := CertainlyDispatched,
       attempt_count := sat_add (attempt_count r) 1, dispatch_lease := Some lease\<rparr>"

definition lost :: "ToolInvocationRecord \<Rightarrow> ToolInvocationRecord" where
  "lost r = r\<lparr>state := OutcomeUnknown, dispatch_certainty := Unknown\<rparr>"

definition settled :: "ToolInvocationRecord \<Rightarrow> ToolInvocationTerminalOutcome \<Rightarrow> ToolInvocationRecord" where
  "settled r out =
     r\<lparr>state := outcome_state out, dispatch_certainty := CertainlyDispatched,
       outcome := Some out, completion_source := None\<rparr>"

definition substituted ::
    "ToolInvocationRecord \<Rightarrow> ToolInvocationResultPayload \<Rightarrow> ToolInvocationCompletionSource \<Rightarrow>
     ToolInvocationRecord" where
  "substituted r p src =
     r\<lparr>state := Succeeded, dispatch_certainty := NotDispatched,
       outcome := Some (OutcomeSucceeded p), completion_source := Some src\<rparr>"

text \<open>The five ways a stored record changes, as a step relation.\<close>

inductive entry_step :: "externals \<Rightarrow> ToolInvocationRecord \<Rightarrow> ToolInvocationRecord \<Rightarrow> bool"
  for ext :: externals where
  claim: "state r = Prepared \<Longrightarrow> entry_step ext r (claimed r lease)"
| renew: "state r = Dispatched \<Longrightarrow> dispatch_lease r = Some lease \<Longrightarrow> owner_id lease' = owner_id lease \<Longrightarrow>
    expires_at_epoch_ms lease < expires_at_epoch_ms lease' \<Longrightarrow>
    entry_step ext r (r\<lparr>dispatch_lease := Some lease'\<rparr>)"
| lose: "state r = Dispatched \<Longrightarrow> entry_step ext r (lost r)"
| settle: "can_transition_to (state r) (outcome_state out) \<Longrightarrow> outcome_validate ext out = Inr () \<Longrightarrow>
    entry_step ext r (settled r out)"
| substitute: "state r = Prepared \<Longrightarrow> payload_validate ext p = Inr () \<Longrightarrow> source_validate src = Inr () \<Longrightarrow>
    src = SemanticReadCache version key observation \<Longrightarrow> entry_step ext r (substituted r p src)"

definition entry_ok :: "externals \<Rightarrow> ToolInvocationIdentity \<Rightarrow> ToolInvocationRecord \<Rightarrow> bool" where
  "entry_ok ext i r \<longleftrightarrow>
     identity r = i \<and> record_validate ext r = Inr () \<and>
     attempt_count r = (if state r = Prepared \<or> completion_source r \<noteq> None then 0 else 1)"

definition run_key :: "ToolInvocationIdentity \<Rightarrow> rstr \<times> rstr" where
  "run_key i = (user_id i, run_id i)"

definition members :: "InMemoryInvocationLedger \<Rightarrow> rstr \<times> rstr \<Rightarrow> identity_set" where
  "members L key = (case bt_get (run_members L) key of None \<Rightarrow> [] | Some s \<Rightarrow> s)"

definition ledger_inv :: "externals \<Rightarrow> InMemoryInvocationLedger \<Rightarrow> bool" where
  "ledger_inv ext L \<longleftrightarrow>
     bt_wf (entries L) \<and> bt_wf (run_members L) \<and>
     (\<forall>i r. bt_get (entries L) i = Some r \<longrightarrow> entry_ok ext i r) \<and>
     (\<forall>key. bt_wf (members L key)) \<and>
     (\<forall>i key. i \<in> set (bt_keys (members L key)) \<longleftrightarrow> key = run_key i \<and> i \<in> set (bt_keys (entries L)))"

text \<open>
  What the types and callers of the source guarantee of an operation: decisions come
  checked out of their constructors, a committed candidate has the shape of one made by
  \<^verbatim>\<open>dispatch_claim_candidate\<close>, and a cache completion names a cache.
\<close>

fun op_ok :: "externals \<Rightarrow> ledger_op \<Rightarrow> bool" where
  "op_ok ext (Prepare _ _ d) = is_ok (decision_validate ext d)"
| "op_ok ext (Commit c) \<longleftrightarrow>
     is_ok (record_validate ext c) \<and> state c = Dispatched \<and> attempt_count c = 1"
| "op_ok ext (CompleteCached _ _ src) = (case src of SemanticReadCache _ _ _ \<Rightarrow> True | _ \<Rightarrow> False)"
| "op_ok ext _ = True"

lemma source_fits_state: "source_fits st src \<Longrightarrow> st = Succeeded \<or> st = Rejected"
  by (cases src) simp_all

lemma entry_step_ok:
  assumes "entry_step ext r r'" and "entry_ok ext i r"
  shows "entry_ok ext i r'"
  using assms
  unfolding entry_ok_def record_validate_iff
  by cases
    (auto simp: claimed_def lost_def settled_def substituted_def required_certainty_def check_lease_iff
      check_non_dispatch_completion_iff check_outcome_iff outcome_validate_def sat_add_def
      split: option.splits if_splits dest: source_fits_state elim: can_transition_to.elims)


section \<open>What a step does to the ledger\<close>

text \<open>The entry of \<open>i\<close> takes a step; it enters the retirement queue when it becomes terminal.\<close>

definition entry_moves ::
    "externals \<Rightarrow> InMemoryInvocationLedger \<Rightarrow> ToolInvocationIdentity \<Rightarrow> InMemoryInvocationLedger \<Rightarrow> bool" where
  "entry_moves ext L i L' \<longleftrightarrow>
     (\<exists>r r'. bt_get (entries L) i = Some r \<and> entry_step ext r r' \<and>
        L' = (if state_is_terminal (state r') then push_terminal (put_entry L i r') i else put_entry L i r'))"

lemma entry_movesI:
  "bt_get (entries L) i = Some r \<Longrightarrow> entry_step ext r r' \<Longrightarrow> \<not> state_is_terminal (state r') \<Longrightarrow>
     entry_moves ext L i (put_entry L i r')"
  "bt_get (entries L) i = Some r \<Longrightarrow> entry_step ext r r' \<Longrightarrow> state_is_terminal (state r') \<Longrightarrow>
     entry_moves ext L i (push_terminal (put_entry L i r') i)"
  unfolding entry_moves_def by (intro exI conjI; simp)+

lemma state_is_terminal_outcome [simp]: "state_is_terminal (outcome_state out)"
  by (cases out) simp_all

lemma ensure_owner_iff:
  "ensure_owner i entry owner = Inr () \<longleftrightarrow>
     (\<exists>lease. dispatch_lease entry = Some lease \<and> owner_id lease = owner)"
  by (auto simp: ensure_owner_def)

lemma dispatched_entry_for_owner_iff:
  "dispatched_entry_for_owner L i owner = Inr r \<longleftrightarrow>
     bt_get (entries L) i = Some r \<and> state r = Dispatched \<and>
     (\<exists>lease. dispatch_lease r = Some lease \<and> owner_id lease = owner)"
  by (auto simp: dispatched_entry_for_owner_def ensure_owner_iff split: if_splits)

lemma dispatch_claim_candidate_iff:
  "dispatch_claim_candidate L i lease = Inr c \<longleftrightarrow>
     (\<exists>r. bt_get (entries L) i = Some r \<and> state r = Prepared \<and> c = claimed r lease)"
  by (auto simp: dispatch_claim_candidate_def claimed_def split: if_splits)

lemma commit_dispatch_claim_cases:
  obtains (failed) e where "commit_dispatch_claim L c = (Inl e, L)"
  | (committed) r where "bt_get (entries L) (identity c) = Some r" "state r = Prepared"
      "state c = Dispatched" "same_tool_and_arguments (fingerprint r) (fingerprint c)"
      "decision r = decision c" "commit_dispatch_claim L c = (Inr c, put_entry L (identity c) c)"
  unfolding commit_dispatch_claim_def Let_def
  by (cases "bt_get (entries L) (identity c)") (fastforce split: if_splits)+

text \<open>A candidate that commits is the claim of the stored record under its own lease.\<close>

lemma committed_is_claimed:
  assumes "entry_ok ext (identity c) r" and "state r = Prepared"
    and "is_ok (record_validate ext c)" and "state c = Dispatched" and "attempt_count c = 1"
    and "same_tool_and_arguments (fingerprint r) (fingerprint c)" and "decision r = decision c"
  shows "\<exists>lease. c = claimed r lease"
proof -
  have c: "record_validate ext c = Inr ()" using assms(3) by (auto simp: is_ok_iff)
  then obtain lease where lease: "dispatch_lease c = Some lease"
    using assms(4) by (auto simp: record_validate_iff check_lease_iff)
  have none: "completion_source c = None" "outcome c = None" "completion_source r = None" "outcome r = None"
    using c assms(1,2,4)
    by (auto simp: entry_ok_def record_validate_iff check_non_dispatch_completion_iff check_outcome_iff
        split: option.splits dest: source_fits_state)
  then have "dispatch_certainty c = CertainlyDispatched"
    using c assms(4) by (simp add: record_validate_iff required_certainty_def)
  moreover have "fingerprint c = fingerprint r"
    using c assms(1,6,7)
    by (intro ToolInvocationFingerprint.equality)
      (auto simp: entry_ok_def record_validate_iff same_tool_and_arguments_def)
  moreover have "sat_add (attempt_count r) 1 = (1 :: u32)"
    using assms(1,2) by (simp add: entry_ok_def sat_add_def)
  ultimately have "c = claimed r lease"
    using assms(1,4,5,7) none lease
    by (intro ToolInvocationRecord.equality) (auto simp: claimed_def entry_ok_def)
  then show ?thesis ..
qed

lemma ledger_inv_entry: "ledger_inv ext L \<Longrightarrow> bt_get (entries L) i = Some r \<Longrightarrow> entry_ok ext i r"
  by (simp add: ledger_inv_def)

lemma claimed_ok:
  assumes "entry_ok ext i r" and "state r = Prepared"
  shows "identity (claimed r lease) = i" and "is_ok (record_validate ext (claimed r lease))"
    and "state (claimed r lease) = Dispatched" and "attempt_count (claimed r lease) = 1"
    and "same_tool_and_arguments (fingerprint r) (fingerprint (claimed r lease))"
    and "decision (claimed r lease) = decision r"
proof -
  have "entry_ok ext i (claimed r lease)"
    by (rule entry_step_ok [OF entry_step.claim assms(1)]) (rule assms(2))
  then show "is_ok (record_validate ext (claimed r lease))" by (simp add: entry_ok_def)
qed (use assms in \<open>simp_all add: entry_ok_def claimed_def same_tool_and_arguments_def sat_add_def\<close>)

section \<open>Every operation moves at most one entry\<close>

lemma commit_moves:
  assumes "ledger_inv ext L" and "op_ok ext (Commit c)"
  shows "(\<exists>e. commit_dispatch_claim L c = (Inl e, L)) \<or>
    (\<exists>r L'. commit_dispatch_claim L c = (Inr r, L') \<and> entry_moves ext L (identity c) L')"
proof (cases rule: commit_dispatch_claim_cases [of L c])
  case (committed r)
  then obtain lease where "c = claimed r lease"
    using assms committed_is_claimed ledger_inv_entry by fastforce
  with committed show ?thesis
    by (auto intro!: entry_movesI entry_step.claim)
qed auto

lemma claim_moves:
  assumes "ledger_inv ext L"
  shows "(\<exists>e. claim_dispatch L i lease = (Inl e, L)) \<or>
    (\<exists>r L'. claim_dispatch L i lease = (Inr r, L') \<and> entry_moves ext L i L')"
proof (cases "dispatch_claim_candidate L i lease")
  case (Inr c)
  then obtain r where r: "bt_get (entries L) i = Some r" "state r = Prepared" "c = claimed r lease"
    by (auto simp: dispatch_claim_candidate_iff)
  note ok = claimed_ok [OF ledger_inv_entry [OF assms r(1)] r(2), of lease]
  show ?thesis
    using commit_moves [OF assms, of c] ok r(3) Inr by (simp add: claim_dispatch_def)
qed (simp add: claim_dispatch_def)

lemma renew_moves:
  "(\<exists>e. renew_dispatch L i lease = (Inl e, L)) \<or>
    (\<exists>r L'. renew_dispatch L i lease = (Inr r, L') \<and> entry_moves ext L i L')"
proof (cases "dispatched_entry_for_owner L i (owner_id lease)")
  case (Inr r)
  then obtain l where r: "bt_get (entries L) i = Some r" "state r = Dispatched"
    "dispatch_lease r = Some l" "owner_id l = owner_id lease"
    by (auto simp: dispatched_entry_for_owner_iff)
  show ?thesis
    using Inr r by (auto simp: renew_dispatch_def Let_def intro!: entry_movesI entry_step.renew)
qed (simp add: renew_dispatch_def)

lemma reconcile_moves:
  "(\<exists>e. reconcile_expired_dispatch L i now = (Inl e, L)) \<or>
    (\<exists>r L'. reconcile_expired_dispatch L i now = (Inr r, L') \<and> (L' = L \<or> entry_moves ext L i L'))"
  by (auto simp: reconcile_expired_dispatch_def Let_def split: option.splits
      intro!: entry_movesI entry_step.lose [unfolded lost_def])

lemma mark_moves:
  "(\<exists>e. mark_outcome_unknown L i owner = (Inl e, L)) \<or>
    (\<exists>r L'. mark_outcome_unknown L i owner = (Inr r, L') \<and> entry_moves ext L i L')"
proof (cases "dispatched_entry_for_owner L i owner")
  case (Inr r)
  then show ?thesis
    by (auto simp: mark_outcome_unknown_def Let_def)
      (auto simp: dispatched_entry_for_owner_iff intro!: entry_movesI entry_step.lose [unfolded lost_def])
qed (simp add: mark_outcome_unknown_def)

lemma complete_moves:
  "(\<exists>e. compare_and_complete ext L i expected owner out = (Inl e, L)) \<or>
    (\<exists>r L'. compare_and_complete ext L i expected owner out = (Inr r, L') \<and> entry_moves ext L i L')"
proof (cases "outcome_validate ext out")
  case (Inr u)
  then show ?thesis
    by (auto simp: compare_and_complete_def Let_def split: option.splits sum.splits
        intro!: entry_movesI entry_step.settle [unfolded settled_def])
qed (simp add: compare_and_complete_def)

lemma cached_moves:
  assumes "ledger_inv ext L" and "op_ok ext (CompleteCached i p src)"
  shows "(\<exists>e. complete_from_semantic_read_cache ext L i p src = (Inl e, L)) \<or>
    (\<exists>r L'. complete_from_semantic_read_cache ext L i p src = (Inr r, L') \<and> entry_moves ext L i L')"
proof (cases "\<exists>r. is_ok (payload_validate ext p) \<and> is_ok (source_validate src) \<and>
    bt_get (entries L) i = Some r \<and> state r = Prepared")
  case True
  then obtain r where r: "payload_validate ext p = Inr ()" "source_validate src = Inr ()"
    "bt_get (entries L) i = Some r" "state r = Prepared"
    by (auto simp: is_ok_iff)
  obtain version key observation where "src = SemanticReadCache version key observation"
    using assms(2) by (auto split: ToolInvocationCompletionSource.splits)
  then have step: "entry_step ext r (substituted r p src)"
    using r entry_step.substitute by blast
  then have "record_validate ext (substituted r p src) = Inr ()"
    using entry_step_ok ledger_inv_entry [OF assms(1) r(3)] unfolding entry_ok_def by blast
  then show ?thesis
    using r step
    by (auto simp: complete_from_semantic_read_cache_def Let_def substituted_def intro!: entry_movesI)
qed (auto simp: complete_from_semantic_read_cache_def is_ok_iff split: option.splits sum.splits)


lemma ledger_simps [simp]:
  "entries (put_entry L i r) = bt_insert i r (entries L)"
  "run_members (put_entry L i r) = run_members L"
  "terminal_order (put_entry L i r) = terminal_order L"
  "entries (push_terminal L i) = entries L"
  "run_members (push_terminal L i) = run_members L"
  "terminal_order (push_terminal L i) = terminal_order L @ [i]"
  by (simp_all add: put_entry_def push_terminal_def)

lemma ledger_inv_cong:
  "entries L' = entries L \<Longrightarrow> run_members L' = run_members L \<Longrightarrow> ledger_inv ext L' = ledger_inv ext L"
  by (simp add: ledger_inv_def members_def)

lemma ledger_inv_put:
  assumes "ledger_inv ext L" and "bt_get (entries L) i = Some r" and "entry_ok ext i r'"
  shows "ledger_inv ext (put_entry L i r')"
proof -
  have "i \<in> set (bt_keys (entries L))"
    using assms(2) bt_get_None_iff [of "entries L" i] by auto
  then show ?thesis
    using assms(1,3) unfolding ledger_inv_def
    by (auto simp: bt_wf_insert bt_get_insert set_bt_keys_insert members_def)
qed

lemma ledger_inv_moves:
  assumes "ledger_inv ext L" and "entry_moves ext L i L'"
  shows "ledger_inv ext L'"
proof -
  obtain r r' where r: "bt_get (entries L) i = Some r" "entry_step ext r r'"
    "entries L' = entries (put_entry L i r')" "run_members L' = run_members (put_entry L i r')"
    using assms(2) unfolding entry_moves_def by (auto split: if_splits)
  have "ledger_inv ext (put_entry L i r')"
    using ledger_inv_put [OF assms(1) r(1)] entry_step_ok [OF r(2)] ledger_inv_entry [OF assms(1) r(1)] by blast
  then show ?thesis by (rule ledger_inv_cong [OF r(3,4), THEN iffD2])
qed

definition fresh_entry ::
    "ToolInvocationIdentity \<Rightarrow> ToolInvocationFingerprint \<Rightarrow> ToolInvocationDecision \<Rightarrow> ToolInvocationRecord" where
  "fresh_entry i fp d =
     \<lparr>identity = i, fingerprint = fp, decision = d, state = Prepared, dispatch_certainty = NotDispatched,
      attempt_count = 0, dispatch_lease = None, outcome = None, completion_source = None\<rparr>"

lemma prepare_cases:
  obtains (failed) e where "prepare L i fp d = (Inl e, L)"
  | (existing) r where "prepare L i fp d = (Inr (Existing r), L)" "bt_get (entries L) i = Some r"
      "same_tool_and_arguments (fingerprint r) fp"
  | (fresh) L' where "prepare L i fp d = (Inr (PreparedNew (fresh_entry i fp d)), L')"
      "bt_get (entries L) i = None" "policy_decision_id fp = decision_id d"
      "entries L' = bt_insert i (fresh_entry i fp d) (entries L)" "terminal_order L' = terminal_order L"
      "run_members L' = bt_insert (run_key i) (bt_insert i () (members L (run_key i))) (run_members L)"
proof (cases "policy_decision_id fp = decision_id d")
  case True
  show ?thesis
  proof (cases "bt_get (entries L) i")
    case None
    then show ?thesis
      using fresh [of "snd (prepare L i fp d)"] True
      by (simp add: prepare_def Let_def fresh_entry_def run_key_def members_def)
  next
    case (Some r)
    then show ?thesis
      using True failed existing
      by (cases "same_tool_and_arguments (fingerprint r) fp") (simp_all add: prepare_def)
  qed
next
  case False
  with failed show ?thesis by (simp add: prepare_def)
qed

lemma fresh_entry_ok:
  "decision_validate ext d = Inr () \<Longrightarrow> policy_decision_id fp = decision_id d \<Longrightarrow>
     entry_ok ext i (fresh_entry i fp d)"
  by (simp add: entry_ok_def record_validate_iff fresh_entry_def required_certainty_def check_lease_iff
      check_non_dispatch_completion_iff check_outcome_iff)

lemma prepare_inv:
  assumes "ledger_inv ext L" and "is_ok (decision_validate ext d)"
  shows "ledger_inv ext (snd (prepare L i fp d))"
proof (cases rule: prepare_cases [of L i fp d])
  case (fresh L')
  have ok: "entry_ok ext i (fresh_entry i fp d)"
    using fresh_entry_ok fresh(3) assms(2) by (auto simp: is_ok_iff)
  have "members L' key =
      (if key = run_key i then bt_insert i () (members L (run_key i)) else members L key)" for key
    by (simp add: members_def fresh(6) bt_get_insert)
  then show ?thesis
    using assms(1) ok unfolding ledger_inv_def fresh(1) snd_conv
    by (auto simp: fresh(4,6) bt_wf_insert bt_get_insert set_bt_keys_insert run_key_def)
qed (use assms in simp_all)

lemma set_bt_keys_fold_remove: "set (bt_keys (fold bt_remove ks m)) = set (bt_keys m) - set ks"
  by (induction ks arbitrary: m) (auto simp: set_bt_keys_remove)

lemma bt_remove_absent: "bt_get m k = None \<Longrightarrow> bt_remove k m = m"
  unfolding bt_get_None_iff bt_remove_def bt_keys_def by (auto simp: filter_id_conv)

lemma remove_run_fields:
  "run_members (snd (remove_run L user run)) = bt_remove (user, run) (run_members L)"
  "entries (snd (remove_run L user run)) = fold bt_remove (bt_keys (members L (user, run))) (entries L)"
  "terminal_order (snd (remove_run L user run)) = terminal_order L"
  by (auto simp: remove_run_def members_def bt_remove_absent split: option.splits)

lemma remove_run_inv:
  assumes "ledger_inv ext L"
  shows "ledger_inv ext (snd (remove_run L user run))"
proof -
  have "members (snd (remove_run L user run)) key = (if key = (user, run) then [] else members L key)" for key
    by (simp add: members_def remove_run_fields bt_get_remove)
  then show ?thesis
    using assms unfolding ledger_inv_def
    by (auto simp: remove_run_fields bt_wf_remove bt_wf_fold_remove bt_get_fold_remove
        set_bt_keys_fold_remove run_key_def split: if_splits)
qed

lemma take_oldest_fields [simp]:
  "entries (snd (take_oldest_terminal_candidate L)) = entries L"
  "run_members (snd (take_oldest_terminal_candidate L)) = run_members L"
  by (simp_all add: take_oldest_terminal_candidate_def split_beta Let_def)

lemma defer_fields [simp]:
  "entries (defer_terminal_candidate L i) = entries L"
  "run_members (defer_terminal_candidate L i) = run_members L"
  by (simp_all add: defer_terminal_candidate_def)

text \<open>What an operation other than preparation and retirement does.\<close>

definition entry_op :: "ledger_op \<Rightarrow> bool" where
  "entry_op op \<longleftrightarrow> (case op of
     Prepare _ _ _ \<Rightarrow> False | TakeOldest \<Rightarrow> False | Defer _ \<Rightarrow> False | RemoveRun _ _ \<Rightarrow> False | _ \<Rightarrow> True)"

lemma entry_op_moves:
  assumes "ledger_inv ext L" and "op_ok ext op" and "entry_op op"
  shows "ledger_step ext L op = L \<or> (\<exists>i. fst (ledger_exec ext L op) = None \<and> entry_moves ext L i (ledger_step ext L op))"
proof (cases op)
  case (Claim i lease)
  then show ?thesis using claim_moves [OF assms(1), of i lease] by (auto simp: ledger_step_def result_error_def)
next
  case (Commit c)
  then show ?thesis using commit_moves [OF assms(1), of c] assms(2) by (auto simp: ledger_step_def result_error_def)
next
  case (Renew i lease)
  then show ?thesis using renew_moves [of L i lease ext] by (auto simp: ledger_step_def result_error_def)
next
  case (Reconcile i now)
  then show ?thesis using reconcile_moves [of L i now ext] by (auto simp: ledger_step_def result_error_def)
next
  case (MarkUnknown i owner)
  then show ?thesis using mark_moves [of L i owner ext] by (auto simp: ledger_step_def result_error_def)
next
  case (Complete i expected owner out)
  then show ?thesis
    using complete_moves [of ext L i expected owner out] by (auto simp: ledger_step_def result_error_def)
next
  case (CompleteCached i p src)
  then show ?thesis using cached_moves [OF assms(1), of i p src] assms(2)
    by (auto simp: ledger_step_def result_error_def)
qed (use assms(3) in \<open>simp_all add: entry_op_def\<close>)

lemma ledger_step_inv:
  assumes "ledger_inv ext L" and "op_ok ext op"
  shows "ledger_inv ext (ledger_step ext L op)"
proof (cases "entry_op op")
  case True
  then show ?thesis using entry_op_moves [OF assms] ledger_inv_moves [OF assms(1)] assms(1) by fastforce
next
  case False
  then show ?thesis
    using assms prepare_inv remove_run_inv
      ledger_inv_cong [OF take_oldest_fields(1,2)] ledger_inv_cong [OF defer_fields(1,2)]
    by (cases op) (auto simp: entry_op_def ledger_step_def)
qed

lemma empty_ledger_inv: "ledger_inv ext empty_ledger"
  by (simp add: ledger_inv_def empty_ledger_def members_def)

interpretation ledger: machine "ledger_step ext" "op_ok ext" "ledger_inv ext"
  by unfold_locales (rule ledger_step_inv)


section \<open>Errors leave the ledger alone\<close>



text \<open>
  C38. The exception is a cache completion called with a source that is no cache: it
  writes the entry before it validates it. With a valid run-closure source it returns an
  error, but the prepared entry has already become a succeeded record that fails
  validation, is not queued for retirement and can never be dispatched.
\<close>

theorem cache_completion_not_atomic:
  assumes inv: "ledger_inv ext L" and r: "bt_get (entries L) i = Some r" "state r = Prepared"
    and p: "payload_validate ext p = Inr ()"
    and src: "run_closure status = Inr src"
  shows "let (res, L') = complete_from_semantic_read_cache ext L i p src in
    res = Inl (Contract (InvalidRunClosureCompletionState Succeeded)) \<and>
    map_option state (ledger_get L' i) = Some Succeeded \<and> \<not> ledger_inv ext L' \<and>
    terminal_order L' = terminal_order L \<and>
    dispatch_claim_candidate L' i lease = Inl (StateMismatch i Prepared Succeeded)"
proof -
  have ok: "entry_ok ext i r" using ledger_inv_entry [OF inv r(1)] .
  have v: "source_validate src = Inr ()" "src = RunClosure TOOL_INVOCATION_RUN_CLOSURE_CONTRACT_VERSION status"
    using src by (auto simp: run_closure_def Let_def)
  let ?r = "substituted r p src"
  have bad: "record_validate ext ?r = Inl (InvalidRunClosureCompletionState Succeeded)"
  proof -
    have "decision_validate ext (decision r) = Inr ()" "dispatch_lease r = None"
      "policy_decision_id (fingerprint r) = decision_id (decision r)"
      using ok r(2) by (simp_all add: entry_ok_def record_validate_iff check_lease_iff)
    then show ?thesis
      using v by (simp add: record_validate_def substituted_def required_certainty_def check_lease_def
          check_non_dispatch_completion_def)
  qed
  have res: "complete_from_semantic_read_cache ext L i p src =
      (Inl (Contract (InvalidRunClosureCompletionState Succeeded)), put_entry L i ?r)"
    using p v(1) r bad by (simp add: complete_from_semantic_read_cache_def substituted_def Let_def)
  have "\<not> ledger_inv ext (put_entry L i ?r)"
    using ledger_inv_entry [of ext "put_entry L i ?r" i ?r] bad by (auto simp: bt_get_insert entry_ok_def)
  then show ?thesis
    by (simp add: res ledger_get_def bt_get_insert dispatch_claim_candidate_def substituted_def)
qed

section \<open>At most one dispatch for each preparation\<close>

fun crosses :: "InMemoryInvocationLedger \<Rightarrow> ledger_op \<Rightarrow> ToolInvocationIdentity \<Rightarrow> bool" where
  "crosses L (Claim j lease) i \<longleftrightarrow> j = i \<and> is_ok (fst (claim_dispatch L j lease))"
| "crosses L (Commit c) i \<longleftrightarrow> identity c = i \<and> is_ok (fst (commit_dispatch_claim L c))"
| "crosses L _ i \<longleftrightarrow> False"

fun creates :: "InMemoryInvocationLedger \<Rightarrow> ledger_op \<Rightarrow> ToolInvocationIdentity \<Rightarrow> bool" where
  "creates L (Prepare j fp d) i \<longleftrightarrow>
     j = i \<and> (case fst (prepare L j fp d) of Inr (PreparedNew _) \<Rightarrow> True | _ \<Rightarrow> False)"
| "creates L _ i \<longleftrightarrow> False"

primrec tally ::
    "(InMemoryInvocationLedger \<Rightarrow> ledger_op \<Rightarrow> bool) \<Rightarrow> externals \<Rightarrow> InMemoryInvocationLedger \<Rightarrow>
     ledger_op list \<Rightarrow> nat" where
  "tally p ext L [] = 0"
| "tally p ext L (op # ops) = of_bool (p L op) + tally p ext (ledger_step ext L op) ops"

definition is_prepared :: "InMemoryInvocationLedger \<Rightarrow> ToolInvocationIdentity \<Rightarrow> bool" where
  "is_prepared L i \<longleftrightarrow> (case bt_get (entries L) i of None \<Rightarrow> False | Some r \<Rightarrow> state r = Prepared)"

definition keyed :: "InMemoryInvocationLedger \<Rightarrow> bool" where
  "keyed L \<longleftrightarrow> (\<forall>i r. bt_get (entries L) i = Some r \<longrightarrow> identity r = i)"

lemma keyed_put: "keyed L \<Longrightarrow> identity r = i \<Longrightarrow> keyed (put_entry L i r)"
  by (auto simp: keyed_def bt_get_insert)

lemma keyed_push [simp]: "keyed (push_terminal L i) = keyed L"
  by (simp add: keyed_def)

lemma claim_dispatch_cases:
  assumes "keyed L"
  obtains (failed) e where "claim_dispatch L i lease = (Inl e, L)"
  | (claimed) r where "bt_get (entries L) i = Some r" "state r = Prepared"
      "claim_dispatch L i lease = (Inr (claimed r lease), put_entry L i (claimed r lease))"
proof (cases "dispatch_claim_candidate L i lease")
  case (Inl e)
  then show ?thesis using failed by (simp add: claim_dispatch_def)
next
  case (Inr c)
  then obtain r where r: "bt_get (entries L) i = Some r" "state r = Prepared" "c = claimed r lease"
    by (auto simp: dispatch_claim_candidate_iff)
  moreover have "identity r = i" using assms r(1) by (simp add: keyed_def)
  ultimately show ?thesis
    using that(2) [of r] Inr
    by (simp add: claim_dispatch_def commit_dispatch_claim_def Let_def claimed_def same_tool_and_arguments_def)
qed

lemma ledger_step_keyed:
  assumes k: "keyed L"
  shows "keyed (ledger_step ext L op)"
proof (cases op)
  case (Prepare i fp d)
  show ?thesis
    by (cases rule: prepare_cases [of L i fp d])
      (use k in \<open>auto simp: Prepare ledger_step_def keyed_def bt_get_insert fresh_entry_def\<close>)
next
  case (Claim i lease)
  show ?thesis
    by (cases rule: claim_dispatch_cases [OF k, of i lease])
      (use k in \<open>auto simp: Claim ledger_step_def claimed_def keyed_def bt_get_insert\<close>)
next
  case (Commit c)
  show ?thesis
    by (cases rule: commit_dispatch_claim_cases [of L c])
      (use k in \<open>auto simp: Commit ledger_step_def intro: keyed_put\<close>)
qed (use k in \<open>auto simp: ledger_step_def renew_dispatch_def reconcile_expired_dispatch_def mark_outcome_unknown_def
    compare_and_complete_def complete_from_semantic_read_cache_def Let_def remove_run_fields
    dispatched_entry_for_owner_iff keyed_def bt_get_insert bt_get_fold_remove
    split: option.splits sum.splits if_splits\<close>)

lemma ledger_step_tally:
  assumes "keyed L"
  shows "of_bool (is_prepared (ledger_step ext L op) i) + of_bool (crosses L op i)
    \<le> of_bool (is_prepared L i) + (of_bool (creates L op i) :: nat)"
proof (cases op)
  case (Prepare j fp d)
  show ?thesis
    by (cases rule: prepare_cases [of L j fp d])
      (auto simp: Prepare ledger_step_def is_prepared_def bt_get_insert)
next
  case (Claim j lease)
  show ?thesis
    by (cases rule: claim_dispatch_cases [OF assms, of j lease])
      (auto simp: Claim ledger_step_def is_prepared_def bt_get_insert claimed_def)
next
  case (Commit c)
  show ?thesis
    by (cases rule: commit_dispatch_claim_cases [of L c])
      (auto simp: Commit ledger_step_def is_prepared_def bt_get_insert)
qed (auto simp: ledger_step_def renew_dispatch_def reconcile_expired_dispatch_def mark_outcome_unknown_def
    compare_and_complete_def complete_from_semantic_read_cache_def Let_def remove_run_fields
    dispatched_entry_for_owner_iff is_prepared_def bt_get_insert bt_get_fold_remove
    split: option.splits sum.splits if_splits)

lemma tally_bound:
  "keyed L \<Longrightarrow>
     tally (\<lambda>L op. crosses L op i) ext L ops \<le> of_bool (is_prepared L i) + tally (\<lambda>L op. creates L op i) ext L ops"
proof (induction ops arbitrary: L)
  case (Cons op ops)
  then show ?case
    using Cons.IH [OF ledger_step_keyed [OF Cons.prems, of ext op]] ledger_step_tally [OF Cons.prems, of ext op i]
    by simp
qed simp

text \<open>
  C1. No sequence of operations, concurrent claims through stale or forged candidates
  included, crosses the dispatch boundary more often for an identity than the identity was
  newly prepared.
\<close>

theorem dispatch_at_most_once:
  "tally (\<lambda>L op. crosses L op i) ext empty_ledger ops \<le> tally (\<lambda>L op. creates L op i) ext empty_ledger ops"
  using tally_bound [of empty_ledger i ext ops] by (simp add: keyed_def is_prepared_def empty_ledger_def)

section \<open>Results are final\<close>

fun state_rank :: "ToolInvocationState \<Rightarrow> nat" where
  "state_rank Prepared = 0"
| "state_rank Dispatched = 1"
| "state_rank OutcomeUnknown = 2"
| "state_rank _ = 3"

definition record_evolves :: "ToolInvocationRecord \<Rightarrow> ToolInvocationRecord \<Rightarrow> bool" where
  "record_evolves r r' \<longleftrightarrow>
     identity r' = identity r \<and> fingerprint r' = fingerprint r \<and> decision r' = decision r \<and>
     state_rank (state r) \<le> state_rank (state r') \<and> (state_rank (state r) = 3 \<longrightarrow> r' = r) \<and>
     (dispatch_certainty r = CertainlyDispatched \<longrightarrow> dispatch_certainty r' \<noteq> NotDispatched) \<and>
     (dispatch_certainty r = Unknown \<longrightarrow> dispatch_certainty r' \<noteq> NotDispatched)"

definition ledger_evolves :: "InMemoryInvocationLedger \<Rightarrow> InMemoryInvocationLedger \<Rightarrow> bool" where
  "ledger_evolves L L' \<longleftrightarrow>
     (\<forall>i r. ledger_get L i = Some r \<longrightarrow> (\<exists>r'. ledger_get L' i = Some r' \<and> record_evolves r r'))"

lemma record_evolves_refl: "record_evolves r r"
  by (auto simp: record_evolves_def)

lemma state_rank_le: "state_rank s \<le> 3"
  by (cases s) simp_all

lemma record_evolves_trans: "record_evolves r s \<Longrightarrow> record_evolves s t \<Longrightarrow> record_evolves r t"
  unfolding record_evolves_def using state_rank_le [of "state s"]
  by (cases "dispatch_certainty s") auto

lemma entry_step_evolves:
  assumes "entry_step ext r r'" and "entry_ok ext i r"
  shows "record_evolves r r'"
  using assms(1)
proof cases
  case (settle out)
  then have "state_rank (state r) < state_rank (outcome_state out)"
    by (cases "state r"; cases out) simp_all
  with settle state_rank_le [of "outcome_state out"] show ?thesis
    by (simp add: record_evolves_def settled_def)
qed (use assms(2) in \<open>auto simp: record_evolves_def claimed_def lost_def substituted_def entry_ok_def
    record_validate_iff required_certainty_def split: if_splits\<close>)

lemma ledger_step_evolves:
  assumes "ledger_inv ext L" and "op_ok ext op" and "\<forall>user run. op \<noteq> RemoveRun user run"
  shows "ledger_evolves L (ledger_step ext L op)"
proof (cases "entry_op op")
  case True
  show ?thesis
  proof (cases "ledger_step ext L op = L")
    case True
    then show ?thesis by (auto simp: ledger_evolves_def record_evolves_refl)
  next
    case False
    then obtain i r r' where "bt_get (entries L) i = Some r" "entry_step ext r r'"
      "entries (ledger_step ext L op) = bt_insert i r' (entries L)"
      using entry_op_moves [OF assms(1,2) True] unfolding entry_moves_def
      by (metis (full_types) ledger_simps(1,4))
    with ledger_inv_entry [OF assms(1)] show ?thesis
      by (auto simp: ledger_evolves_def ledger_get_def bt_get_insert record_evolves_refl
          intro: entry_step_evolves)
  qed
next
  case False
  show ?thesis
  proof (cases op)
    case (Prepare i fp d)
    show ?thesis
      by (cases rule: prepare_cases [of L i fp d])
        (auto simp: Prepare ledger_step_def ledger_evolves_def ledger_get_def bt_get_insert record_evolves_refl)
  qed (use False assms(3) in
      \<open>auto simp: entry_op_def ledger_step_def ledger_evolves_def ledger_get_def record_evolves_refl\<close>)
qed

fun retains_runs :: "ledger_op \<Rightarrow> bool" where
  "retains_runs (RemoveRun _ _) = False"
| "retains_runs _ = True"

interpretation ledger_history: climbing_machine "ledger_step ext" "\<lambda>op. op_ok ext op \<and> retains_runs op"
  "ledger_inv ext" ledger_evolves
proof unfold_locales
  fix L M N :: InMemoryInvocationLedger and op
  show "ledger_inv ext L \<Longrightarrow> op_ok ext op \<and> retains_runs op \<Longrightarrow> ledger_inv ext (ledger_step ext L op)"
    by (simp add: ledger_step_inv)
  show "ledger_evolves L L" by (simp add: ledger_evolves_def record_evolves_refl)
  show "ledger_evolves L M \<Longrightarrow> ledger_evolves M N \<Longrightarrow> ledger_evolves L N"
    unfolding ledger_evolves_def by (metis record_evolves_trans)
  show "ledger_inv ext L \<Longrightarrow> op_ok ext op \<and> retains_runs op \<Longrightarrow> ledger_evolves L (ledger_step ext L op)"
    by (rule ledger_step_evolves) auto
qed


section \<open>Retirement\<close>


lemma pop_terminal_split:
  "pop_terminal L queue = (c, rest) \<Longrightarrow>
     (case c of
        None \<Rightarrow> rest = [] \<and> (\<forall>i \<in> set queue. \<not> is_terminal_entry L i)
      | Some i \<Rightarrow> \<exists>stale. queue = stale @ i # rest \<and> is_terminal_entry L i \<and>
          (\<forall>j \<in> set stale. \<not> is_terminal_entry L j))"
proof (induction queue)
  case (Cons j queue)
  show ?case
  proof (cases "is_terminal_entry L j")
    case True
    with Cons.prems show ?thesis by (auto intro!: exI [of _ "[]"])
  next
    case False
    with Cons have *: "case c of
        None \<Rightarrow> rest = [] \<and> (\<forall>i \<in> set queue. \<not> is_terminal_entry L i)
      | Some i \<Rightarrow> \<exists>stale. queue = stale @ i # rest \<and> is_terminal_entry L i \<and>
          (\<forall>j \<in> set stale. \<not> is_terminal_entry L j)"
      by simp
    show ?thesis
    proof (cases c)
      case (Some i)
      with * obtain stale where "queue = stale @ i # rest" "is_terminal_entry L i"
        "\<forall>j \<in> set stale. \<not> is_terminal_entry L j" by auto
      with Some False show ?thesis by (auto intro!: exI [of _ "j # stale"])
    qed (use * False in simp)
  qed
qed simp

text \<open>
  Taking a retirement candidate hands out the first identity of the queue whose
  record is terminal; it drops only stale identities before it, leaves the records alone,
  and returns nothing only when no queued record is terminal.
\<close>

theorem take_oldest_terminal_candidate_first:
  "case take_oldest_terminal_candidate L of
     (None, L') \<Rightarrow> terminal_order L' = [] \<and> entries L' = entries L \<and>
       list_all (\<lambda>i. \<not> is_terminal_entry L i) (terminal_order L)
   | (Some i, L') \<Rightarrow> entries L' = entries L \<and> is_terminal_entry L i \<and>
       (\<exists>stale. terminal_order L = stale @ i # terminal_order L' \<and>
          list_all (\<lambda>j. \<not> is_terminal_entry L j) stale)"
  using pop_terminal_split [of L "terminal_order L"]
  by (cases "pop_terminal L (terminal_order L)")
    (auto simp: take_oldest_terminal_candidate_def list_all_iff split: option.splits)



lemma same_set_length: "set xs = set ys \<Longrightarrow> distinct xs \<Longrightarrow> distinct ys \<Longrightarrow> length xs = length ys"
  by (metis distinct_card)

lemma remove_run_get:
  assumes "ledger_inv ext L"
  shows "ledger_get (snd (remove_run L user run)) i =
    (if (user_id i, run_id i) = (user, run) then None else ledger_get L i)"
proof -
  have "i \<in> set (bt_keys (members L (user, run))) \<longleftrightarrow>
      (user, run) = run_key i \<and> i \<in> set (bt_keys (entries L))"
    using assms by (simp add: ledger_inv_def del: split_paired_All)
  then show ?thesis
    using bt_get_None_iff [of "entries L" i]
    by (auto simp: ledger_get_def remove_run_fields bt_get_fold_remove run_key_def)
qed

text \<open>
  Removing a run removes exactly the records of that user and run, every other record
  stays as it is, and the number returned is the number of records removed.
\<close>

theorem remove_run_exact:
  assumes inv: "ledger_inv ext L" and rem: "remove_run L user run = (n, L')"
  shows "ledger_get L' i = (if (user_id i, run_id i) = (user, run) then None else ledger_get L i) \<and>
    n = length (filter (\<lambda>i. (user_id i, run_id i) = (user, run)) (bt_keys (entries L))) \<and>
    ledger_len L = ledger_len L' + n"
proof -
  have L': "L' = snd (remove_run L user run)" and n: "n = length (bt_keys (members L (user, run)))"
    using rem by (auto simp: remove_run_def members_def bt_keys_def split: option.splits)
  have mem: "i \<in> set (bt_keys (members L (user, run))) \<longleftrightarrow>
      (user, run) = run_key i \<and> i \<in> set (bt_keys (entries L))" for i
    using inv by (simp add: ledger_inv_def del: split_paired_All)
  have d: "distinct (bt_keys (entries L))" "distinct (bt_keys (members L (user, run)))"
    using inv by (auto simp: ledger_inv_def intro: bt_wf_distinct)
  let ?run = "\<lambda>i. (user_id i, run_id i) = (user, run)"
  have "set (bt_keys (members L (user, run))) = set (filter ?run (bt_keys (entries L)))"
    using mem by (auto simp: run_key_def)
  then have 1: "n = length (filter ?run (bt_keys (entries L)))"
    using same_set_length [OF _ d(2) distinct_filter [OF d(1)]] n by simp
  have "ledger_inv ext L'" using remove_run_inv [OF inv] L' by simp
  then have d': "distinct (bt_keys (entries L'))" by (auto simp: ledger_inv_def intro: bt_wf_distinct)
  have "set (bt_keys (entries L')) = set (filter (\<lambda>i. \<not> ?run i) (bt_keys (entries L)))"
    using mem by (auto simp: L' remove_run_fields set_bt_keys_fold_remove run_key_def)
  then have "length (bt_keys (entries L')) = length (filter (\<lambda>i. \<not> ?run i) (bt_keys (entries L)))"
    by (rule same_set_length [OF _ d' distinct_filter [OF d(1)]])
  then have 2: "ledger_len L = ledger_len L' + n"
    using sum_length_filter_compl [of ?run "bt_keys (entries L)"] 1 by (simp add: ledger_len_def bt_keys_def)
  have 3: "ledger_get L' i = (if ?run i then None else ledger_get L i)"
    unfolding L' by (rule remove_run_get [OF inv])
  show ?thesis using 1 2 3 by blast
qed

section \<open>Who may change a dispatched record\<close>

fun authorised :: "ToolInvocationIdentity \<Rightarrow> ToolInvocationDispatchLease \<Rightarrow> ledger_op \<Rightarrow> bool" where
  "authorised i held (Renew j lease) \<longleftrightarrow>
     j = i \<and> owner_id lease = owner_id held \<and> expires_at_epoch_ms held < expires_at_epoch_ms lease"
| "authorised i held (Reconcile j now) \<longleftrightarrow> j = i \<and> expires_at_epoch_ms held \<le> now"
| "authorised i held (MarkUnknown j owner) \<longleftrightarrow> j = i \<and> owner = owner_id held"
| "authorised i held (Complete j expected owner out) \<longleftrightarrow>
     j = i \<and> expected = Dispatched \<and> owner = Some (owner_id held)"
| "authorised i held (RemoveRun user run) \<longleftrightarrow> user = user_id i \<and> run = run_id i"
| "authorised i held _ \<longleftrightarrow> False"

text \<open>
  C6. A dispatched record changes only by its lease: a renewal by the lease's owner that
  extends it, a completion or a mark as unknown by that owner, a reconciliation after the
  lease has expired, or the removal of the whole run. Every other operation, claims by
  another owner included, leaves the record as it is.
\<close>

theorem dispatched_record_guarded:
  assumes inv: "ledger_inv ext L" and r: "ledger_get L i = Some r" "state r = Dispatched" "dispatch_lease r = Some held"
    and changed: "ledger_get (ledger_step ext L op) i \<noteq> Some r"
  shows "authorised i held op"
proof (cases op)
  case (Prepare j fp d)
  show ?thesis
    by (cases rule: prepare_cases [of L j fp d])
      (use r changed in \<open>auto simp: Prepare ledger_step_def ledger_get_def bt_get_insert split: if_splits\<close>)
next
  case (Claim j lease)
  have k: "keyed L" using ledger_inv_entry [OF inv] by (simp add: keyed_def entry_ok_def)
  show ?thesis
    by (cases rule: claim_dispatch_cases [OF k, of j lease])
      (use r changed in \<open>auto simp: Claim ledger_step_def ledger_get_def bt_get_insert split: if_splits\<close>)
next
  case (Commit c)
  show ?thesis
    by (cases rule: commit_dispatch_claim_cases [of L c])
      (use r changed in \<open>auto simp: Commit ledger_step_def ledger_get_def bt_get_insert split: if_splits\<close>)
next
  case (RemoveRun user run)
  then show ?thesis
    using remove_run_get [OF inv, of user run i] r changed by (auto simp: ledger_step_def split: if_splits)
qed (use r changed in \<open>auto simp: ledger_step_def ledger_get_def renew_dispatch_def Let_def bt_get_insert
    reconcile_expired_dispatch_def is_expired_at_def mark_outcome_unknown_def dispatched_entry_for_owner_iff
    compare_and_complete_def completion_owner_check_def ensure_owner_iff complete_from_semantic_read_cache_def
    split: if_splits option.splits sum.splits\<close>)

section \<open>Preparing twice\<close>

lemma same_tool_and_arguments_trans:
  "same_tool_and_arguments f g \<Longrightarrow> same_tool_and_arguments f h \<longleftrightarrow> same_tool_and_arguments g h"
  by (auto simp: same_tool_and_arguments_def)

lemma prepare_stores:
  assumes "prepare L i fp d = (Inr p, L')"
  shows "\<exists>r. ledger_get L' i = Some r \<and> same_tool_and_arguments (fingerprint r) fp"
  by (cases rule: prepare_cases [of L i fp d])
    (use assms in \<open>auto simp: ledger_get_def bt_get_insert fresh_entry_def same_tool_and_arguments_def\<close>)

text \<open>
  Preparation is idempotent for any retry: once an identity is prepared, and whatever
  the ledger did since while it kept its runs, preparing it again with the same tool and
  arguments, under whatever decision, returns the stored record and changes nothing; with
  another tool or other arguments it reports a conflict and changes nothing.
\<close>

theorem prepare_idempotent:
  assumes inv: "ledger_inv ext L" and d: "is_ok (decision_validate ext d)"
    and first: "prepare L i fp d = (Inr p, L1)"
    and ops: "list_all (\<lambda>op. op_ok ext op \<and> retains_runs op) ops" and L2: "L2 = foldl (ledger_step ext) L1 ops"
    and retry: "policy_decision_id fp' = decision_id d'"
  shows "snd (prepare L2 i fp' d') = L2 \<and>
    (if same_tool_and_arguments fp fp'
     then ledger_get L2 i \<noteq> None \<and> fst (prepare L2 i fp' d') = Inr (Existing (the (ledger_get L2 i)))
     else fst (prepare L2 i fp' d') = Inl (IdentityConflict i))"
proof -
  have "ledger_inv ext L1" using prepare_inv [OF inv d, of i fp] first by simp
  then have "ledger_evolves L1 L2" unfolding L2 using ops by (rule ledger_history.run_below)
  moreover obtain r where "ledger_get L1 i = Some r" "same_tool_and_arguments (fingerprint r) fp"
    using prepare_stores [OF first] by auto
  ultimately obtain r' where r': "ledger_get L2 i = Some r'" "same_tool_and_arguments (fingerprint r') fp"
    unfolding ledger_evolves_def record_evolves_def by metis
  then show ?thesis
    using same_tool_and_arguments_trans [OF r'(2), of fp'] retry by (simp add: prepare_def ledger_get_def)
qed

section \<open>Concrete applications\<close>

definition sample_identity :: ToolInvocationIdentity where
  "sample_identity = ToolInvocationIdentity ''user'' ''session'' ''run'' ''turn'' ''call''"

definition sample_decision :: ToolInvocationDecision where
  "sample_decision = \<lparr>decision_id = ''sha256:'' @ replicate 64 (CHR ''0''), snapshot = JObject []\<rparr>"

definition sample_fingerprint :: ToolInvocationFingerprint where
  "sample_fingerprint =
     \<lparr>tool = BuiltIn ''read'' ''v1'', canonical_arguments_hash = ''sha256:a'',
      policy_decision_id = decision_id sample_decision\<rparr>"

definition sample_lease :: ToolInvocationDispatchLease where
  "sample_lease = \<lparr>owner_id = ''worker'', expires_at_epoch_ms = 10\<rparr>"

definition sample_payload :: ToolInvocationResultPayload where
  "sample_payload = \<lparr>payload_output = ''ok'', metadata = [], exit_semantics = None\<rparr>"

lemmas sample_defs = sample_identity_def sample_decision_def sample_fingerprint_def sample_lease_def
  sample_payload_def sample_externals_def

definition prepared_ledger :: InMemoryInvocationLedger where
  "prepared_ledger = foldl (ledger_step sample_externals) empty_ledger
     [Prepare sample_identity sample_fingerprint sample_decision]"

definition dispatched_ledger :: InMemoryInvocationLedger where
  "dispatched_ledger = foldl (ledger_step sample_externals) empty_ledger
     [Prepare sample_identity sample_fingerprint sample_decision, Claim sample_identity sample_lease]"

lemma sample_decision_ok: "is_ok (decision_validate sample_externals sample_decision)"
  by (simp add: decision_validate_def sample_decision_def sample_externals_def decision_content_id_def
      content_id_def Let_def)

lemma prepared_ledger_inv: "ledger_inv sample_externals prepared_ledger"
  unfolding prepared_ledger_def by (rule ledger.run_inv [OF empty_ledger_inv]) (simp add: sample_decision_ok)

lemma dispatched_ledger_inv: "ledger_inv sample_externals dispatched_ledger"
  unfolding dispatched_ledger_def by (rule ledger.run_inv [OF empty_ledger_inv]) (simp add: sample_decision_ok)

lemma prepared_ledger_get:
  "bt_get (entries prepared_ledger) sample_identity =
     Some (fresh_entry sample_identity sample_fingerprint sample_decision)"
  by (simp add: prepared_ledger_def ledger_step_def prepare_def empty_ledger_def put_entry_def bt_get_insert
      sample_fingerprint_def fresh_entry_def Let_def bt_get_def)

lemma dispatched_ledger_get:
  "bt_get (entries dispatched_ledger) sample_identity =
     Some (claimed (fresh_entry sample_identity sample_fingerprint sample_decision) sample_lease)"
proof -
  have eq: "dispatched_ledger = snd (claim_dispatch prepared_ledger sample_identity sample_lease)"
    by (simp add: dispatched_ledger_def prepared_ledger_def ledger_step_def)
  show ?thesis
    unfolding eq
    by (simp add: claim_dispatch_def dispatch_claim_candidate_def prepared_ledger_get commit_dispatch_claim_def
        claimed_def same_tool_and_arguments_def fresh_entry_def bt_get_insert)
qed

lemma sample_payload_ok: "payload_validate sample_externals sample_payload = Inr ()"
  by (simp add: payload_validate_def validate_bounded_string_def validate_result_metadata_def bt_values_def
      sample_externals_def payload_json_def json_quote_def limit_defs sample_payload_def)



theorem cache_completion_not_atomic_witness:
  "fst (complete_from_semantic_read_cache sample_externals prepared_ledger sample_identity sample_payload
      (RunClosure TOOL_INVOCATION_RUN_CLOSURE_CONTRACT_VERSION ''completed'')) =
    Inl (Contract (InvalidRunClosureCompletionState Succeeded))"
  using cache_completion_not_atomic [OF prepared_ledger_inv prepared_ledger_get _ sample_payload_ok,
      of "''completed''" "RunClosure TOOL_INVOCATION_RUN_CLOSURE_CONTRACT_VERSION ''completed''"]
  by (simp add: run_closure_def fresh_entry_def split_beta)



theorem remove_run_exact_witness:
  "ledger_get (snd (remove_run prepared_ledger ''user'' ''run'')) sample_identity = None"
  using remove_run_exact [OF prepared_ledger_inv surjective_pairing, of "''user''" "''run''" sample_identity]
  by (simp add: sample_identity_def)

theorem dispatched_record_guarded_witness:
  "authorised sample_identity sample_lease (MarkUnknown sample_identity ''worker'')"
proof (rule dispatched_record_guarded [OF dispatched_ledger_inv])
  let ?r = "claimed (fresh_entry sample_identity sample_fingerprint sample_decision) sample_lease"
  show r: "ledger_get dispatched_ledger sample_identity = Some ?r"
    by (simp add: ledger_get_def dispatched_ledger_get)
  show "state ?r = Dispatched" "dispatch_lease ?r = Some sample_lease" by (simp_all add: claimed_def)
  then have "dispatched_entry_for_owner dispatched_ledger sample_identity ''worker'' = Inr ?r"
    using r by (simp add: dispatched_entry_for_owner_iff ledger_get_def sample_lease_def)
  then show "ledger_get (ledger_step sample_externals dispatched_ledger (MarkUnknown sample_identity ''worker''))
      sample_identity \<noteq> Some ?r"
    by (simp add: ledger_step_def mark_outcome_unknown_def Let_def ledger_get_def bt_get_insert claimed_def
        fresh_entry_def)
qed

theorem prepare_idempotent_witness:
  "fst (prepare dispatched_ledger sample_identity sample_fingerprint sample_decision) =
     Inr (Existing (the (ledger_get dispatched_ledger sample_identity)))"
proof -
  let ?L1 = "snd (prepare empty_ledger sample_identity sample_fingerprint sample_decision)"
  have "prepare empty_ledger sample_identity sample_fingerprint sample_decision =
      (Inr (PreparedNew (fresh_entry sample_identity sample_fingerprint sample_decision)), ?L1)"
    by (simp add: prepare_def empty_ledger_def sample_fingerprint_def fresh_entry_def Let_def)
  then show ?thesis
    using prepare_idempotent [OF empty_ledger_inv sample_decision_ok, of sample_identity sample_fingerprint _ ?L1
        "[Claim sample_identity sample_lease]" dispatched_ledger sample_fingerprint sample_decision]
    by (simp add: dispatched_ledger_def ledger_step_def same_tool_and_arguments_def sample_fingerprint_def)
qed

end
