(* ===== verification/Work_Unit.thy ===== *)
theory Work_Unit
  imports Json_Value
begin

text \<open>
  Observations of asynchronous work and their tracker, from
  \<^verbatim>\<open>crates/core/src/work_unit.rs\<close>: the status labels, the observation record, and the tracker
  that keeps a cursor for every active unit and a tombstone for every finished one. The
  registry at the end of the file is the tracker behind a mutex: its methods are the
  tracker's methods, one at a time.
\<close>

section \<open>Status, mode and wake policy\<close>

definition WORK_UNIT_OBSERVATION_FIELD :: rstr where
  "WORK_UNIT_OBSERVATION_FIELD = ''work_unit_observation''"

datatype WorkUnitStatus =
    Pending
  | Running
  | WaitingForInput
  | Stopping
  | Completed
  | CompletedWithIssues
  | Failed
  | Interrupted
  | Cancelled
  | Unavailable

fun status_as_str :: "WorkUnitStatus \<Rightarrow> rstr" where
  "status_as_str Pending = ''pending''"
| "status_as_str Running = ''running''"
| "status_as_str WaitingForInput = ''waiting_for_input''"
| "status_as_str Stopping = ''stopping''"
| "status_as_str Completed = ''completed''"
| "status_as_str CompletedWithIssues = ''completed_with_issues''"
| "status_as_str Failed = ''failed''"
| "status_as_str Interrupted = ''interrupted''"
| "status_as_str Cancelled = ''cancelled''"
| "status_as_str Unavailable = ''unavailable''"

definition status_parse :: "rstr \<Rightarrow> WorkUnitStatus option" where
  "status_parse s =
     (if s = ''pending'' then Some Pending
      else if s = ''running'' then Some Running
      else if s = ''waiting_for_input'' then Some WaitingForInput
      else if s = ''stopping'' then Some Stopping
      else if s = ''completed'' then Some Completed
      else if s = ''completed_with_issues'' then Some CompletedWithIssues
      else if s = ''failed'' then Some Failed
      else if s = ''interrupted'' then Some Interrupted
      else if s = ''cancelled'' then Some Cancelled
      else if s = ''unavailable'' then Some Unavailable
      else None)"

fun status_is_terminal :: "WorkUnitStatus \<Rightarrow> bool" where
  "status_is_terminal Completed = True"
| "status_is_terminal CompletedWithIssues = True"
| "status_is_terminal Failed = True"
| "status_is_terminal Interrupted = True"
| "status_is_terminal Cancelled = True"
| "status_is_terminal Unavailable = True"
| "status_is_terminal _ = False"

definition requires_attention_or_terminal_wake :: "WorkUnitStatus \<Rightarrow> bool" where
  "requires_attention_or_terminal_wake s \<longleftrightarrow> status_is_terminal s \<or> s = WaitingForInput"

datatype WorkUnitObservationMode = Transition | Current | Wait | Historical | Diagnostic

fun tracks_live_progress :: "WorkUnitObservationMode \<Rightarrow> bool" where
  "tracks_live_progress Transition = True"
| "tracks_live_progress Current = True"
| "tracks_live_progress Wait = True"
| "tracks_live_progress _ = False"

datatype WorkUnitWakePolicy = NoWake | OnTerminal | OnAttentionOrTerminal

definition owns_next_update :: "WorkUnitWakePolicy \<Rightarrow> bool" where
  "owns_next_update w \<longleftrightarrow> w \<noteq> NoWake"

section \<open>Observations\<close>

record WorkUnitObservation =
  obs_id :: rstr
  obs_kind :: rstr
  obs_status :: WorkUnitStatus
  obs_revision :: u64
  obs_mode :: WorkUnitObservationMode
  obs_wake_policy :: WorkUnitWakePolicy

definition is_valid :: "WorkUnitObservation \<Rightarrow> bool" where
  "is_valid obs \<longleftrightarrow> trim (obs_id obs) \<noteq> [] \<and> trim (obs_kind obs) \<noteq> [] \<and> obs_revision obs > 0"

definition observation_new ::
    "rstr \<Rightarrow> rstr \<Rightarrow> WorkUnitStatus \<Rightarrow> u64 \<Rightarrow> WorkUnitObservationMode \<Rightarrow> WorkUnitObservation option" where
  "observation_new i k s revision m =
     (let obs = \<lparr>obs_id = i, obs_kind = k, obs_status = s, obs_revision = revision, obs_mode = m,
                 obs_wake_policy = NoWake\<rparr>
      in if is_valid obs then Some obs else None)"

definition with_wake_policy :: "WorkUnitObservation \<Rightarrow> WorkUnitWakePolicy \<Rightarrow> WorkUnitObservation" where
  "with_wake_policy obs w = obs\<lparr>obs_wake_policy := w\<rparr>"

definition unit_identity :: "rstr \<Rightarrow> rstr \<Rightarrow> rstr" where
  "unit_identity k i = trim k @ '':'' @ trim i"

definition observation_identity :: "WorkUnitObservation \<Rightarrow> rstr" where
  "observation_identity obs = unit_identity (obs_kind obs) (obs_id obs)"

fun mode_label :: "WorkUnitObservationMode \<Rightarrow> rstr" where
  "mode_label Transition = ''transition''"
| "mode_label Current = ''current''"
| "mode_label Wait = ''wait''"
| "mode_label Historical = ''historical''"
| "mode_label Diagnostic = ''diagnostic''"

fun wake_label :: "WorkUnitWakePolicy \<Rightarrow> rstr" where
  "wake_label NoWake = ''none''"
| "wake_label OnTerminal = ''on_terminal''"
| "wake_label OnAttentionOrTerminal = ''on_attention_or_terminal''"

definition to_value :: "WorkUnitObservation \<Rightarrow> json" where
  "to_value obs =
     JObject (bt_of_list
       [(''id'', JString (obs_id obs)), (''kind'', JString (obs_kind obs)),
        (''status'', JString (status_as_str (obs_status obs))),
        (''revision'', JNumber (show_nat (unat (obs_revision obs)))),
        (''mode'', JString (mode_label (obs_mode obs))),
        (''wake_policy'', JString (wake_label (obs_wake_policy obs)))])"

definition insert_into :: "WorkUnitObservation \<Rightarrow> (rstr, json) btree \<Rightarrow> (rstr, json) btree" where
  "insert_into obs m = bt_insert WORK_UNIT_OBSERVATION_FIELD (to_value obs) m"

text \<open>\<^verbatim>\<open>serde_json::from_value\<close> at the observation type is the parameter \<open>decode\<close>.\<close>

definition from_fields ::
    "(json \<Rightarrow> WorkUnitObservation option) \<Rightarrow> (rstr, json) btree \<Rightarrow> WorkUnitObservation option" where
  "from_fields decode m =
     Option.bind (bt_get m WORK_UNIT_OBSERVATION_FIELD) (\<lambda>v.
     Option.bind (decode v) (\<lambda>obs. if is_valid obs then Some obs else None))"

section \<open>The tracker\<close>

datatype WorkUnitObservationOutcome =
    Ignored
  | First
  | Advanced
  | Unchanged (consecutive: u32)
  | Terminal

record WorkUnitCursor =
  cur_id :: rstr
  cur_kind :: rstr
  cur_status :: WorkUnitStatus
  cur_wake_policy :: WorkUnitWakePolicy
  cur_revision :: u64
  cur_mode :: WorkUnitObservationMode
  unchanged :: u32

record ActiveWorkUnit =
  active_id :: rstr
  active_kind :: rstr
  active_status :: WorkUnitStatus
  active_wake_policy :: WorkUnitWakePolicy

record WorkUnitObservationTracker =
  cursors :: "(rstr, WorkUnitCursor) btree"
  terminal :: "(rstr, WorkUnitObservation) btree"

definition tracker_default :: WorkUnitObservationTracker where
  "tracker_default = \<lparr>cursors = [], terminal = []\<rparr>"

definition cursor_observation :: "WorkUnitCursor \<Rightarrow> WorkUnitObservation" where
  "cursor_observation c =
     \<lparr>obs_id = cur_id c, obs_kind = cur_kind c, obs_status = cur_status c, obs_revision = cur_revision c,
      obs_mode = cur_mode c, obs_wake_policy = cur_wake_policy c\<rparr>"

definition cursor_continues :: "WorkUnitObservationTracker \<Rightarrow> rstr \<times> WorkUnitCursor \<Rightarrow> bool" where
  "cursor_continues T e =
     (let obs = cursor_observation (snd e) in
      \<not> (\<not> is_valid obs \<or> \<not> tracks_live_progress (obs_mode obs) \<or> status_is_terminal (obs_status obs)
         \<or> observation_identity obs \<noteq> fst e \<or> bt_get (terminal T) (fst e) \<noteq> None))"

definition terminal_continues :: "rstr \<times> WorkUnitObservation \<Rightarrow> bool" where
  "terminal_continues e =
     (let obs = snd e in
      \<not> (\<not> is_valid obs \<or> \<not> tracks_live_progress (obs_mode obs) \<or> \<not> status_is_terminal (obs_status obs)
         \<or> observation_identity obs \<noteq> fst e))"

definition validate_continuation :: "WorkUnitObservationTracker \<Rightarrow> (rstr, unit) result" where
  "validate_continuation T =
     (if \<not> list_all (cursor_continues T) (cursors T)
      then Inl ''invalid active work observation continuation''
      else if \<not> list_all terminal_continues (terminal T)
      then Inl ''invalid terminal work observation continuation''
      else Inr ())"

definition observe ::
    "WorkUnitObservationTracker \<Rightarrow> WorkUnitObservation \<Rightarrow>
     WorkUnitObservationOutcome \<times> WorkUnitObservationTracker" where
  "observe T obs =
     (if \<not> is_valid obs \<or> \<not> tracks_live_progress (obs_mode obs) then (Ignored, T)
      else let identity = observation_identity obs in
      if (case bt_get (terminal T) identity of None \<Rightarrow> False
          | Some t \<Rightarrow> \<not> status_is_terminal (obs_status obs) \<or> obs_revision obs \<le> obs_revision t)
      then (Ignored, T)
      else if status_is_terminal (obs_status obs) then
        (if (case bt_get (cursors T) identity of None \<Rightarrow> False
             | Some c \<Rightarrow> obs_revision obs \<le> cur_revision c)
         then (Ignored, T)
         else (Terminal, T\<lparr>cursors := bt_remove identity (cursors T),
                            terminal := bt_insert identity obs (terminal T)\<rparr>))
      else (case bt_get (cursors T) identity of
        None \<Rightarrow>
          (First, T\<lparr>cursors := bt_insert identity
             \<lparr>cur_id = trim (obs_id obs), cur_kind = trim (obs_kind obs), cur_status = obs_status obs,
              cur_wake_policy = obs_wake_policy obs, cur_revision = obs_revision obs,
              cur_mode = obs_mode obs, unchanged = 0\<rparr> (cursors T)\<rparr>)
      | Some c \<Rightarrow>
          if cur_revision c = obs_revision obs then
            (let c = c\<lparr>cur_wake_policy := obs_wake_policy obs, cur_mode := obs_mode obs,
                       unchanged := sat_add (unchanged c) 1\<rparr>
             in (Unchanged (unchanged c), T\<lparr>cursors := bt_insert identity c (cursors T)\<rparr>))
          else if obs_revision obs > cur_revision c then
            (Advanced, T\<lparr>cursors := bt_insert identity
               (c\<lparr>cur_revision := obs_revision obs, cur_status := obs_status obs,
                  cur_wake_policy := obs_wake_policy obs, cur_mode := obs_mode obs, unchanged := 0\<rparr>)
               (cursors T)\<rparr>)
          else (Ignored, T)))"

definition repeatedly_unchanged_ids :: "WorkUnitObservationTracker \<Rightarrow> u32 \<Rightarrow> rstr list" where
  "repeatedly_unchanged_ids T threshold =
     map cur_id (filter (\<lambda>c. unchanged c \<ge> threshold) (bt_values (cursors T)))"

definition repeatedly_unchanged_without_wake :: "WorkUnitObservationTracker \<Rightarrow> u32 \<Rightarrow> rstr list" where
  "repeatedly_unchanged_without_wake T threshold =
     map cur_id (filter (\<lambda>c. unchanged c \<ge> threshold \<and> \<not> owns_next_update (cur_wake_policy c))
       (bt_values (cursors T)))"

definition active_work_units :: "WorkUnitObservationTracker \<Rightarrow> ActiveWorkUnit list" where
  "active_work_units T =
     map (\<lambda>c. \<lparr>active_id = cur_id c, active_kind = cur_kind c, active_status = cur_status c,
               active_wake_policy = cur_wake_policy c\<rparr>) (bt_values (cursors T))"

definition active_observations :: "WorkUnitObservationTracker \<Rightarrow> WorkUnitObservation list" where
  "active_observations T = map cursor_observation (bt_values (cursors T))"

definition terminal_observation ::
    "WorkUnitObservationTracker \<Rightarrow> rstr \<Rightarrow> rstr \<Rightarrow> WorkUnitObservation option" where
  "terminal_observation T i k = bt_get (terminal T) (unit_identity k i)"

definition canonical_observation ::
    "WorkUnitObservationTracker \<Rightarrow> rstr \<Rightarrow> rstr \<Rightarrow> WorkUnitObservation option" where
  "canonical_observation T i k =
     (let identity = unit_identity k i in
      case bt_get (terminal T) identity of
        Some obs \<Rightarrow> Some obs
      | None \<Rightarrow> map_option cursor_observation (bt_get (cursors T) identity))"

definition tracker_clear :: "WorkUnitObservationTracker \<Rightarrow> WorkUnitObservationTracker" where
  "tracker_clear T = T\<lparr>cursors := [], terminal := []\<rparr>"

definition tracker_is_empty :: "WorkUnitObservationTracker \<Rightarrow> bool" where
  "tracker_is_empty T \<longleftrightarrow> cursors T = []"

section \<open>Labels\<close>

interpretation status_codec: text_codec status_as_str status_parse
proof
  show "status_parse (status_as_str x) = Some x" for x
    by (cases x) (simp_all add: status_parse_def)
  show "status_parse s = Some x \<Longrightarrow> status_as_str x = s" for s x
    by (auto simp: status_parse_def split: if_splits)
qed

text \<open>
  A status label is parsed exactly to the status that prints it: the persisted label
  and the status determine each other, and any other text is refused.
\<close>

lemma status_label_roundtrip:
  "(status_parse s = Some x \<longleftrightarrow> s = status_as_str x) \<and> (status_parse s = None \<longleftrightarrow> s \<notin> range status_as_str)"
  by (rule conjI [OF status_codec.dec_iff status_codec.dec_None_iff])

section \<open>The tracker invariant\<close>

definition live :: "WorkUnitObservation \<Rightarrow> bool" where
  "live obs \<longleftrightarrow> is_valid obs \<and> tracks_live_progress (obs_mode obs)"

definition tracker_inv :: "WorkUnitObservationTracker \<Rightarrow> bool" where
  "tracker_inv T \<longleftrightarrow>
     bt_wf (cursors T) \<and> bt_wf (terminal T) \<and> is_ok (validate_continuation T) \<and>
     list_all (\<lambda>c. trim (cur_id c) = cur_id c \<and> trim (cur_kind c) = cur_kind c) (bt_values (cursors T))"

datatype tracker_op = Observe WorkUnitObservation | Clear

fun tracker_step :: "WorkUnitObservationTracker \<Rightarrow> tracker_op \<Rightarrow> WorkUnitObservationTracker" where
  "tracker_step T (Observe obs) = snd (observe T obs)"
| "tracker_step T Clear = tracker_clear T"

text \<open>What the tracker knows of one identity: the two maps as one.\<close>

datatype unit_state = Absent | Active WorkUnitCursor | Done WorkUnitObservation

definition unit_at :: "WorkUnitObservationTracker \<Rightarrow> rstr \<Rightarrow> unit_state" where
  "unit_at T i =
     (case bt_get (terminal T) i of
        Some t \<Rightarrow> Done t
      | None \<Rightarrow> (case bt_get (cursors T) i of None \<Rightarrow> Absent | Some c \<Rightarrow> Active c))"

definition new_cursor :: "WorkUnitObservation \<Rightarrow> WorkUnitCursor" where
  "new_cursor obs =
     \<lparr>cur_id = trim (obs_id obs), cur_kind = trim (obs_kind obs), cur_status = obs_status obs,
      cur_wake_policy = obs_wake_policy obs, cur_revision = obs_revision obs,
      cur_mode = obs_mode obs, unchanged = 0\<rparr>"

text \<open>The transition an accepted live observation makes on the state of its identity.\<close>

fun unit_next :: "unit_state \<Rightarrow> WorkUnitObservation \<Rightarrow> unit_state" where
  "unit_next Absent obs = (if status_is_terminal (obs_status obs) then Done obs else Active (new_cursor obs))"
| "unit_next (Active c) obs =
     (if status_is_terminal (obs_status obs) then
        (if obs_revision obs \<le> cur_revision c then Active c else Done obs)
      else if cur_revision c = obs_revision obs then
        Active (c\<lparr>cur_wake_policy := obs_wake_policy obs, cur_mode := obs_mode obs,
                  unchanged := sat_add (unchanged c) 1\<rparr>)
      else if obs_revision obs > cur_revision c then
        Active (c\<lparr>cur_revision := obs_revision obs, cur_status := obs_status obs,
                  cur_wake_policy := obs_wake_policy obs, cur_mode := obs_mode obs, unchanged := 0\<rparr>)
      else Active c)"
| "unit_next (Done t) obs =
     (if status_is_terminal (obs_status obs) \<and> obs_revision t < obs_revision obs then Done obs else Done t)"

definition disjoint_maps :: "WorkUnitObservationTracker \<Rightarrow> bool" where
  "disjoint_maps T \<longleftrightarrow> (\<forall>i. bt_get (cursors T) i = None \<or> bt_get (terminal T) i = None)"

lemma observe_unit_at:
  assumes "disjoint_maps T"
  shows "unit_at (snd (observe T obs)) i =
    (if live obs \<and> i = observation_identity obs then unit_next (unit_at T i) obs else unit_at T i)"
    and "disjoint_maps (snd (observe T obs))"
proof -
  let ?i = "observation_identity obs" and ?T = "snd (observe T obs)"
  have dis: "bt_get (cursors T) j = None \<or> bt_get (terminal T) j = None" for j
    using assms by (simp add: disjoint_maps_def)
  have dead: "?T = T" if "\<not> live obs"
    using that by (simp add: observe_def live_def)
  have other: "bt_get (terminal ?T) j = bt_get (terminal T) j \<and> bt_get (cursors ?T) j = bt_get (cursors T) j"
    if "j \<noteq> ?i" for j
    using that by (auto simp: observe_def Let_def bt_get_insert bt_get_remove split: option.splits)
  have here: "unit_at ?T ?i = unit_next (unit_at T ?i) obs \<and>
      (bt_get (cursors ?T) ?i = None \<or> bt_get (terminal ?T) ?i = None)" if "live obs"
    using that dis [of ?i]
    by (cases "bt_get (terminal T) ?i"; cases "bt_get (cursors T) ?i")
      (auto simp: observe_def live_def unit_at_def bt_get_insert bt_get_remove new_cursor_def Let_def)
  show "unit_at ?T i = (if live obs \<and> i = ?i then unit_next (unit_at T i) obs else unit_at T i)"
    using dead here other [of i] by (cases "live obs"; cases "i = ?i") (auto simp: unit_at_def cong: option.case_cong)
  show "disjoint_maps ?T"
    unfolding disjoint_maps_def using dead here other dis by metis
qed


lemma bt_list_all: "bt_wf m \<Longrightarrow> list_all P m \<longleftrightarrow> (\<forall>i v. bt_get m i = Some v \<longrightarrow> P (i, v))"
  by (auto simp: list_all_iff bt_get_eq_Some_iff)

text \<open>The invariant, read off the state of each identity.\<close>

fun unit_ok :: "rstr \<Rightarrow> unit_state \<Rightarrow> bool" where
  "unit_ok i Absent \<longleftrightarrow> True"
| "unit_ok i (Active c) \<longleftrightarrow>
     live (cursor_observation c) \<and> \<not> status_is_terminal (cur_status c) \<and>
     observation_identity (cursor_observation c) = i \<and>
     trim (cur_id c) = cur_id c \<and> trim (cur_kind c) = cur_kind c"
| "unit_ok i (Done t) \<longleftrightarrow> live t \<and> status_is_terminal (obs_status t) \<and> observation_identity t = i"

lemma tracker_inv_iff:
  "tracker_inv T \<longleftrightarrow>
     bt_wf (cursors T) \<and> bt_wf (terminal T) \<and> disjoint_maps T \<and> (\<forall>i. unit_ok i (unit_at T i))"
  (is "?L \<longleftrightarrow> ?R")
proof (cases "bt_wf (cursors T) \<and> bt_wf (terminal T)")
  case wf: True
  let ?C = "\<forall>i c. bt_get (cursors T) i = Some c \<longrightarrow> unit_ok i (Active c) \<and> bt_get (terminal T) i = None"
  let ?D = "\<forall>i t. bt_get (terminal T) i = Some t \<longrightarrow> unit_ok i (Done t)"
  have "list_all terminal_continues (terminal T) \<longleftrightarrow> ?D"
    using wf by (auto simp: bt_list_all terminal_continues_def Let_def live_def)
  moreover have "list_all (cursor_continues T) (cursors T) \<and>
      list_all (\<lambda>c. trim (cur_id c) = cur_id c \<and> trim (cur_kind c) = cur_kind c) (bt_values (cursors T)) \<longleftrightarrow> ?C"
  proof -
    have "list_all P (bt_values m) = list_all (\<lambda>e. P (snd e)) m" for P and m :: "(rstr, WorkUnitCursor) btree"
      by (simp add: list_all_iff bt_values_def)
    then show ?thesis
      using wf by (auto simp: bt_list_all cursor_continues_def Let_def live_def cursor_observation_def)
  qed
  ultimately have "?L \<longleftrightarrow> ?C \<and> ?D"
    using wf by (auto simp: tracker_inv_def validate_continuation_def)
  moreover have "?C \<and> ?D \<longleftrightarrow> disjoint_maps T \<and> (\<forall>i. unit_ok i (unit_at T i))"
  proof -
    have "?C \<and> ?D \<longleftrightarrow>
        (\<forall>i. (\<forall>c. bt_get (cursors T) i = Some c \<longrightarrow> unit_ok i (Active c) \<and> bt_get (terminal T) i = None) \<and>
             (\<forall>t. bt_get (terminal T) i = Some t \<longrightarrow> unit_ok i (Done t)))" by blast
    also have "\<dots> \<longleftrightarrow>
        (\<forall>i. (bt_get (cursors T) i = None \<or> bt_get (terminal T) i = None) \<and> unit_ok i (unit_at T i))"
    proof (rule all_cong1)
      fix i
      show "(\<forall>c. bt_get (cursors T) i = Some c \<longrightarrow> unit_ok i (Active c) \<and> bt_get (terminal T) i = None) \<and>
          (\<forall>t. bt_get (terminal T) i = Some t \<longrightarrow> unit_ok i (Done t)) \<longleftrightarrow>
        (bt_get (cursors T) i = None \<or> bt_get (terminal T) i = None) \<and> unit_ok i (unit_at T i)"
        by (cases "bt_get (cursors T) i"; cases "bt_get (terminal T) i") (simp_all add: unit_at_def)
    qed
    finally show ?thesis unfolding disjoint_maps_def by (simp only: all_conj_distrib)
  qed
  ultimately show ?thesis using wf by simp
qed (auto simp: tracker_inv_def)

lemma unit_next_ok:
  assumes "unit_ok (observation_identity obs) u" and "live obs"
  shows "unit_ok (observation_identity obs) (unit_next u obs)"
  using assms
  by (cases u)
    (auto simp: live_def is_valid_def new_cursor_def cursor_observation_def observation_identity_def
      unit_identity_def trim_idem)

lemma observe_inv: "tracker_inv T \<Longrightarrow> tracker_inv (snd (observe T obs))"
proof -
  assume inv: "tracker_inv T"
  have "bt_wf (cursors (snd (observe T obs)))" "bt_wf (terminal (snd (observe T obs)))"
    using inv by (auto simp: tracker_inv_def observe_def Let_def bt_wf_insert bt_wf_remove split: option.splits)
  then show ?thesis
    using inv observe_unit_at [of T obs] unit_next_ok [of obs] unfolding tracker_inv_iff by auto
qed

lemma tracker_default_inv: "tracker_inv tracker_default"
  by (simp add: tracker_inv_def tracker_default_def validate_continuation_def bt_values_def)

lemma tracker_step_inv: "tracker_inv T \<Longrightarrow> tracker_inv (tracker_step T op)"
  using observe_inv
  by (cases op) (simp_all add: tracker_clear_def tracker_inv_def validate_continuation_def bt_values_def)

fun keeps_truth :: "tracker_op \<Rightarrow> bool" where
  "keeps_truth (Observe _) = True"
| "keeps_truth Clear = False"

definition tracker_advances :: "WorkUnitObservationTracker \<Rightarrow> WorkUnitObservationTracker \<Rightarrow> bool" where
  "tracker_advances T T' \<longleftrightarrow>
     (\<forall>i k obs. canonical_observation T i k = Some obs \<longrightarrow>
        (\<exists>obs'. canonical_observation T' i k = Some obs' \<and> obs_revision obs \<le> obs_revision obs' \<and>
           (status_is_terminal (obs_status obs) \<longrightarrow> status_is_terminal (obs_status obs')) \<and>
           (obs_revision obs' = obs_revision obs \<longrightarrow> obs_status obs' = obs_status obs)))"

fun unit_view :: "unit_state \<Rightarrow> WorkUnitObservation option" where
  "unit_view Absent = None"
| "unit_view (Active c) = Some (cursor_observation c)"
| "unit_view (Done t) = Some t"

lemma canonical_observation_unit: "canonical_observation T i k = unit_view (unit_at T (unit_identity k i))"
  by (auto simp: canonical_observation_def unit_at_def Let_def split: option.splits)

lemma unit_next_view:
  assumes "unit_view u = Some obs" and "unit_ok j u"
  shows "\<exists>obs'. unit_view (unit_next u new) = Some obs' \<and> obs_revision obs \<le> obs_revision obs' \<and>
    (status_is_terminal (obs_status obs) \<longrightarrow> status_is_terminal (obs_status obs')) \<and>
    (obs_revision obs' = obs_revision obs \<longrightarrow> obs_status obs' = obs_status obs)"
proof (cases u)
  case (Active c)
  then have "obs = cursor_observation c" "\<not> status_is_terminal (cur_status c)" using assms by simp_all
  with Active show ?thesis
    by (cases "obs_revision new" "cur_revision c" rule: linorder_cases) (auto simp: cursor_observation_def word_le_nat_alt word_less_nat_alt)
next
  case (Done t)
  with assms show ?thesis
    by (cases "obs_revision new" "obs_revision t" rule: linorder_cases)
      (auto simp: word_le_nat_alt word_less_nat_alt)
qed (use assms in simp)

lemma observe_advances:
  assumes "tracker_inv T"
  shows "tracker_advances T (snd (observe T new))"
  unfolding tracker_advances_def
proof (intro allI impI)
  fix i k obs
  let ?j = "unit_identity k i"
  assume obs: "canonical_observation T i k = Some obs"
  have "unit_ok ?j (unit_at T ?j)" "disjoint_maps T" using assms by (auto simp: tracker_inv_iff)
  then show "\<exists>obs'. canonical_observation (snd (observe T new)) i k = Some obs' \<and>
      obs_revision obs \<le> obs_revision obs' \<and>
      (status_is_terminal (obs_status obs) \<longrightarrow> status_is_terminal (obs_status obs')) \<and>
      (obs_revision obs' = obs_revision obs \<longrightarrow> obs_status obs' = obs_status obs)"
    using obs unit_next_view [of "unit_at T ?j" obs ?j new]
    by (auto simp: canonical_observation_unit observe_unit_at)
qed

lemma tracker_advances_trans:
  assumes "tracker_advances T U" and "tracker_advances U V"
  shows "tracker_advances T V"
  unfolding tracker_advances_def
proof (intro allI impI)
  fix i k obs
  assume "canonical_observation T i k = Some obs"
  with assms(1) obtain o1 where 1: "canonical_observation U i k = Some o1" "obs_revision obs \<le> obs_revision o1"
    "status_is_terminal (obs_status obs) \<longrightarrow> status_is_terminal (obs_status o1)"
    "obs_revision o1 = obs_revision obs \<longrightarrow> obs_status o1 = obs_status obs"
    unfolding tracker_advances_def by blast
  with assms(2) obtain o2 where 2: "canonical_observation V i k = Some o2" "obs_revision o1 \<le> obs_revision o2"
    "status_is_terminal (obs_status o1) \<longrightarrow> status_is_terminal (obs_status o2)"
    "obs_revision o2 = obs_revision o1 \<longrightarrow> obs_status o2 = obs_status o1"
    unfolding tracker_advances_def by blast
  have "obs_revision obs \<le> obs_revision o2" using 1(2) 2(2) by (rule order_trans)
  moreover have "obs_status o2 = obs_status obs" if "obs_revision o2 = obs_revision obs"
    using that 1(2,4) 2(2,4) by (simp add: order_antisym)
  ultimately show "\<exists>obs'. canonical_observation V i k = Some obs' \<and> obs_revision obs \<le> obs_revision obs' \<and>
      (status_is_terminal (obs_status obs) \<longrightarrow> status_is_terminal (obs_status obs')) \<and>
      (obs_revision obs' = obs_revision obs \<longrightarrow> obs_status obs' = obs_status obs)"
    using 1(3) 2(1,3) by blast
qed

interpretation tracker: machine tracker_step "\<lambda>_. True" tracker_inv
  by unfold_locales (rule tracker_step_inv)

interpretation tracker_truth: climbing_machine tracker_step keeps_truth tracker_inv tracker_advances
proof unfold_locales
  fix T U V op
  show "tracker_inv T \<Longrightarrow> keeps_truth op \<Longrightarrow> tracker_inv (tracker_step T op)" by (simp add: tracker_step_inv)
  show "tracker_advances T T" by (simp add: tracker_advances_def)
  show "tracker_inv T \<Longrightarrow> keeps_truth op \<Longrightarrow> tracker_advances T (tracker_step T op)"
    by (cases op) (simp_all add: observe_advances)
  show "tracker_advances T U \<Longrightarrow> tracker_advances U V \<Longrightarrow> tracker_advances T V"
    by (rule tracker_advances_trans)
qed


text \<open>
  A tracker fed with any observations, valid or not, and cleared at any time always
  passes its own continuation check: active cursors are valid, live and not terminal,
  tombstones are terminal, keys are the identities, and no identity is in both maps.
\<close>

theorem tracker_continuation_valid:
  "validate_continuation (foldl tracker_step tracker_default ops) = Inr ()"
  using tracker.run_inv [OF tracker_default_inv, of ops]
  by (auto simp: list_all_iff tracker_inv_def is_ok_iff)

text \<open>
  Terminal truth is absorbing and revisions never go back: whatever is observed after
  a unit is known, the unit stays known at the same or a later revision, the status
  changes only with the revision, and a terminal unit stays terminal.
\<close>

theorem tracker_truth_advances:
  assumes "list_all keeps_truth later"
  shows "tracker_advances (foldl tracker_step tracker_default ops)
    (foldl tracker_step tracker_default (ops @ later))"
  using tracker_truth.run_below [OF _ assms] tracker.run_inv [OF tracker_default_inv, of ops]
  by (simp add: list_all_iff)

section \<open>Delivery order does not matter\<close>

text \<open>
  A producer is coherent when its revisions order its life: one status for a revision, and
  terminal revisions after all others.
\<close>

definition coherent :: "WorkUnitObservation list \<Rightarrow> bool" where
  "coherent obss \<longleftrightarrow>
     (\<forall>p \<in> set obss. \<forall>q \<in> set obss. live p \<and> live q \<and> observation_identity p = observation_identity q \<longrightarrow>
        (obs_revision p = obs_revision q \<longrightarrow> obs_status p = obs_status q) \<and>
        (status_is_terminal (obs_status p) \<and> \<not> status_is_terminal (obs_status q) \<longrightarrow>
           obs_revision q < obs_revision p))"

lemma coherentD:
  assumes "coherent obss" and "p \<in> set obss" and "q \<in> set obss" and "live p" and "live q"
    and "observation_identity p = observation_identity q"
  shows "(obs_revision p = obs_revision q \<longrightarrow> obs_status p = obs_status q) \<and>
    (status_is_terminal (obs_status p) \<and> \<not> status_is_terminal (obs_status q) \<longrightarrow>
       obs_revision q < obs_revision p)"
  using assms(1) [unfolded coherent_def, rule_format, OF assms(2,3)] assms(4-6) by simp

lemma coherent_subset: "coherent obss \<Longrightarrow> set obss' \<subseteq> set obss \<Longrightarrow> coherent obss'"
  unfolding coherent_def by (meson subsetD)

definition about :: "rstr \<Rightarrow> WorkUnitObservation list \<Rightarrow> WorkUnitObservation list" where
  "about j obss = filter (\<lambda>obs. live obs \<and> observation_identity obs = j) obss"

text \<open>The state of an identity agrees with the newest observation about it.\<close>

fun newest :: "WorkUnitObservation list \<Rightarrow> unit_state \<Rightarrow> bool" where
  "newest obss Absent \<longleftrightarrow> obss = []"
| "newest obss (Active c) \<longleftrightarrow>
     (\<exists>p \<in> set obss. obs_status p = cur_status c \<and> obs_revision p = cur_revision c) \<and>
     (\<forall>p \<in> set obss. obs_revision p \<le> cur_revision c) \<and> \<not> status_is_terminal (cur_status c)"
| "newest obss (Done t) \<longleftrightarrow>
     t \<in> set obss \<and> (\<forall>p \<in> set obss. obs_revision p \<le> obs_revision t) \<and> status_is_terminal (obs_status t)"

lemma newest_step:
  assumes old: "newest obss u"
    and eq: "\<And>p. p \<in> set obss \<Longrightarrow> obs_revision p = obs_revision obs \<Longrightarrow> obs_status p = obs_status obs"
    and term1: "\<And>p. p \<in> set obss \<Longrightarrow> status_is_terminal (obs_status p) \<Longrightarrow>
      \<not> status_is_terminal (obs_status obs) \<Longrightarrow> obs_revision obs < obs_revision p"
    and term2: "\<And>p. p \<in> set obss \<Longrightarrow> status_is_terminal (obs_status obs) \<Longrightarrow>
      \<not> status_is_terminal (obs_status p) \<Longrightarrow> obs_revision p < obs_revision obs"
  shows "newest (obss @ [obs]) (unit_next u obs)"
proof (cases u)
  case Absent
  with old show ?thesis by (simp add: new_cursor_def)
next
  case (Active c)
  with old obtain p where p: "p \<in> set obss" "obs_status p = cur_status c" "obs_revision p = cur_revision c"
    and max: "\<forall>p \<in> set obss. obs_revision p \<le> cur_revision c" and nt: "\<not> status_is_terminal (cur_status c)"
    by auto
  show ?thesis
  proof (cases "status_is_terminal (obs_status obs)")
    case True
    then have "cur_revision c < obs_revision obs" using term2 [OF p(1)] p nt by simp
    then have "\<forall>q \<in> set obss. obs_revision q \<le> obs_revision obs"
      using max less_imp_le order_trans by blast
    with Active True \<open>cur_revision c < obs_revision obs\<close> show ?thesis by (auto simp: not_le)
  next
    case False
    show ?thesis
    proof (cases "obs_revision obs" "cur_revision c" rule: linorder_cases)
      case less
      then have "obs_revision obs \<le> cur_revision c" "cur_revision c \<noteq> obs_revision obs" by auto
      with Active False p max nt less_asym [OF less] show ?thesis by auto
    next
      case equal
      with Active False p max nt eq [OF p(1)] show ?thesis by auto
    next
      case greater
      then have "obs_revision q \<le> obs_revision obs" if "q \<in> set obss" for q
        using max that by (meson order_trans less_imp_le)
      with Active False greater show ?thesis by auto
    qed
  qed
next
  case (Done t)
  with old have t: "t \<in> set obss" "\<forall>p \<in> set obss. obs_revision p \<le> obs_revision t"
    "status_is_terminal (obs_status t)" by auto
  show ?thesis
  proof (cases "status_is_terminal (obs_status obs) \<and> obs_revision t < obs_revision obs")
    case True
    then have "\<forall>q \<in> set obss. obs_revision q \<le> obs_revision obs"
      using t(2) less_imp_le order_trans by blast
    with Done t True show ?thesis by auto
  next
    case False
    then have "obs_revision obs \<le> obs_revision t"
      using term1 [OF t(1,3)] by (auto simp: not_less intro: less_imp_le)
    with Done t False show ?thesis by auto
  qed
qed

lemma newest_run:
  "coherent obss \<Longrightarrow> newest (about j obss) (unit_at (foldl (\<lambda>T obs. snd (observe T obs)) tracker_default obss) j)
     \<and> disjoint_maps (foldl (\<lambda>T obs. snd (observe T obs)) tracker_default obss)"
proof (induction obss rule: rev_induct)
  case Nil
  then show ?case by (simp add: about_def unit_at_def tracker_default_def disjoint_maps_def)
next
  case (snoc obs obss)
  let ?T = "foldl (\<lambda>T obs. snd (observe T obs)) tracker_default obss"
  have "coherent obss" by (rule coherent_subset [OF snoc.prems]) auto
  with snoc.IH have IH: "newest (about j obss) (unit_at ?T j)" "disjoint_maps ?T" by auto
  have "newest (about j (obss @ [obs])) (unit_at (snd (observe ?T obs)) j)"
  proof (cases "live obs \<and> j = observation_identity obs")
    case True
    have pair: "(obs_revision p = obs_revision obs \<longrightarrow> obs_status p = obs_status obs) \<and>
        (status_is_terminal (obs_status p) \<and> \<not> status_is_terminal (obs_status obs) \<longrightarrow>
           obs_revision obs < obs_revision p) \<and>
        (status_is_terminal (obs_status obs) \<and> \<not> status_is_terminal (obs_status p) \<longrightarrow>
           obs_revision p < obs_revision obs)" if "p \<in> set (about j obss)" for p
    proof -
      have p: "p \<in> set (obss @ [obs])" "live p" "observation_identity p = observation_identity obs"
        using that True by (auto simp: about_def)
      have obs: "obs \<in> set (obss @ [obs])" "live obs" using True by auto
      show ?thesis
        using coherentD [OF snoc.prems p(1) obs(1) p(2) obs(2) p(3)]
          coherentD [OF snoc.prems obs(1) p(1) obs(2) p(2) p(3) [symmetric]] by simp
    qed
    have "newest (about j obss @ [obs]) (unit_next (unit_at ?T j) obs)"
      by (rule newest_step [OF IH(1)]) (simp_all add: pair)
    with True show ?thesis by (simp add: about_def observe_unit_at [OF IH(2)])
  next
    case False
    then have "about j (obss @ [obs]) = about j obss" by (auto simp: about_def)
    with False IH show ?thesis by (auto simp: observe_unit_at [OF IH(2)])
  qed
  then show ?case using observe_unit_at(2) [OF IH(2), of obs] by simp
qed

lemma canonical_newest:
  assumes "coherent obss"
  shows "case canonical_observation (foldl (\<lambda>T obs. snd (observe T obs)) tracker_default obss) i k of
      None \<Rightarrow> about (unit_identity k i) obss = []
    | Some c \<Rightarrow> (\<exists>p. p \<in> set (about (unit_identity k i) obss) \<and>
        obs_status p = obs_status c \<and> obs_revision p = obs_revision c) \<and>
        list_all (\<lambda>p. obs_revision p \<le> obs_revision c) (about (unit_identity k i) obss)"
proof -
  let ?u = "unit_at (foldl (\<lambda>T obs. snd (observe T obs)) tracker_default obss) (unit_identity k i)"
  have "newest (about (unit_identity k i) obss) ?u" using newest_run [OF assms] by blast
  then show ?thesis
    by (cases ?u) (auto simp: canonical_observation_unit cursor_observation_def list_all_iff)
qed

text \<open>
  C8. For coherent producers the tracker converges whatever the order, loss of duplicates
  or repetition of deliveries: after any sequence of observations, a unit is known exactly
  when a live observation of it was delivered, and then with the status and revision of
  the newest one.
\<close>

theorem tracker_converges:
  assumes "coherent obss"
  shows "case canonical_observation (foldl (\<lambda>T obs. snd (observe T obs)) tracker_default obss) i k of
      None \<Rightarrow> about (unit_identity k i) obss = []
    | Some c \<Rightarrow> (\<exists>p. p \<in> set (about (unit_identity k i) obss) \<and>
        obs_status p = obs_status c \<and> obs_revision p = obs_revision c) \<and>
        list_all (\<lambda>p. obs_revision p \<le> obs_revision c) (about (unit_identity k i) obss)"
  using assms by (rule canonical_newest)

section \<open>Handing the active work to another tracker\<close>

lemma observe_seed:
  assumes "unit_ok i (Active c)" and "bt_get (cursors T) i = None" and "terminal T = []"
  shows "snd (observe T (cursor_observation c)) = T\<lparr>cursors := bt_insert i (c\<lparr>unchanged := 0\<rparr>) (cursors T)\<rparr>"
proof -
  have "observation_identity (cursor_observation c) = i" using assms(1) by simp
  with assms show ?thesis
    by (cases c) (simp add: observe_def live_def Let_def cursor_observation_def)
qed

lemma bt_insert_last: "bt_wf (m @ [(k, v)]) \<Longrightarrow> bt_insert k v m = m @ [(k, v)]"
proof (induction m)
  case (Cons e m)
  then show ?case by (cases e) (auto simp: bt_wf_def bt_keys_def)
qed simp

lemma bt_keys_append: "bt_keys (m @ m') = bt_keys m @ bt_keys m'"
  by (simp add: bt_keys_def)

lemma seed_prefix:
  assumes "bt_wf cs" and "\<And>i c. (i, c) \<in> set cs \<Longrightarrow> unit_ok i (Active c)"
  shows "foldl (\<lambda>T obs. snd (observe T obs)) tracker_default (map cursor_observation (bt_values cs)) =
    \<lparr>cursors = map (\<lambda>(i, c). (i, c\<lparr>unchanged := 0\<rparr>)) cs, terminal = []\<rparr>"
  using assms
proof (induction cs rule: rev_induct)
  case Nil
  then show ?case by (simp add: tracker_default_def bt_values_def)
next
  case (snoc e cs)
  obtain i c where e: "e = (i, c)" by force
  let ?zero = "\<lambda>(i, c). (i, c\<lparr>unchanged := 0\<rparr>)" and ?seed = "map (\<lambda>(i, c). (i, c\<lparr>unchanged := 0\<rparr>)) cs"
  have keys: "bt_keys ?seed = bt_keys cs"
    by (simp add: bt_keys_def comp_def split_beta)
  have wf: "bt_wf cs" "bt_wf (?seed @ [(i, c\<lparr>unchanged := 0\<rparr>)])"
    using snoc.prems(1) keys by (simp_all add: e bt_wf_def bt_keys_append sorted_wrt_append)
  then have IH: "foldl (\<lambda>T obs. snd (observe T obs)) tracker_default (map cursor_observation (bt_values cs)) =
      \<lparr>cursors = ?seed, terminal = []\<rparr>"
    using snoc.IH snoc.prems(2) by auto
  have "bt_get ?seed i = None"
    using snoc.prems(1) unfolding bt_get_None_iff keys
    by (auto simp: e bt_wf_def bt_keys_append sorted_wrt_append)
  then have "snd (observe \<lparr>cursors = ?seed, terminal = []\<rparr> (cursor_observation c)) =
      \<lparr>cursors = ?seed @ [(i, c\<lparr>unchanged := 0\<rparr>)], terminal = []\<rparr>"
    using observe_seed [OF snoc.prems(2), of i c "\<lparr>cursors = ?seed, terminal = []\<rparr>"] bt_insert_last [OF wf(2)]
    by (simp add: e)
  then show ?case using IH by (simp add: e bt_values_def)
qed

text \<open>
  The active observations of a tracker seed another one: replayed into an empty
  tracker they give the same active observations again, in the same order.
\<close>

theorem active_observations_seed:
  assumes "T = foldl tracker_step tracker_default ops"
  shows "active_observations (foldl (\<lambda>T obs. snd (observe T obs)) tracker_default (active_observations T)) =
    active_observations T"
proof -
  have inv: "tracker_inv T"
    unfolding assms by (rule tracker.run_inv [OF tracker_default_inv]) (simp add: list_all_iff)
  have ok: "unit_ok i (Active c)" if "(i, c) \<in> set (cursors T)" for i c
  proof -
    have "bt_get (cursors T) i = Some c"
      using that inv by (simp add: tracker_inv_def bt_get_eq_Some_iff)
    moreover have "bt_get (terminal T) i = None" using inv calculation unfolding tracker_inv_iff disjoint_maps_def by force
    ultimately have "unit_at T i = Active c" by (simp add: unit_at_def)
    then show ?thesis using inv unfolding tracker_inv_iff by metis
  qed
  have wf: "bt_wf (cursors T)" using inv by (simp add: tracker_inv_def)
  have "foldl (\<lambda>T obs. snd (observe T obs)) tracker_default (active_observations T) =
      \<lparr>cursors = map (\<lambda>(i, c). (i, c\<lparr>unchanged := 0\<rparr>)) (cursors T), terminal = []\<rparr>"
    unfolding active_observations_def by (rule seed_prefix [OF wf]) (rule ok)
  then show ?thesis
    by (simp add: active_observations_def bt_values_def cursor_observation_def comp_def split_beta)
qed

section \<open>Identities\<close>

definition colliding_done :: WorkUnitObservation where
  "colliding_done = \<lparr>obs_id = ''b:c'', obs_kind = ''a'', obs_status = Completed, obs_revision = 1,
     obs_mode = Current, obs_wake_policy = NoWake\<rparr>"

definition colliding_other :: WorkUnitObservation where
  "colliding_other = \<lparr>obs_id = ''c'', obs_kind = ''a:b'', obs_status = Running, obs_revision = 1,
     obs_mode = Current, obs_wake_policy = NoWake\<rparr>"

text \<open>
  The identity text is no key of the pair of kind and id, although the documentation
  names the pair as the unit of the revision sequence: a kind with a colon collides with
  another unit, and the tracker then ignores a live unit as finished.
\<close>

theorem identity_collision:
  "is_valid colliding_done \<and> is_valid colliding_other \<and>
   (trim (obs_kind colliding_done), trim (obs_id colliding_done)) \<noteq>
     (trim (obs_kind colliding_other), trim (obs_id colliding_other)) \<and>
   fst (observe tracker_default colliding_other) = First \<and>
   fst (observe (snd (observe tracker_default colliding_done)) colliding_other) = Ignored"
proof (intro conjI)
  show "is_valid colliding_done" "is_valid colliding_other" by code_simp+
  show "(trim (obs_kind colliding_done), trim (obs_id colliding_done)) \<noteq>
     (trim (obs_kind colliding_other), trim (obs_id colliding_other))" by code_simp
  show "fst (observe tracker_default colliding_other) = First" by code_simp
  have "observation_identity colliding_done = ''a:b:c''" "observation_identity colliding_other = ''a:b:c''"
    "live colliding_done" "live colliding_other" by code_simp+
  then show "fst (observe (snd (observe tracker_default colliding_done)) colliding_other) = Ignored"
    by (simp add: observe_def live_def tracker_default_def Let_def bt_get_def)
      (simp add: colliding_done_def colliding_other_def)
qed

section \<open>Concrete applications\<close>

definition sample_running :: WorkUnitObservation where
  "sample_running = \<lparr>obs_id = ''7'', obs_kind = ''task'', obs_status = Running, obs_revision = 1,
     obs_mode = Current, obs_wake_policy = NoWake\<rparr>"

definition sample_completed :: WorkUnitObservation where
  "sample_completed = \<lparr>obs_id = ''7'', obs_kind = ''task'', obs_status = Completed, obs_revision = 2,
     obs_mode = Wait, obs_wake_policy = NoWake\<rparr>"

theorem tracker_truth_advances_witness:
  "tracker_advances (foldl tracker_step tracker_default [Observe sample_completed])
    (foldl tracker_step tracker_default ([Observe sample_completed] @ [Observe sample_running]))"
  by (rule tracker_truth_advances) simp

theorem tracker_converges_witness:
  "map_option obs_status (canonical_observation
      (foldl (\<lambda>T obs. snd (observe T obs)) tracker_default [sample_completed, sample_running]) ''7'' ''task'') =
    Some Completed"
proof -
  have "coherent [sample_completed, sample_running]"
    by (simp add: coherent_def sample_completed_def sample_running_def)
  moreover have "about (unit_identity ''task'' ''7'') [sample_completed, sample_running] =
      [sample_completed, sample_running]"
    by code_simp
  ultimately show ?thesis
    using tracker_converges [of "[sample_completed, sample_running]" "''task''" "''7''"]
    by (auto simp: sample_completed_def sample_running_def word_le_nat_alt split: option.splits)
qed

theorem active_observations_seed_witness:
  "active_observations (foldl (\<lambda>T obs. snd (observe T obs)) tracker_default
      (active_observations (foldl tracker_step tracker_default [Observe sample_running]))) =
    active_observations (foldl tracker_step tracker_default [Observe sample_running])"
  by (rule active_observations_seed [of _ "[Observe sample_running]"]) simp

end
