(* ===== verification/Fanout_Group.thy ===== *)
theory Fanout_Group
  imports Work_Unit
begin

text \<open>
  The accounting of sub-agent fanout groups, from
  \<^verbatim>\<open>crates/astra-turn-core/src/orchestration/fanout_group.rs\<close>: a group with a fixed number of
  slots, a cached summary adjusted on every transition, an index from agents to slots and
  an admission fence. An operation returns its result beside the group as it leaves it.
  The error texts are one constructor for each message. A time stamp is the argument that
  stands for \<^verbatim>\<open>SystemTime::now()\<close>. The counters count slots of one vector, so that
  \<^verbatim>\<open>usize\<close> is no bound on them.
\<close>

section \<open>Slot identity\<close>

definition MAX_FANOUT_GROUP_ID_BYTES :: nat where
  "MAX_FANOUT_GROUP_ID_BYTES = 96"

definition AGENT_FANOUT_MAX_TARGET_COUNT :: nat where
  "AGENT_FANOUT_MAX_TARGET_COUNT = 50"

datatype fanout_error =
    EmptyGroupId
  | GroupIdTooLong
  | ZeroTargetCount rstr
  | TargetCountTooLarge rstr nat
  | SlotIndexOutside nat nat
  | EmptySlotId
  | AdmissionClosed rstr
  | SlotAlreadyAccepted nat
  | SlotAlreadyTerminal nat
  | RejectCannotReplace nat
  | SettlementNotTerminal
  | MustSettleByIdentity nat
  | ReplacementRequired nat rstr
  | TerminalUpdateNotTerminal
  | AgentNotAssigned rstr
  | AgentAlreadyTerminal rstr

record AgentFanoutSlotIdentity =
  ident_group_id :: rstr
  ident_target_count :: nat
  ident_slot_index :: nat
  ident_slot_id :: "rstr option"

definition slot_identity_new ::
    "rstr \<Rightarrow> nat \<Rightarrow> nat \<Rightarrow> rstr option \<Rightarrow> (fanout_error, AgentFanoutSlotIdentity) result" where
  "slot_identity_new gid target index sid =
     (let gid = trim gid in
      if gid = [] then Inl EmptyGroupId
      else if length gid > MAX_FANOUT_GROUP_ID_BYTES then Inl GroupIdTooLong
      else if target = 0 then Inl (ZeroTargetCount gid)
      else if target > AGENT_FANOUT_MAX_TARGET_COUNT then Inl (TargetCountTooLarge gid target)
      else if index \<ge> target then Inl (SlotIndexOutside index target)
      else try_bind
        (case sid of
           Some s \<Rightarrow> (let s = trim s in if s = [] then Inl EmptySlotId else Inr (Some s))
         | None \<Rightarrow> Inr None)
        (\<lambda>sid. Inr \<lparr>ident_group_id = gid, ident_target_count = target, ident_slot_index = index,
                     ident_slot_id = sid\<rparr>))"

section \<open>Groups, slots and summaries\<close>

datatype AgentFanoutStatus = GroupPlanned | GroupRunning | GroupFinished | GroupIncomplete

fun group_status_as_str :: "AgentFanoutStatus \<Rightarrow> rstr" where
  "group_status_as_str GroupPlanned = ''planned''"
| "group_status_as_str GroupRunning = ''running''"
| "group_status_as_str GroupFinished = ''finished''"
| "group_status_as_str GroupIncomplete = ''incomplete''"

datatype AgentFanoutSlotStatus =
    SlotPlanned
  | SlotSpawnAccepted
  | SlotSpawnRejected
  | SlotRunning
  | SlotWaitingForInput
  | SlotCompleted
  | SlotInterrupted
  | SlotFailed
  | SlotCancelledByUser
  | SlotCancelledByRuntime
  | SlotTimedOut

fun slot_status_as_str :: "AgentFanoutSlotStatus \<Rightarrow> rstr" where
  "slot_status_as_str SlotPlanned = ''planned''"
| "slot_status_as_str SlotSpawnAccepted = ''spawn_accepted''"
| "slot_status_as_str SlotSpawnRejected = ''spawn_rejected''"
| "slot_status_as_str SlotRunning = ''running''"
| "slot_status_as_str SlotWaitingForInput = ''waiting_for_input''"
| "slot_status_as_str SlotCompleted = ''completed''"
| "slot_status_as_str SlotInterrupted = ''interrupted''"
| "slot_status_as_str SlotFailed = ''failed''"
| "slot_status_as_str SlotCancelledByUser = ''cancelled_by_user''"
| "slot_status_as_str SlotCancelledByRuntime = ''cancelled_by_runtime''"
| "slot_status_as_str SlotTimedOut = ''timed_out''"

fun slot_is_terminal :: "AgentFanoutSlotStatus \<Rightarrow> bool" where
  "slot_is_terminal SlotCompleted = True"
| "slot_is_terminal SlotInterrupted = True"
| "slot_is_terminal SlotFailed = True"
| "slot_is_terminal SlotCancelledByUser = True"
| "slot_is_terminal SlotCancelledByRuntime = True"
| "slot_is_terminal SlotTimedOut = True"
| "slot_is_terminal SlotSpawnRejected = True"
| "slot_is_terminal _ = False"

record AgentFanoutSlot =
  slot_index :: nat
  slot_id :: "rstr option"
  role :: rstr
  requested_description :: rstr
  agent_id :: "rstr option"
  slot_run_id :: "rstr option"
  slot_status :: AgentFanoutSlotStatus
  result_collected :: bool
  terminal_reason :: "rstr option"

record AgentFanoutSummary =
  sum_target_count :: nat
  planned :: nat
  accepted :: nat
  active :: nat
  waiting_for_input :: nat
  terminal_slots :: nat
  completed :: nat
  interrupted :: nat
  failed :: nat
  cancelled_by_user :: nat
  cancelled_by_runtime :: nat
  timed_out :: nat
  spawn_rejected :: nat
  collected :: nat
  uncollected :: nat

record AgentFanoutGroupProjection =
  group_id :: rstr
  title :: rstr
  target_count :: nat
  created_by_tool_use_id :: "rstr option"
  parent_run_id :: "rstr option"
  start_request_fingerprint :: "rstr option"
  slots :: "AgentFanoutSlot list"
  group_status :: AgentFanoutStatus
  revision :: u64
  last_touched :: nat
  admission_closed :: bool
  summary_cache :: AgentFanoutSummary
  agent_slot_index :: "rstr \<rightharpoonup> nat"

section \<open>Counters\<close>

definition adjust_summary_value :: "nat \<Rightarrow> int \<Rightarrow> nat" where
  "adjust_summary_value v delta =
     (if delta > 0 then v + nat delta else if delta < 0 then v - nat (- delta) else v)"

definition adjust_summary_for_status ::
    "AgentFanoutSummary \<Rightarrow> AgentFanoutSlotStatus \<Rightarrow> bool \<Rightarrow> bool \<Rightarrow> int \<Rightarrow> AgentFanoutSummary" where
  "adjust_summary_for_status s st has_agent was_collected delta =
     (let s = (if st = SlotPlanned then s\<lparr>planned := adjust_summary_value (planned s) delta\<rparr> else s);
          s = (if st = SlotRunning \<or> st = SlotWaitingForInput \<or> st = SlotSpawnAccepted
               then s\<lparr>active := adjust_summary_value (active s) delta\<rparr> else s);
          s = (if st = SlotWaitingForInput
               then s\<lparr>waiting_for_input := adjust_summary_value (waiting_for_input s) delta\<rparr> else s);
          s = (if slot_is_terminal st
               then let s = s\<lparr>terminal_slots := adjust_summary_value (terminal_slots s) delta\<rparr> in
                 (if has_agent \<and> \<not> was_collected
                  then s\<lparr>uncollected := adjust_summary_value (uncollected s) delta\<rparr> else s)
               else s)
      in case st of
           SlotCompleted \<Rightarrow> s\<lparr>completed := adjust_summary_value (completed s) delta\<rparr>
         | SlotInterrupted \<Rightarrow> s\<lparr>interrupted := adjust_summary_value (interrupted s) delta\<rparr>
         | SlotFailed \<Rightarrow> s\<lparr>failed := adjust_summary_value (failed s) delta\<rparr>
         | SlotCancelledByUser \<Rightarrow> s\<lparr>cancelled_by_user := adjust_summary_value (cancelled_by_user s) delta\<rparr>
         | SlotCancelledByRuntime \<Rightarrow>
             s\<lparr>cancelled_by_runtime := adjust_summary_value (cancelled_by_runtime s) delta\<rparr>
         | SlotTimedOut \<Rightarrow> s\<lparr>timed_out := adjust_summary_value (timed_out s) delta\<rparr>
         | SlotSpawnRejected \<Rightarrow> s\<lparr>spawn_rejected := adjust_summary_value (spawn_rejected s) delta\<rparr>
         | _ \<Rightarrow> s)"

definition apply_slot_status_transition ::
    "AgentFanoutGroupProjection \<Rightarrow> AgentFanoutSlotStatus \<Rightarrow> AgentFanoutSlotStatus \<Rightarrow> bool \<Rightarrow> bool \<Rightarrow>
     AgentFanoutGroupProjection" where
  "apply_slot_status_transition g old_status new_status has_agent was_collected =
     g\<lparr>summary_cache :=
       adjust_summary_for_status
         (adjust_summary_for_status (summary_cache g) old_status has_agent was_collected (- 1))
         new_status has_agent was_collected 1\<rparr>"

definition status_from_summary :: "nat \<Rightarrow> AgentFanoutSummary \<Rightarrow> AgentFanoutStatus" where
  "status_from_summary target s =
     (if terminal_slots s = target then GroupFinished
      else if active s > 0 \<or> waiting_for_input s > 0 \<or> (terminal_slots s > 0 \<and> planned s > 0)
      then GroupRunning
      else if terminal_slots s > 0 then GroupIncomplete
      else GroupPlanned)"

definition recompute_status_from_cache :: "AgentFanoutGroupProjection \<Rightarrow> AgentFanoutGroupProjection" where
  "recompute_status_from_cache g = g\<lparr>group_status := status_from_summary (target_count g) (summary_cache g)\<rparr>"

definition bump :: "AgentFanoutGroupProjection \<Rightarrow> AgentFanoutGroupProjection" where
  "bump g = g\<lparr>revision := sat_add (revision g) 1\<rparr>"

section \<open>Construction and queries\<close>

definition summary_default :: AgentFanoutSummary where
  "summary_default = \<lparr>sum_target_count = 0, planned = 0, accepted = 0, active = 0, waiting_for_input = 0,
     terminal_slots = 0, completed = 0, interrupted = 0, failed = 0, cancelled_by_user = 0,
     cancelled_by_runtime = 0, timed_out = 0, spawn_rejected = 0, collected = 0, uncollected = 0\<rparr>"

definition group_new :: "nat \<Rightarrow> rstr \<Rightarrow> rstr \<Rightarrow> nat \<Rightarrow> AgentFanoutGroupProjection" where
  "group_new now gid name target =
     (let target = max target 1 in
      \<lparr>group_id = gid, title = name, target_count = target, created_by_tool_use_id = None,
       parent_run_id = None, start_request_fingerprint = None,
       slots = map (\<lambda>idx. \<lparr>slot_index = idx, slot_id = None, role = [], requested_description = [],
                           agent_id = None, slot_run_id = None, slot_status = SlotPlanned,
                           result_collected = False, terminal_reason = None\<rparr>) [0..<target],
       group_status = GroupPlanned, revision = 1, last_touched = now, admission_closed = False,
       summary_cache = summary_default\<lparr>sum_target_count := target, planned := target\<rparr>,
       agent_slot_index = Map.empty\<rparr>)"

definition touch :: "nat \<Rightarrow> AgentFanoutGroupProjection \<Rightarrow> AgentFanoutGroupProjection" where
  "touch now g = g\<lparr>last_touched := now\<rparr>"

definition group_is_terminal :: "AgentFanoutGroupProjection \<Rightarrow> bool" where
  "group_is_terminal g \<longleftrightarrow> group_status g = GroupFinished \<or> group_status g = GroupIncomplete"

definition close_spawn_admission :: "AgentFanoutGroupProjection \<Rightarrow> AgentFanoutGroupProjection" where
  "close_spawn_admission g =
     (if \<not> admission_closed g then bump (g\<lparr>admission_closed := True\<rparr>) else g)"

definition ensure_spawn_admission_open :: "AgentFanoutGroupProjection \<Rightarrow> (fanout_error, unit) result" where
  "ensure_spawn_admission_open g =
     (if admission_closed g then Inl (AdmissionClosed (group_id g)) else Inr ())"

definition work_unit_status :: "AgentFanoutGroupProjection \<Rightarrow> WorkUnitStatus" where
  "work_unit_status g =
     (if \<not> group_is_terminal g then
        (if waiting_for_input (summary_cache g) > 0 then WaitingForInput
         else if active (summary_cache g) > 0 then Running
         else Pending)
      else if completed (summary_cache g) = target_count g then Completed
      else CompletedWithIssues)"

definition work_unit_observation :: "AgentFanoutGroupProjection \<Rightarrow> WorkUnitObservation option" where
  "work_unit_observation g =
     map_option (\<lambda>obs. with_wake_policy obs OnAttentionOrTerminal)
       (observation_new (group_id g) ''agent_fanout'' (work_unit_status g) (revision g) Current)"

section \<open>Operations\<close>

type_synonym 'a group_result = "(fanout_error, 'a) result \<times> AgentFanoutGroupProjection"

definition slot_mut :: "AgentFanoutGroupProjection \<Rightarrow> nat \<Rightarrow> (fanout_error, AgentFanoutSlot) result" where
  "slot_mut g i = (if i < length (slots g) then Inr (slots g ! i) else Inl (SlotIndexOutside i (target_count g)))"

definition put_slot ::
    "AgentFanoutGroupProjection \<Rightarrow> nat \<Rightarrow> AgentFanoutSlot \<Rightarrow> AgentFanoutGroupProjection" where
  "put_slot g i slot = g\<lparr>slots := (slots g)[i := slot]\<rparr>"

definition set_slot_request_inner ::
    "AgentFanoutGroupProjection \<Rightarrow> nat \<Rightarrow> rstr option \<Rightarrow> rstr \<Rightarrow> rstr \<Rightarrow> bool \<Rightarrow> unit group_result" where
  "set_slot_request_inner g i sid r description require_open_admission =
     (case (if require_open_admission then ensure_spawn_admission_open g else Inr ()) of
        Inl e \<Rightarrow> (Inl e, g)
      | Inr _ \<Rightarrow>
     (case slot_mut g i of
        Inl e \<Rightarrow> (Inl e, g)
      | Inr slot \<Rightarrow>
          if agent_id slot \<noteq> None then (Inl (SlotAlreadyAccepted i), g)
          else if slot_is_terminal (slot_status slot) \<and> slot_status slot \<noteq> SlotSpawnRejected
          then (Inl (SlotAlreadyTerminal i), g)
          else (Inr (), bump (put_slot g i
            (slot\<lparr>slot_id := sid, role := r, requested_description := description\<rparr>)))))"

definition set_slot_request ::
    "AgentFanoutGroupProjection \<Rightarrow> nat \<Rightarrow> rstr option \<Rightarrow> rstr \<Rightarrow> rstr \<Rightarrow> unit group_result" where
  "set_slot_request g i sid r description = set_slot_request_inner g i sid r description True"

definition record_spawn_rejected ::
    "AgentFanoutGroupProjection \<Rightarrow> nat \<Rightarrow> rstr \<Rightarrow> unit group_result" where
  "record_spawn_rejected g i reason =
     (case ensure_spawn_admission_open g of Inl e \<Rightarrow> (Inl e, g) | Inr _ \<Rightarrow>
     (case slot_mut g i of
        Inl e \<Rightarrow> (Inl e, g)
      | Inr slot \<Rightarrow>
          if agent_id slot \<noteq> None then (Inl (RejectCannotReplace i), g)
          else if slot_is_terminal (slot_status slot) \<and> slot_status slot \<noteq> SlotSpawnRejected
          then (Inl (SlotAlreadyTerminal i), g)
          else
            let old_status = slot_status slot;
                g = put_slot g i (slot\<lparr>slot_status := SlotSpawnRejected, terminal_reason := Some reason\<rparr>);
                g = apply_slot_status_transition g old_status SlotSpawnRejected False False
            in (Inr (), bump (recompute_status_from_cache g))))"

definition record_unassigned_terminal ::
    "AgentFanoutGroupProjection \<Rightarrow> nat \<Rightarrow> AgentFanoutSlotStatus \<Rightarrow> rstr \<Rightarrow> unit group_result" where
  "record_unassigned_terminal g i st reason =
     (if \<not> slot_is_terminal st then (Inl SettlementNotTerminal, g)
      else case slot_mut g i of
        Inl e \<Rightarrow> (Inl e, g)
      | Inr slot \<Rightarrow>
          if agent_id slot \<noteq> None then (Inl (MustSettleByIdentity i), g)
          else if slot_is_terminal (slot_status slot) then
            (if slot_status slot = st then (Inr (), g) else (Inl (SlotAlreadyTerminal i), g))
          else
            let old_status = slot_status slot;
                g = put_slot g i (slot\<lparr>slot_status := st, terminal_reason := Some reason\<rparr>);
                g = apply_slot_status_transition g old_status st False False
            in (Inr (), bump (recompute_status_from_cache g)))"

definition finish_accepted_slot ::
    "AgentFanoutGroupProjection \<Rightarrow> nat \<Rightarrow> rstr \<Rightarrow> AgentFanoutSlotStatus \<Rightarrow> AgentFanoutGroupProjection" where
  "finish_accepted_slot g i agent old_status =
     (let s = (summary_cache g)\<lparr>accepted := accepted (summary_cache g) + 1\<rparr>;
          s = adjust_summary_for_status s old_status False False (- 1);
          s = adjust_summary_for_status s SlotRunning True False 1;
          g = g\<lparr>summary_cache := s, agent_slot_index := (agent_slot_index g)(agent \<mapsto> i)\<rparr>
      in bump (recompute_status_from_cache g))"

definition record_spawn_accepted_with_run ::
    "AgentFanoutGroupProjection \<Rightarrow> nat \<Rightarrow> rstr \<Rightarrow> rstr option \<Rightarrow> unit group_result" where
  "record_spawn_accepted_with_run g i agent run =
     (case ensure_spawn_admission_open g of Inl e \<Rightarrow> (Inl e, g) | Inr _ \<Rightarrow>
     (case slot_mut g i of
        Inl e \<Rightarrow> (Inl e, g)
      | Inr slot \<Rightarrow>
          case agent_id slot of Some existing \<Rightarrow> (Inl (ReplacementRequired i existing), g) | None \<Rightarrow>
          if slot_is_terminal (slot_status slot) \<and> slot_status slot \<noteq> SlotSpawnRejected
          then (Inl (SlotAlreadyTerminal i), g)
          else
            let old_status = slot_status slot;
                g = put_slot g i (slot\<lparr>agent_id := Some agent, slot_run_id := run, slot_status := SlotRunning,
                                       terminal_reason := None\<rparr>)
            in (Inr (), finish_accepted_slot g i agent old_status)))"

definition record_spawn_accepted ::
    "AgentFanoutGroupProjection \<Rightarrow> nat \<Rightarrow> rstr \<Rightarrow> unit group_result" where
  "record_spawn_accepted g i agent = record_spawn_accepted_with_run g i agent None"

definition restore_spawn_accepted_with_run ::
    "AgentFanoutGroupProjection \<Rightarrow> nat \<Rightarrow> rstr \<Rightarrow> rstr option \<Rightarrow> rstr option \<Rightarrow> rstr \<Rightarrow> rstr \<Rightarrow> unit group_result" where
  "restore_spawn_accepted_with_run g i agent run sid r description =
     (case slot_mut g i of
        Inl e \<Rightarrow> (Inl e, g)
      | Inr slot \<Rightarrow>
          case agent_id slot of Some existing \<Rightarrow> (Inl (ReplacementRequired i existing), g) | None \<Rightarrow>
          let cancelled_placeholder = admission_closed g \<and>
                (slot_status slot = SlotCancelledByUser \<or> slot_status slot = SlotCancelledByRuntime) in
          if slot_is_terminal (slot_status slot) \<and> slot_status slot \<noteq> SlotSpawnRejected
              \<and> \<not> cancelled_placeholder
          then (Inl (SlotAlreadyTerminal i), g)
          else
            let old_status = slot_status slot;
                g = put_slot g i (slot\<lparr>slot_id := sid, role := r, requested_description := description,
                                       agent_id := Some agent, slot_run_id := run, slot_status := SlotRunning,
                                       terminal_reason := None\<rparr>)
            in (Inr (), finish_accepted_slot g i agent old_status))"

definition forget_agent :: "AgentFanoutGroupProjection \<Rightarrow> rstr \<Rightarrow> AgentFanoutGroupProjection" where
  "forget_agent g agent = g\<lparr>agent_slot_index := (agent_slot_index g)(agent := None)\<rparr>"

definition mark_result_collected ::
    "AgentFanoutGroupProjection \<Rightarrow> rstr \<Rightarrow> bool \<times> AgentFanoutGroupProjection" where
  "mark_result_collected g agent =
     (case agent_slot_index g agent of
        None \<Rightarrow> (False, g)
      | Some i \<Rightarrow>
          if i \<ge> length (slots g) then (False, forget_agent g agent)
          else let slot = slots g ! i in
          if \<not> slot_is_terminal (slot_status slot) then (False, g)
          else if \<not> result_collected slot then
            (let g = put_slot g i (slot\<lparr>result_collected := True\<rparr>);
                 s = summary_cache g;
                 s = s\<lparr>collected := collected s + 1, uncollected := uncollected s - 1\<rparr>
             in (True, bump (g\<lparr>summary_cache := s\<rparr>)))
          else (True, g))"

definition record_terminal_by_agent_with_authority ::
    "AgentFanoutGroupProjection \<Rightarrow> rstr \<Rightarrow> AgentFanoutSlotStatus \<Rightarrow> rstr option \<Rightarrow> bool \<Rightarrow> unit group_result" where
  "record_terminal_by_agent_with_authority g agent st reason durable_authority =
     (if \<not> slot_is_terminal st then (Inl TerminalUpdateNotTerminal, g)
      else case agent_slot_index g agent of
        None \<Rightarrow> (Inl (AgentNotAssigned agent), g)
      | Some i \<Rightarrow>
          if i \<ge> length (slots g) then (Inl (AgentNotAssigned agent), forget_agent g agent)
          else let slot = slots g ! i in
          if slot_is_terminal (slot_status slot) \<and> slot_status slot = st \<and> terminal_reason slot = reason
          then (Inr (), g)
          else if slot_is_terminal (slot_status slot) \<and> \<not> durable_authority
          then (Inl (AgentAlreadyTerminal agent), g)
          else
            let old_status = slot_status slot;
                was_collected = result_collected slot;
                g = put_slot g i (slot\<lparr>slot_status := st, terminal_reason := reason\<rparr>);
                g = apply_slot_status_transition g old_status st True was_collected
            in (Inr (), bump (recompute_status_from_cache g)))"

definition record_terminal_by_agent ::
    "AgentFanoutGroupProjection \<Rightarrow> rstr \<Rightarrow> AgentFanoutSlotStatus \<Rightarrow> rstr option \<Rightarrow> unit group_result" where
  "record_terminal_by_agent g agent st reason =
     record_terminal_by_agent_with_authority g agent st reason False"

definition refine_durable_terminal_by_agent ::
    "AgentFanoutGroupProjection \<Rightarrow> rstr \<Rightarrow> AgentFanoutSlotStatus \<Rightarrow> rstr option \<Rightarrow> unit group_result" where
  "refine_durable_terminal_by_agent g agent st reason =
     record_terminal_by_agent_with_authority g agent st reason True"

definition record_status_by_agent ::
    "AgentFanoutGroupProjection \<Rightarrow> rstr \<Rightarrow> AgentFanoutSlotStatus \<Rightarrow> rstr option \<Rightarrow> unit group_result" where
  "record_status_by_agent g agent st reason =
     (if slot_is_terminal st then record_terminal_by_agent g agent st reason
      else case agent_slot_index g agent of
        None \<Rightarrow> (Inl (AgentNotAssigned agent), g)
      | Some i \<Rightarrow>
          if i \<ge> length (slots g) then (Inl (AgentNotAssigned agent), forget_agent g agent)
          else let slot = slots g ! i in
          if slot_is_terminal (slot_status slot) then (Inl (AgentAlreadyTerminal agent), g)
          else if slot_status slot = st \<and> terminal_reason slot = reason then (Inr (), g)
          else
            let old_status = slot_status slot;
                g = put_slot g i (slot\<lparr>slot_status := st, terminal_reason := reason\<rparr>);
                g = apply_slot_status_transition g old_status st True False
            in (Inr (), bump (recompute_status_from_cache g)))"

section \<open>The summary sentence\<close>

definition format_count :: "nat \<Rightarrow> rstr \<Rightarrow> rstr" where
  "format_count n label = show_nat n @ '' '' @ label"

definition count_part :: "nat \<Rightarrow> rstr \<Rightarrow> rstr list" where
  "count_part n label = (if n > 0 then [format_count n label] else [])"

definition summary_sentence_parts :: "rstr \<Rightarrow> AgentFanoutSummary \<Rightarrow> rstr list" where
  "summary_sentence_parts label s =
     (if label = ''fanout failed to start fully'' then
        count_part (accepted s) ''accepted'' @ count_part (spawn_rejected s) ''spawn rejected''
          @ count_part (uncollected s) ''uncollected''
      else
        let parts =
          count_part (completed s) ''completed'' @ count_part (interrupted s) ''interrupted''
          @ count_part (cancelled_by_user s) ''stopped by user''
          @ count_part (cancelled_by_runtime s) ''cancelled by runtime''
          @ count_part (failed s) ''failed'' @ count_part (spawn_rejected s) ''spawn rejected''
          @ count_part (timed_out s) ''timed out'' @ count_part (active s) ''still running''
          @ count_part (uncollected s) ''uncollected''
        in if parts = [] then [format_count (planned s) ''planned''] else parts)"

fun join_comma :: "rstr list \<Rightarrow> rstr" where
  "join_comma [] = []"
| "join_comma [x] = x"
| "join_comma (x # y # xs) = x @ '', '' @ join_comma (y # xs)"

definition sentence_label :: "AgentFanoutGroupProjection \<Rightarrow> rstr" where
  "sentence_label g =
     (let s = summary_cache g in
      if spawn_rejected s > 0 then ''fanout failed to start fully''
      else if cancelled_by_runtime s > 0 then ''fanout interrupted by runtime cancellation''
      else if (active s > 0 \<or> waiting_for_input s > 0) \<and> terminal_slots s > 0 then ''fanout incomplete''
      else case group_status g of
        GroupFinished \<Rightarrow> ''fanout finished''
      | GroupIncomplete \<Rightarrow> ''fanout incomplete''
      | GroupRunning \<Rightarrow> ''fanout running''
      | GroupPlanned \<Rightarrow> ''fanout planned'')"

definition summary_sentence :: "AgentFanoutGroupProjection \<Rightarrow> rstr" where
  "summary_sentence g =
     (let s = summary_cache g; label = sentence_label g in
      show_nat (sum_target_count s) @ ''-agent '' @ label @ '': ''
        @ join_comma (summary_sentence_parts label s) @ ''.'')"

section \<open>Operations as data\<close>

datatype fanout_op =
    CloseAdmission
  | Touch nat
  | SetRequest nat "rstr option" rstr rstr
  | SpawnRejected nat rstr
  | UnassignedTerminal nat AgentFanoutSlotStatus rstr
  | SpawnAccepted nat rstr "rstr option"
  | RestoreAccepted nat rstr "rstr option" "rstr option" rstr rstr
  | Collect rstr
  | TerminalByAgent rstr AgentFanoutSlotStatus "rstr option"
  | RefineTerminal rstr AgentFanoutSlotStatus "rstr option"
  | StatusByAgent rstr AgentFanoutSlotStatus "rstr option"

fun fanout_step :: "AgentFanoutGroupProjection \<Rightarrow> fanout_op \<Rightarrow> AgentFanoutGroupProjection" where
  "fanout_step g CloseAdmission = close_spawn_admission g"
| "fanout_step g (Touch now) = touch now g"
| "fanout_step g (SetRequest i sid r d) = snd (set_slot_request g i sid r d)"
| "fanout_step g (SpawnRejected i reason) = snd (record_spawn_rejected g i reason)"
| "fanout_step g (UnassignedTerminal i st reason) = snd (record_unassigned_terminal g i st reason)"
| "fanout_step g (SpawnAccepted i agent run) = snd (record_spawn_accepted_with_run g i agent run)"
| "fanout_step g (RestoreAccepted i agent run sid r d) =
     snd (restore_spawn_accepted_with_run g i agent run sid r d)"
| "fanout_step g (Collect agent) = snd (mark_result_collected g agent)"
| "fanout_step g (TerminalByAgent agent st reason) = snd (record_terminal_by_agent g agent st reason)"
| "fanout_step g (RefineTerminal agent st reason) = snd (refine_durable_terminal_by_agent g agent st reason)"
| "fanout_step g (StatusByAgent agent st reason) = snd (record_status_by_agent g agent st reason)"

section \<open>The cached summary is the count of the slots\<close>

definition cnt :: "('a \<Rightarrow> bool) \<Rightarrow> 'a list \<Rightarrow> nat" where
  "cnt P xs = length (filter P xs)"

lemma cnt_update:
  assumes "i < length xs"
  shows "cnt P (xs[i := y]) + of_bool (P (xs ! i)) = cnt P xs + of_bool (P y)"
  using assms
proof (induction xs arbitrary: i)
  case (Cons x xs)
  then show ?case by (cases i) (auto simp: cnt_def)
qed simp

lemma cnt_nth_pos: "i < length xs \<Longrightarrow> P (xs ! i) \<Longrightarrow> 1 \<le> cnt P xs"
  unfolding cnt_def by (metis filter_empty_conv length_0_conv not_less_eq_eq nth_mem le_zero_eq One_nat_def)

lemma cnt_le: "cnt P xs \<le> length xs"
  by (simp add: cnt_def)

lemma cnt_adjust:
  "i < length xs \<Longrightarrow> cnt P (xs[i := y]) = cnt P xs - of_bool (P (xs ! i)) + of_bool (P y)"
  using cnt_update [of i xs P y] cnt_nth_pos [of i xs P] by (cases "P (xs ! i)") auto

definition is_active :: "AgentFanoutSlotStatus \<Rightarrow> bool" where
  "is_active st \<longleftrightarrow> st = SlotRunning \<or> st = SlotWaitingForInput \<or> st = SlotSpawnAccepted"

definition is_uncollected :: "AgentFanoutSlot \<Rightarrow> bool" where
  "is_uncollected s \<longleftrightarrow> slot_is_terminal (slot_status s) \<and> agent_id s \<noteq> None \<and> \<not> result_collected s"

definition recount :: "AgentFanoutSlot list \<Rightarrow> AgentFanoutSummary" where
  "recount ss =
     \<lparr>sum_target_count = length ss,
      planned = cnt (\<lambda>s. slot_status s = SlotPlanned) ss,
      accepted = cnt (\<lambda>s. agent_id s \<noteq> None) ss,
      active = cnt (\<lambda>s. is_active (slot_status s)) ss,
      waiting_for_input = cnt (\<lambda>s. slot_status s = SlotWaitingForInput) ss,
      terminal_slots = cnt (\<lambda>s. slot_is_terminal (slot_status s)) ss,
      completed = cnt (\<lambda>s. slot_status s = SlotCompleted) ss,
      interrupted = cnt (\<lambda>s. slot_status s = SlotInterrupted) ss,
      failed = cnt (\<lambda>s. slot_status s = SlotFailed) ss,
      cancelled_by_user = cnt (\<lambda>s. slot_status s = SlotCancelledByUser) ss,
      cancelled_by_runtime = cnt (\<lambda>s. slot_status s = SlotCancelledByRuntime) ss,
      timed_out = cnt (\<lambda>s. slot_status s = SlotTimedOut) ss,
      spawn_rejected = cnt (\<lambda>s. slot_status s = SlotSpawnRejected) ss,
      collected = cnt result_collected ss,
      uncollected = cnt is_uncollected ss\<rparr>"

text \<open>The two directions of the adjustment, field by field.\<close>

lemma adjust_down:
  "adjust_summary_for_status s st ag co (- 1) =
     s\<lparr>planned := planned s - of_bool (st = SlotPlanned),
       active := active s - of_bool (is_active st),
       waiting_for_input := waiting_for_input s - of_bool (st = SlotWaitingForInput),
       terminal_slots := terminal_slots s - of_bool (slot_is_terminal st),
       completed := completed s - of_bool (st = SlotCompleted),
       interrupted := interrupted s - of_bool (st = SlotInterrupted),
       failed := failed s - of_bool (st = SlotFailed),
       cancelled_by_user := cancelled_by_user s - of_bool (st = SlotCancelledByUser),
       cancelled_by_runtime := cancelled_by_runtime s - of_bool (st = SlotCancelledByRuntime),
       timed_out := timed_out s - of_bool (st = SlotTimedOut),
       spawn_rejected := spawn_rejected s - of_bool (st = SlotSpawnRejected),
       uncollected := uncollected s - of_bool (slot_is_terminal st \<and> ag \<and> \<not> co)\<rparr>"
  by (cases st; cases ag; cases co)
    (simp_all add: adjust_summary_for_status_def adjust_summary_value_def is_active_def)

lemma adjust_up:
  "adjust_summary_for_status s st ag co 1 =
     s\<lparr>planned := planned s + of_bool (st = SlotPlanned),
       active := active s + of_bool (is_active st),
       waiting_for_input := waiting_for_input s + of_bool (st = SlotWaitingForInput),
       terminal_slots := terminal_slots s + of_bool (slot_is_terminal st),
       completed := completed s + of_bool (st = SlotCompleted),
       interrupted := interrupted s + of_bool (st = SlotInterrupted),
       failed := failed s + of_bool (st = SlotFailed),
       cancelled_by_user := cancelled_by_user s + of_bool (st = SlotCancelledByUser),
       cancelled_by_runtime := cancelled_by_runtime s + of_bool (st = SlotCancelledByRuntime),
       timed_out := timed_out s + of_bool (st = SlotTimedOut),
       spawn_rejected := spawn_rejected s + of_bool (st = SlotSpawnRejected),
       uncollected := uncollected s + of_bool (slot_is_terminal st \<and> ag \<and> \<not> co)\<rparr>"
  by (cases st; cases ag; cases co)
    (simp_all add: adjust_summary_for_status_def adjust_summary_value_def is_active_def)

lemma recount_transition:
  assumes "i < length ss" and "ss ! i = old"
    and "agent_id new = agent_id old" and "result_collected new = result_collected old"
    and "slot_is_terminal (slot_status old) \<Longrightarrow> co = result_collected old"
    and "slot_is_terminal (slot_status new) \<Longrightarrow> co = result_collected old"
    and "ag = (agent_id old \<noteq> None)"
  shows "adjust_summary_for_status
      (adjust_summary_for_status (recount ss) (slot_status old) ag co (- 1)) (slot_status new) ag co 1 =
    recount (ss[i := new])"
proof -
  have adj: "cnt P (ss[i := new]) = cnt P ss - of_bool (P old) + of_bool (P new)" for P
    using cnt_adjust [OF assms(1), of P new] assms(2) by simp
  have "of_bool (slot_is_terminal (slot_status s) \<and> ag \<and> \<not> co) = (of_bool (is_uncollected s) :: nat)"
    if "s = old \<or> s = new" for s
    using that assms(3-7) by (auto simp: is_uncollected_def)
  then show ?thesis
    unfolding adjust_down adjust_up recount_def adj
    using assms(3,4) cnt_nth_pos [OF assms(1), of "\<lambda>s. agent_id s \<noteq> None"]
      cnt_nth_pos [OF assms(1), of result_collected] assms(2)
    by simp
qed

lemma recount_accept:
  assumes "i < length ss" and "ss ! i = old"
    and "agent_id old = None" and "agent_id new = Some agent" and "\<not> result_collected old"
    and "\<not> result_collected new" and "slot_status new = SlotRunning"
  shows "adjust_summary_for_status
      (adjust_summary_for_status ((recount ss)\<lparr>accepted := accepted (recount ss) + 1\<rparr>)
        (slot_status old) False False (- 1)) SlotRunning True False 1 =
    recount (ss[i := new])"
proof -
  have adj: "cnt P (ss[i := new]) = cnt P ss - of_bool (P old) + of_bool (P new)" for P
    using cnt_adjust [OF assms(1), of P new] assms(2) by simp
  show ?thesis
    unfolding adjust_down adjust_up recount_def adj
    using assms(3-7) by (simp add: is_uncollected_def)
qed

section \<open>What an operation does to one slot\<close>

definition replaceable :: "AgentFanoutSlot \<Rightarrow> bool" where
  "replaceable s \<longleftrightarrow>
     agent_id s = None \<and> (\<not> slot_is_terminal (slot_status s) \<or> slot_status s = SlotSpawnRejected)"

definition cancelled_placeholder :: "bool \<Rightarrow> AgentFanoutSlot \<Rightarrow> bool" where
  "cancelled_placeholder closed s \<longleftrightarrow>
     closed \<and> agent_id s = None \<and> (slot_status s = SlotCancelledByUser \<or> slot_status s = SlotCancelledByRuntime)"

inductive slot_step :: "bool \<Rightarrow> bool \<Rightarrow> AgentFanoutSlot \<Rightarrow> AgentFanoutSlot \<Rightarrow> bool"
  for closed restoring :: bool where
  request: "\<not> closed \<Longrightarrow> replaceable s \<Longrightarrow>
    slot_step closed restoring s (s\<lparr>slot_id := sid, role := r, requested_description := d\<rparr>)"
| reject: "\<not> closed \<Longrightarrow> replaceable s \<Longrightarrow>
    slot_step closed restoring s (s\<lparr>slot_status := SlotSpawnRejected, terminal_reason := Some reason\<rparr>)"
| unassigned: "agent_id s = None \<Longrightarrow> \<not> slot_is_terminal (slot_status s) \<Longrightarrow> slot_is_terminal st \<Longrightarrow>
    slot_step closed restoring s (s\<lparr>slot_status := st, terminal_reason := Some reason\<rparr>)"
| accept: "\<not> closed \<Longrightarrow> replaceable s \<Longrightarrow>
    slot_step closed restoring s (s\<lparr>agent_id := Some agent, slot_run_id := run, slot_status := SlotRunning,
      terminal_reason := None\<rparr>)"
| restore: "restoring \<Longrightarrow> replaceable s \<or> cancelled_placeholder closed s \<Longrightarrow>
    slot_step closed restoring s (s\<lparr>slot_id := sid, role := r, requested_description := d, agent_id := Some agent,
      slot_run_id := run, slot_status := SlotRunning, terminal_reason := None\<rparr>)"
| collect: "agent_id s = Some agent \<Longrightarrow> slot_is_terminal (slot_status s) \<Longrightarrow>
    slot_step closed restoring s (s\<lparr>result_collected := True\<rparr>)"
| settle: "agent_id s = Some agent \<Longrightarrow> slot_is_terminal st \<Longrightarrow>
    slot_step closed restoring s (s\<lparr>slot_status := st, terminal_reason := reason\<rparr>)"
| progress: "agent_id s = Some agent \<Longrightarrow> \<not> slot_is_terminal (slot_status s) \<Longrightarrow> \<not> slot_is_terminal st \<Longrightarrow>
    slot_step closed restoring s (s\<lparr>slot_status := st, terminal_reason := reason\<rparr>)"

definition slot_ok :: "nat \<Rightarrow> AgentFanoutSlot \<Rightarrow> bool" where
  "slot_ok i s \<longleftrightarrow>
     slot_index s = i \<and> (result_collected s \<longrightarrow> slot_is_terminal (slot_status s) \<and> agent_id s \<noteq> None)"

definition fanout_inv :: "AgentFanoutGroupProjection \<Rightarrow> bool" where
  "fanout_inv g \<longleftrightarrow>
     length (slots g) = target_count g \<and> 1 \<le> target_count g \<and> 1 \<le> revision g \<and>
     summary_cache g = recount (slots g) \<and>
     group_status g = status_from_summary (target_count g) (recount (slots g)) \<and>
     (\<forall>i < length (slots g). slot_ok i (slots g ! i)) \<and>
     (\<forall>a i. agent_slot_index g a = Some i \<longrightarrow> i < length (slots g) \<and> agent_id (slots g ! i) = Some a)"

lemma slot_step_ok: "slot_step closed restoring s s' \<Longrightarrow> slot_ok i s \<Longrightarrow> slot_ok i s'"
  by (erule slot_step.cases) (auto simp: slot_ok_def replaceable_def cancelled_placeholder_def)

lemma slot_step_agent:
  "slot_step closed restoring s s' \<Longrightarrow> agent_id s = Some a \<Longrightarrow> agent_id s' = Some a"
  by (erule slot_step.cases) (auto simp: replaceable_def cancelled_placeholder_def)

text \<open>One slot moves, the caches follow and the revision counts the change.\<close>

definition slot_moves ::
    "bool \<Rightarrow> AgentFanoutGroupProjection \<Rightarrow> nat \<Rightarrow> AgentFanoutSlot \<Rightarrow> AgentFanoutGroupProjection \<Rightarrow> bool" where
  "slot_moves restoring g i s' g' \<longleftrightarrow>
     i < length (slots g) \<and> slot_step (admission_closed g) restoring (slots g ! i) s' \<and>
     (\<exists>index. g' = g\<lparr>slots := (slots g)[i := s'], summary_cache := recount ((slots g)[i := s']),
         group_status := status_from_summary (target_count g) (recount ((slots g)[i := s'])),
         agent_slot_index := index, revision := sat_add (revision g) 1\<rparr> \<and>
       (index = agent_slot_index g \<or> (\<exists>a. agent_id s' = Some a \<and> index = (agent_slot_index g)(a \<mapsto> i))))"

lemma one_le_sat_add: "(1 :: u64) \<le> r \<Longrightarrow> 1 \<le> sat_add r 1"
  using le_sat_add order_trans by blast

lemma slot_moves_inv:
  assumes inv: "fanout_inv g" and moves: "slot_moves restoring g i s' g'"
  shows "fanout_inv g'"
proof -
  obtain index where i: "i < length (slots g)" and step: "slot_step (admission_closed g) restoring (slots g ! i) s'"
    and g': "g' = g\<lparr>slots := (slots g)[i := s'], summary_cache := recount ((slots g)[i := s']),
         group_status := status_from_summary (target_count g) (recount ((slots g)[i := s'])),
         agent_slot_index := index, revision := sat_add (revision g) 1\<rparr>"
    and index: "index = agent_slot_index g \<or> (\<exists>a. agent_id s' = Some a \<and> index = (agent_slot_index g)(a \<mapsto> i))"
    using moves by (auto simp: slot_moves_def)
  have ok: "slot_ok j ((slots g)[i := s'] ! j)" if "j < length (slots g)" for j
    using inv step that slot_step_ok by (cases "j = i") (auto simp: fanout_inv_def)
  have old: "j < length (slots g) \<and> agent_id ((slots g)[i := s'] ! j) = Some a"
    if "agent_slot_index g a = Some j" for a j
    using inv that slot_step_agent [OF step] by (cases "j = i") (auto simp: fanout_inv_def)
  have idx: "j < length (slots g) \<and> agent_id ((slots g)[i := s'] ! j) = Some a" if "index a = Some j" for a j
    using index old that i by (auto split: if_splits)
  show ?thesis
    using inv ok idx one_le_sat_add unfolding fanout_inv_def g' by simp
qed

lemmas move_defs = slot_moves_def bump_def recompute_status_from_cache_def put_slot_def slot_mut_def
  ensure_spawn_admission_open_def apply_slot_status_transition_def


lemma recount_same:
  assumes "i < length ss" and "slot_status s' = slot_status (ss ! i)" and "agent_id s' = agent_id (ss ! i)"
    and "result_collected s' = result_collected (ss ! i)"
  shows "recount (ss[i := s']) = recount ss"
proof -
  have "cnt P (ss[i := s']) = cnt P ss" if "P s' = P (ss ! i)" for P
    using cnt_update [OF assms(1), of P s'] that by simp
  then show ?thesis using assms by (simp add: recount_def is_uncollected_def)
qed

text \<open>The three ways the operations write a slot and its caches.\<close>

lemma moves_request:
  assumes inv: "fanout_inv g" and i: "i < length (slots g)"
    and step: "slot_step (admission_closed g) restoring (slots g ! i) s'"
    and same: "slot_status s' = slot_status (slots g ! i)" "agent_id s' = agent_id (slots g ! i)"
      "result_collected s' = result_collected (slots g ! i)"
  shows "slot_moves restoring g i s' (bump (put_slot g i s'))"
proof -
  have "recount ((slots g)[i := s']) = recount (slots g)" by (rule recount_same [OF i same])
  then show ?thesis
    using inv i step unfolding slot_moves_def fanout_inv_def bump_def put_slot_def
    by (intro conjI exI [of _ "agent_slot_index g"]) (auto intro: AgentFanoutGroupProjection.equality)
qed

lemma moves_transition:
  assumes inv: "fanout_inv g" and i: "i < length (slots g)"
    and step: "slot_step (admission_closed g) restoring (slots g ! i) s'"
    and keep: "agent_id s' = agent_id (slots g ! i)" "result_collected s' = result_collected (slots g ! i)"
    and co: "slot_is_terminal (slot_status (slots g ! i)) \<Longrightarrow> co = result_collected (slots g ! i)"
      "slot_is_terminal (slot_status s') \<Longrightarrow> co = result_collected (slots g ! i)"
    and ag: "ag = (agent_id (slots g ! i) \<noteq> None)"
  shows "slot_moves restoring g i s' (bump (recompute_status_from_cache
      (apply_slot_status_transition (put_slot g i s') (slot_status (slots g ! i)) (slot_status s') ag co)))"
proof -
  have "adjust_summary_for_status (adjust_summary_for_status (summary_cache g)
      (slot_status (slots g ! i)) ag co (- 1)) (slot_status s') ag co 1 = recount ((slots g)[i := s'])"
    using recount_transition [OF i refl keep co ag] inv by (simp add: fanout_inv_def)
  then show ?thesis
    using i step
    unfolding slot_moves_def bump_def put_slot_def recompute_status_from_cache_def apply_slot_status_transition_def
    by (intro conjI exI [of _ "agent_slot_index g"]) (auto intro: AgentFanoutGroupProjection.equality)
qed

lemma moves_accept:
  assumes inv: "fanout_inv g" and i: "i < length (slots g)"
    and step: "slot_step (admission_closed g) restoring (slots g ! i) s'"
    and none: "agent_id (slots g ! i) = None" and s': "agent_id s' = Some agent" "slot_status s' = SlotRunning"
      "result_collected s' = result_collected (slots g ! i)"
  shows "slot_moves restoring g i s' (finish_accepted_slot (put_slot g i s') i agent (slot_status (slots g ! i)))"
proof -
  have "\<not> result_collected (slots g ! i)" using inv i none by (auto simp: fanout_inv_def slot_ok_def)
  then have "adjust_summary_for_status
      (adjust_summary_for_status ((summary_cache g)\<lparr>accepted := accepted (summary_cache g) + 1\<rparr>)
        (slot_status (slots g ! i)) False False (- 1)) SlotRunning True False 1 = recount ((slots g)[i := s'])"
    using recount_accept [OF i refl none s'(1)] s'(2,3) inv by (simp add: fanout_inv_def)
  then show ?thesis
    using i step s'(1)
    unfolding slot_moves_def finish_accepted_slot_def bump_def put_slot_def recompute_status_from_cache_def Let_def
    by (intro conjI exI [of _ "(agent_slot_index g)(agent \<mapsto> i)"]) (auto intro: AgentFanoutGroupProjection.equality)
qed

text \<open>The outcome of an operation: an error or a success that changes nothing, or one slot move.\<close>

definition outcome_ok :: "bool \<Rightarrow> AgentFanoutGroupProjection \<Rightarrow> unit group_result \<Rightarrow> bool" where
  "outcome_ok restoring g res \<longleftrightarrow> snd res = g \<or> (fst res = Inr () \<and> (\<exists>i s'. slot_moves restoring g i s' (snd res)))"

lemma outcome_okI:
  "outcome_ok restoring g (res, g)"
  "slot_moves restoring g i s' g' \<Longrightarrow> outcome_ok restoring g (Inr (), g')"
  by (auto simp: outcome_ok_def)

lemma inv_agent_slot:
  "fanout_inv g \<Longrightarrow> agent_slot_index g a = Some i \<Longrightarrow> i < length (slots g) \<and> agent_id (slots g ! i) = Some a"
  unfolding fanout_inv_def by blast

lemma inv_not_collected:
  "fanout_inv g \<Longrightarrow> i < length (slots g) \<Longrightarrow>
     agent_id (slots g ! i) = None \<or> \<not> slot_is_terminal (slot_status (slots g ! i)) \<Longrightarrow>
     \<not> result_collected (slots g ! i)"
  by (auto simp: fanout_inv_def slot_ok_def)

lemma set_slot_request_ok:
  assumes "fanout_inv g"
  shows "outcome_ok restoring g (set_slot_request g i sid r d)"
proof (cases "\<not> admission_closed g \<and> i < length (slots g) \<and> replaceable (slots g ! i)")
  case True
  then show ?thesis
    using moves_request [OF assms, where i = i and s' = "(slots g ! i)\<lparr>slot_id := sid, role := r, requested_description := d\<rparr>"]
    by (auto simp: set_slot_request_def set_slot_request_inner_def ensure_spawn_admission_open_def slot_mut_def
        replaceable_def slot_step.request intro!: outcome_okI)
next
  case False
  then show ?thesis
    by (auto simp: set_slot_request_def set_slot_request_inner_def ensure_spawn_admission_open_def slot_mut_def
        replaceable_def outcome_okI(1))
qed

lemma record_spawn_rejected_ok:
  assumes inv: "fanout_inv g"
  shows "outcome_ok restoring g (record_spawn_rejected g i reason)"
proof (cases "\<not> admission_closed g \<and> i < length (slots g) \<and> replaceable (slots g ! i)")
  case True
  let ?s = "(slots g ! i)\<lparr>slot_status := SlotSpawnRejected, terminal_reason := Some reason\<rparr>"
  have "slot_step (admission_closed g) restoring (slots g ! i) ?s" using True by (auto intro: slot_step.reject)
  then have "slot_moves restoring g i ?s (bump (recompute_status_from_cache
      (apply_slot_status_transition (put_slot g i ?s) (slot_status (slots g ! i)) (slot_status ?s) False False)))"
    using True inv_not_collected [OF inv, of i]
    by (intro moves_transition [OF inv]) (auto simp: replaceable_def)
  then show ?thesis
    using True
    by (auto simp: record_spawn_rejected_def ensure_spawn_admission_open_def slot_mut_def Let_def
        replaceable_def intro!: outcome_okI)
next
  case False
  then show ?thesis
    by (auto simp: record_spawn_rejected_def ensure_spawn_admission_open_def slot_mut_def replaceable_def
        outcome_okI(1))
qed

lemma record_unassigned_terminal_ok:
  assumes inv: "fanout_inv g"
  shows "outcome_ok restoring g (record_unassigned_terminal g i st reason)"
proof (cases "slot_is_terminal st \<and> i < length (slots g) \<and> agent_id (slots g ! i) = None \<and>
    \<not> slot_is_terminal (slot_status (slots g ! i))")
  case True
  let ?s = "(slots g ! i)\<lparr>slot_status := st, terminal_reason := Some reason\<rparr>"
  have "slot_step (admission_closed g) restoring (slots g ! i) ?s" using True by (auto intro: slot_step.unassigned)
  then have "slot_moves restoring g i ?s (bump (recompute_status_from_cache
      (apply_slot_status_transition (put_slot g i ?s) (slot_status (slots g ! i)) (slot_status ?s) False False)))"
    using True inv_not_collected [OF inv, of i] by (intro moves_transition [OF inv]) auto
  then show ?thesis
    using True by (auto simp: record_unassigned_terminal_def slot_mut_def Let_def intro!: outcome_okI)
next
  case False
  then show ?thesis
    by (auto simp: record_unassigned_terminal_def slot_mut_def outcome_okI(1))
qed

lemma record_spawn_accepted_ok:
  assumes inv: "fanout_inv g"
  shows "outcome_ok restoring g (record_spawn_accepted_with_run g i agent run)"
proof (cases "\<not> admission_closed g \<and> i < length (slots g) \<and> replaceable (slots g ! i)")
  case True
  let ?s = "(slots g ! i)\<lparr>agent_id := Some agent, slot_run_id := run, slot_status := SlotRunning,
    terminal_reason := None\<rparr>"
  have "slot_step (admission_closed g) restoring (slots g ! i) ?s" using True by (auto intro: slot_step.accept)
  then have "slot_moves restoring g i ?s (finish_accepted_slot (put_slot g i ?s) i agent (slot_status (slots g ! i)))"
    using True by (intro moves_accept [OF inv]) (auto simp: replaceable_def)
  then show ?thesis
    using True
    by (auto simp: record_spawn_accepted_with_run_def ensure_spawn_admission_open_def slot_mut_def Let_def
        replaceable_def intro!: outcome_okI)
next
  case False
  then show ?thesis
    by (auto simp: record_spawn_accepted_with_run_def ensure_spawn_admission_open_def slot_mut_def replaceable_def
        outcome_okI(1) split: option.split)
qed

lemma restore_spawn_accepted_ok:
  assumes inv: "fanout_inv g"
  shows "outcome_ok True g (restore_spawn_accepted_with_run g i agent run sid r d)"
proof (cases "i < length (slots g) \<and>
    (replaceable (slots g ! i) \<or> cancelled_placeholder (admission_closed g) (slots g ! i))")
  case True
  let ?s = "(slots g ! i)\<lparr>slot_id := sid, role := r, requested_description := d, agent_id := Some agent,
    slot_run_id := run, slot_status := SlotRunning, terminal_reason := None\<rparr>"
  have "slot_step (admission_closed g) True (slots g ! i) ?s" using True by (auto intro: slot_step.restore)
  then have "slot_moves True g i ?s (finish_accepted_slot (put_slot g i ?s) i agent (slot_status (slots g ! i)))"
    using True by (intro moves_accept [OF inv]) (auto simp: replaceable_def cancelled_placeholder_def)
  then show ?thesis
    using True
    by (auto simp: restore_spawn_accepted_with_run_def slot_mut_def Let_def replaceable_def
        cancelled_placeholder_def intro!: outcome_okI)
next
  case False
  then show ?thesis
    by (auto simp: restore_spawn_accepted_with_run_def slot_mut_def replaceable_def cancelled_placeholder_def
        Let_def outcome_okI(1) split: option.split)
qed

lemma record_terminal_ok:
  assumes inv: "fanout_inv g"
  shows "outcome_ok restoring g (record_terminal_by_agent_with_authority g agent st reason durable)"
proof (cases "agent_slot_index g agent")
  case None
  then show ?thesis by (simp add: record_terminal_by_agent_with_authority_def outcome_okI(1))
next
  case (Some i)
  have i: "i < length (slots g)" "agent_id (slots g ! i) = Some agent" using inv_agent_slot [OF inv Some] by auto
  let ?s = "(slots g ! i)\<lparr>slot_status := st, terminal_reason := reason\<rparr>"
  show ?thesis
  proof (cases "slot_is_terminal st")
    case True
    have "slot_step (admission_closed g) restoring (slots g ! i) ?s" by (rule slot_step.settle [OF i(2) True])
    then have "slot_moves restoring g i ?s (bump (recompute_status_from_cache (apply_slot_status_transition (put_slot g i ?s)
        (slot_status (slots g ! i)) (slot_status ?s) True (result_collected (slots g ! i)))))"
      using i by (intro moves_transition [OF inv]) auto
    then show ?thesis
      using i Some by (auto simp: record_terminal_by_agent_with_authority_def Let_def intro!: outcome_okI)
  qed (simp add: record_terminal_by_agent_with_authority_def outcome_okI(1))
qed

lemma record_status_ok:
  assumes inv: "fanout_inv g"
  shows "outcome_ok restoring g (record_status_by_agent g agent st reason)"
proof (cases "slot_is_terminal st")
  case True
  then show ?thesis
    by (simp add: record_status_by_agent_def record_terminal_by_agent_def record_terminal_ok [OF inv])
next
  case st: False
  show ?thesis
  proof (cases "agent_slot_index g agent")
    case None
    then show ?thesis using st by (simp add: record_status_by_agent_def outcome_okI(1))
  next
    case (Some i)
    have i: "i < length (slots g)" "agent_id (slots g ! i) = Some agent" using inv_agent_slot [OF inv Some] by auto
    let ?s = "(slots g ! i)\<lparr>slot_status := st, terminal_reason := reason\<rparr>"
    show ?thesis
    proof (cases "slot_is_terminal (slot_status (slots g ! i))")
      case False
      have "slot_step (admission_closed g) restoring (slots g ! i) ?s" by (rule slot_step.progress [OF i(2) False st])
      then have "slot_moves restoring g i ?s (bump (recompute_status_from_cache (apply_slot_status_transition (put_slot g i ?s)
          (slot_status (slots g ! i)) (slot_status ?s) True False)))"
        using i False st by (intro moves_transition [OF inv]) auto
      then show ?thesis
        using i st Some by (auto simp: record_status_by_agent_def Let_def intro!: outcome_okI)
    qed (use i st Some in \<open>simp add: record_status_by_agent_def outcome_okI(1)\<close>)
  qed
qed

lemma mark_result_collected_moves:
  assumes inv: "fanout_inv g"
  shows "snd (mark_result_collected g agent) = g \<or> (\<exists>i s'. slot_moves restoring g i s' (snd (mark_result_collected g agent)))"
proof (cases "agent_slot_index g agent")
  case None
  then show ?thesis by (simp add: mark_result_collected_def)
next
  case (Some i)
  have i: "i < length (slots g)" "agent_id (slots g ! i) = Some agent" using inv_agent_slot [OF inv Some] by auto
  let ?s = "(slots g ! i)\<lparr>result_collected := True\<rparr>"
  show ?thesis
  proof (cases "slot_is_terminal (slot_status (slots g ! i)) \<and> \<not> result_collected (slots g ! i)")
    case True
    have adj: "cnt P ((slots g)[i := ?s]) = cnt P (slots g) - of_bool (P (slots g ! i)) + of_bool (P ?s)" for P
      by (rule cnt_adjust [OF i(1)])
    have same: "cnt P ((slots g)[i := ?s]) = cnt P (slots g)" if "P ?s = P (slots g ! i)" for P
      using cnt_update [OF i(1), of P ?s] that by simp
    have rc: "recount ((slots g)[i := ?s]) =
        (recount (slots g))\<lparr>collected := collected (recount (slots g)) + 1,
           uncollected := uncollected (recount (slots g)) - 1\<rparr>"
      using True i(2) adj [of result_collected] adj [of is_uncollected]
      by (simp add: recount_def same is_uncollected_def)
    have "status_from_summary (target_count g) (recount ((slots g)[i := ?s])) =
        status_from_summary (target_count g) (recount (slots g))"
      by (simp add: rc status_from_summary_def)
    moreover have "slot_step (admission_closed g) restoring (slots g ! i) ?s"
      using True i(2) by (blast intro: slot_step.collect)
    ultimately have "slot_moves restoring g i ?s (snd (mark_result_collected g agent))"
      using i Some True rc inv
      unfolding slot_moves_def mark_result_collected_def fanout_inv_def bump_def put_slot_def Let_def
      by (intro conjI exI [of _ "agent_slot_index g"]) (auto intro: AgentFanoutGroupProjection.equality)
    then show ?thesis by blast
  qed (use i Some in \<open>auto simp: mark_result_collected_def Let_def\<close>)
qed


section \<open>Invariant and monotony of every operation\<close>

fun is_restore :: "fanout_op \<Rightarrow> bool" where
  "is_restore (RestoreAccepted _ _ _ _ _ _) = True"
| "is_restore _ = False"

lemma fanout_step_cases:
  assumes inv: "fanout_inv g"
  obtains (idle) now where "fanout_step g op = g\<lparr>last_touched := now\<rparr>"
  | (closes) "op = CloseAdmission" "\<not> admission_closed g"
      "fanout_step g op = g\<lparr>admission_closed := True, revision := sat_add (revision g) 1\<rparr>"
  | (moves) i s' where "slot_moves (is_restore op) g i s' (fanout_step g op)"
proof -
  have same: thesis if "fanout_step g op = g"
    by (rule idle [of "last_touched g"]) (simp add: that)
  have from_ok: thesis if "outcome_ok (is_restore op) g res" "fanout_step g op = snd res" for res
  proof (cases "snd res = g")
    case True
    with that(2) show ?thesis by (intro same) simp
  next
    case False
    with that(1) obtain i s' where "slot_moves (is_restore op) g i s' (snd res)" unfolding outcome_ok_def by blast
    with that(2) show ?thesis by (intro moves) simp
  qed
  show thesis
  proof (cases op)
    case CloseAdmission
    show ?thesis
    proof (cases "admission_closed g")
      case True
      then show ?thesis by (intro same) (simp add: CloseAdmission close_spawn_admission_def)
    next
      case False
      then show ?thesis by (intro closes) (simp_all add: CloseAdmission close_spawn_admission_def bump_def)
    qed
  next
    case (Touch now)
    show ?thesis by (rule idle [of now]) (simp add: Touch touch_def)
  next
    case (Collect agent)
    show ?thesis
    proof (cases "snd (mark_result_collected g agent) = g")
      case True
      then show ?thesis by (intro same) (simp add: Collect)
    next
      case False
      then obtain i s' where "slot_moves (is_restore op) g i s' (snd (mark_result_collected g agent))"
        using mark_result_collected_moves [OF inv, of agent] by blast
      then show ?thesis by (intro moves) (simp add: Collect)
    qed
  next
    case (SetRequest i sid r d)
    show ?thesis by (rule from_ok, rule set_slot_request_ok [OF inv]) (simp add: SetRequest)
  next
    case (SpawnRejected i reason)
    show ?thesis by (rule from_ok, rule record_spawn_rejected_ok [OF inv]) (simp add: SpawnRejected)
  next
    case (UnassignedTerminal i st reason)
    show ?thesis by (rule from_ok, rule record_unassigned_terminal_ok [OF inv]) (simp add: UnassignedTerminal)
  next
    case (SpawnAccepted i agent run)
    show ?thesis by (rule from_ok, rule record_spawn_accepted_ok [OF inv]) (simp add: SpawnAccepted)
  next
    case (RestoreAccepted i agent run sid r d)
    show ?thesis
      by (rule from_ok [of "restore_spawn_accepted_with_run g i agent run sid r d"])
        (simp_all add: RestoreAccepted restore_spawn_accepted_ok [OF inv])
  next
    case (TerminalByAgent agent st reason)
    show ?thesis
      by (rule from_ok, rule record_terminal_ok [OF inv]) (simp add: TerminalByAgent record_terminal_by_agent_def)
  next
    case (RefineTerminal agent st reason)
    show ?thesis
      by (rule from_ok, rule record_terminal_ok [OF inv]) (simp add: RefineTerminal refine_durable_terminal_by_agent_def)
  next
    case (StatusByAgent agent st reason)
    show ?thesis by (rule from_ok, rule record_status_ok [OF inv]) (simp add: StatusByAgent)
  qed
qed

lemma fanout_step_inv: "fanout_inv g \<Longrightarrow> fanout_inv (fanout_step g op)"
proof -
  assume inv: "fanout_inv g"
  show "fanout_inv (fanout_step g op)"
  proof (cases rule: fanout_step_cases [OF inv, of op, case_names idle closes moves])
    case (moves i s')
    then show ?thesis by (rule slot_moves_inv [OF inv])
  qed (use inv one_le_sat_add in \<open>auto simp: fanout_inv_def\<close>)
qed

lemma cnt_const: "(\<And>x. x \<in> set xs \<Longrightarrow> P x = b) \<Longrightarrow> cnt P xs = (if b then length xs else 0)"
  unfolding cnt_def by (induction xs) auto

lemma group_new_inv: "fanout_inv (group_new now gid name n)"
proof -
  let ?ss = "slots (group_new now gid name n)"
  have "cnt (\<lambda>s. slot_status s = SlotPlanned) ?ss = max n 1"
    by (subst cnt_const [of _ _ True]) (auto simp: group_new_def Let_def)
  moreover have zero: "cnt P ?ss = 0" if "\<And>s. slot_status s = SlotPlanned \<Longrightarrow> agent_id s = None \<Longrightarrow>
      \<not> result_collected s \<Longrightarrow> \<not> P s" for P
    by (subst cnt_const [of _ _ False]) (use that in \<open>auto simp: group_new_def Let_def\<close>)
  ultimately have rc: "recount ?ss = summary_default\<lparr>sum_target_count := max n 1, planned := max n 1\<rparr>"
    by (simp add: recount_def summary_default_def is_active_def is_uncollected_def zero)
      (simp add: group_new_def Let_def)
  then show ?thesis
    unfolding fanout_inv_def rc
    by (auto simp: group_new_def Let_def slot_ok_def status_from_summary_def summary_default_def)
qed

definition slot_evolves :: "AgentFanoutSlot \<Rightarrow> AgentFanoutSlot \<Rightarrow> bool" where
  "slot_evolves s s' \<longleftrightarrow>
     (agent_id s \<noteq> None \<longrightarrow>
        agent_id s' = agent_id s \<and> slot_run_id s' = slot_run_id s \<and> slot_id s' = slot_id s \<and> role s' = role s \<and>
        requested_description s' = requested_description s \<and>
        (slot_is_terminal (slot_status s) \<longrightarrow> slot_is_terminal (slot_status s')) \<and>
        (result_collected s \<longrightarrow> result_collected s'))"

definition group_evolves :: "AgentFanoutGroupProjection \<Rightarrow> AgentFanoutGroupProjection \<Rightarrow> bool" where
  "group_evolves g g' \<longleftrightarrow>
     group_id g' = group_id g \<and> target_count g' = target_count g \<and> length (slots g') = length (slots g) \<and>
     revision g \<le> revision g' \<and> (admission_closed g \<longrightarrow> admission_closed g') \<and>
     (\<forall>i < length (slots g). slot_evolves (slots g ! i) (slots g' ! i))"

lemma slot_step_evolves: "slot_step closed restoring s s' \<Longrightarrow> slot_evolves s s'"
  by (erule slot_step.cases) (auto simp: slot_evolves_def replaceable_def cancelled_placeholder_def)

lemma slot_evolves_refl: "slot_evolves s s"
  by (simp add: slot_evolves_def)

lemma slot_evolves_trans: "slot_evolves s t \<Longrightarrow> slot_evolves t u \<Longrightarrow> slot_evolves s u"
  by (auto simp: slot_evolves_def)

lemma slot_moves_evolves:
  assumes "slot_moves restoring g i s' g'"
  shows "group_evolves g g'"
proof -
  have i: "i < length (slots g)" and step: "slot_step (admission_closed g) restoring (slots g ! i) s'"
    and g': "slots g' = (slots g)[i := s']" "revision g' = sat_add (revision g) 1" "group_id g' = group_id g"
      "target_count g' = target_count g" "admission_closed g' = admission_closed g"
    using assms by (auto simp: slot_moves_def)
  have "slot_evolves (slots g ! j) ((slots g)[i := s'] ! j)" if "j < length (slots g)" for j
    using that slot_step_evolves [OF step] by (cases "j = i") (auto simp: slot_evolves_refl)
  then show ?thesis by (simp add: group_evolves_def g' le_sat_add)
qed

lemma fanout_step_evolves: "fanout_inv g \<Longrightarrow> group_evolves g (fanout_step g op)"
proof -
  assume inv: "fanout_inv g"
  show "group_evolves g (fanout_step g op)"
  proof (cases rule: fanout_step_cases [OF inv, of op, case_names idle closes moves])
    case (moves i s')
    then show ?thesis by (rule slot_moves_evolves)
  qed (simp_all add: group_evolves_def slot_evolves_refl le_sat_add)
qed

lemma group_evolves_trans:
  assumes "group_evolves g h" and "group_evolves h k"
  shows "group_evolves g k"
proof -
  have "revision g \<le> revision k" using assms order_trans unfolding group_evolves_def by blast
  moreover have "slot_evolves (slots g ! i) (slots k ! i)" if "i < length (slots g)" for i
    using assms that slot_evolves_trans [of "slots g ! i" "slots h ! i"] by (simp add: group_evolves_def)
  ultimately show ?thesis using assms by (simp add: group_evolves_def)
qed

interpretation fanout: climbing_machine fanout_step "\<lambda>_. True" fanout_inv group_evolves
proof unfold_locales
  fix g h k op
  show "fanout_inv g \<Longrightarrow> fanout_inv (fanout_step g op)" by (rule fanout_step_inv)
  show "group_evolves g g" by (simp add: group_evolves_def slot_evolves_refl)
  show "group_evolves g h \<Longrightarrow> group_evolves h k \<Longrightarrow> group_evolves g k" by (rule group_evolves_trans)
  show "fanout_inv g \<Longrightarrow> group_evolves g (fanout_step g op)" by (rule fanout_step_evolves)
qed

section \<open>The summary partitions the slots\<close>

lemma cnt_partition:
  "(\<And>x. P x \<longleftrightarrow> Q x \<or> R x) \<Longrightarrow> (\<And>x. \<not> (Q x \<and> R x)) \<Longrightarrow> cnt P xs = cnt Q xs + cnt R xs"
  unfolding cnt_def by (induction xs) auto

lemma recount_partition:
  "planned (recount ss) + active (recount ss) + terminal_slots (recount ss) = length ss"
  "waiting_for_input (recount ss) \<le> active (recount ss)"
  "completed (recount ss) + interrupted (recount ss) + failed (recount ss) + cancelled_by_user (recount ss) +
     cancelled_by_runtime (recount ss) + timed_out (recount ss) + spawn_rejected (recount ss) =
   terminal_slots (recount ss)"
proof -
  show "planned (recount ss) + active (recount ss) + terminal_slots (recount ss) = length ss"
  proof (induction ss)
    case (Cons s ss)
    then show ?case by (cases "slot_status s") (simp_all add: recount_def cnt_def is_active_def)
  qed (simp add: recount_def cnt_def)
  show "waiting_for_input (recount ss) \<le> active (recount ss)"
    by (induction ss) (auto simp: recount_def cnt_def is_active_def)
  show "completed (recount ss) + interrupted (recount ss) + failed (recount ss) + cancelled_by_user (recount ss) +
     cancelled_by_runtime (recount ss) + timed_out (recount ss) + spawn_rejected (recount ss) =
   terminal_slots (recount ss)"
  proof (induction ss)
    case (Cons s ss)
    then show ?case by (cases "slot_status s") (simp_all add: recount_def cnt_def)
  qed (simp add: recount_def cnt_def)
qed

lemma status_of_inv:
  assumes "fanout_inv g"
  shows "group_status g \<noteq> GroupIncomplete"
    and "group_status g = GroupFinished \<longleftrightarrow> list_all (\<lambda>s. slot_is_terminal (slot_status s)) (slots g)"
    and "group_status g = GroupPlanned \<longleftrightarrow> list_all (\<lambda>s. slot_status s = SlotPlanned) (slots g)"
proof -
  note part = recount_partition [of "slots g"]
  have full: "cnt P xs = length xs \<longleftrightarrow> list_all P xs" for P and xs :: "AgentFanoutSlot list"
    using length_filter_less [of _ xs P] by (auto simp: cnt_def list_all_iff filter_id_conv)
      (metis length_filter_less less_irrefl)
  have t: "terminal_slots (recount (slots g)) = cnt (\<lambda>s. slot_is_terminal (slot_status s)) (slots g)"
    and p: "planned (recount (slots g)) = cnt (\<lambda>s. slot_status s = SlotPlanned) (slots g)"
    by (simp_all add: recount_def)
  have g: "group_status g = status_from_summary (target_count g) (recount (slots g))"
    "length (slots g) = target_count g" "1 \<le> target_count g"
    using assms by (auto simp: fanout_inv_def)
  show "group_status g \<noteq> GroupIncomplete" using part g by (auto simp: status_from_summary_def)
  show "group_status g = GroupFinished \<longleftrightarrow> list_all (\<lambda>s. slot_is_terminal (slot_status s)) (slots g)"
    using part g full [of "\<lambda>s. slot_is_terminal (slot_status s)" "slots g"] t
    by (auto simp: status_from_summary_def)
  show "group_status g = GroupPlanned \<longleftrightarrow> list_all (\<lambda>s. slot_status s = SlotPlanned) (slots g)"
    using part g full [of "\<lambda>s. slot_status s = SlotPlanned" "slots g"] p
    by (auto simp: status_from_summary_def)
qed

text \<open>
  C9. Whatever operations a group goes through, its cached summary is the count of its
  slots, the number of slots is the declared target, planned, active and terminal slots
  add up to it, and the status follows from the slots: finished exactly when every slot is
  terminal, planned exactly when every slot is planned, and never incomplete.
\<close>

theorem fanout_summary_exact:
  "let g = foldl fanout_step (group_new now gid name n) ops in
   summary_cache g = recount (slots g) \<and> length (slots g) = max n 1 \<and>
   planned (summary_cache g) + active (summary_cache g) + terminal_slots (summary_cache g) = max n 1 \<and>
   group_status g \<noteq> GroupIncomplete \<and>
   (group_status g = GroupFinished \<longleftrightarrow> list_all (\<lambda>s. slot_is_terminal (slot_status s)) (slots g)) \<and>
   (group_status g = GroupPlanned \<longleftrightarrow> list_all (\<lambda>s. slot_status s = SlotPlanned) (slots g))"
proof -
  let ?g = "foldl fanout_step (group_new now gid name n) ops"
  have inv: "fanout_inv ?g"
    by (rule fanout.run_inv [OF group_new_inv]) (simp add: list_all_iff)
  have "group_evolves (group_new now gid name n) ?g"
    by (rule fanout.run_below [OF group_new_inv]) (simp add: list_all_iff)
  then have len: "length (slots ?g) = max n 1"
    by (simp add: group_evolves_def group_new_def Let_def)
  have sum: "summary_cache ?g = recount (slots ?g)" using inv by (simp add: fanout_inv_def)
  show ?thesis
    unfolding Let_def sum
    using len status_of_inv [OF inv] recount_partition(1) [of "slots ?g"] by simp
qed

text \<open>
  An accepted child is never replaced: whatever happens later, its slot keeps the
  agent, the run and the request, once terminal it stays terminal, a collected result
  stays collected, the group keeps its identity and size, its revision never goes back
  and a closed admission fence stays closed.
\<close>

theorem fanout_accepted_slots_kept:
  "group_evolves (foldl fanout_step (group_new now gid name n) ops)
     (foldl fanout_step (group_new now gid name n) (ops @ later))"
  using fanout.run_below [of "foldl fanout_step (group_new now gid name n) ops" later]
    fanout.run_inv [OF group_new_inv, of ops]
  by (simp add: list_all_iff)

section \<open>The admission fence\<close>








section \<open>Revisions and errors\<close>

text \<open>
  The revision counts material changes: an operation either changes nothing but the
  time of the last access, or advances the revision by one, up to saturation.
\<close>

theorem fanout_revision_counts:
  assumes "fanout_inv g"
  shows "(fanout_step g op)\<lparr>last_touched := last_touched g\<rparr> = g \<or>
    revision (fanout_step g op) = sat_add (revision g) 1"
  by (cases rule: fanout_step_cases [OF assms, of op]) (auto simp: slot_moves_def)

fun fanout_failure :: "AgentFanoutGroupProjection \<Rightarrow> fanout_op \<Rightarrow> fanout_error option" where
  "fanout_failure g (SetRequest i sid r d) = result_error (fst (set_slot_request g i sid r d))"
| "fanout_failure g (SpawnRejected i reason) = result_error (fst (record_spawn_rejected g i reason))"
| "fanout_failure g (UnassignedTerminal i st reason) = result_error (fst (record_unassigned_terminal g i st reason))"
| "fanout_failure g (SpawnAccepted i agent run) = result_error (fst (record_spawn_accepted_with_run g i agent run))"
| "fanout_failure g (RestoreAccepted i agent run sid r d) =
     result_error (fst (restore_spawn_accepted_with_run g i agent run sid r d))"
| "fanout_failure g (TerminalByAgent agent st reason) = result_error (fst (record_terminal_by_agent g agent st reason))"
| "fanout_failure g (RefineTerminal agent st reason) =
     result_error (fst (refine_durable_terminal_by_agent g agent st reason))"
| "fanout_failure g (StatusByAgent agent st reason) = result_error (fst (record_status_by_agent g agent st reason))"
| "fanout_failure g _ = None"

lemma outcome_ok_error: "outcome_ok restoring g res \<Longrightarrow> result_error (fst res) = Some e \<Longrightarrow> snd res = g"
  by (auto simp: outcome_ok_def)

text \<open>
  An operation that returns an error leaves the group exactly as it was: a duplicate or
  late spawn, rejection or completion never replaces metadata of a slot.
\<close>

theorem fanout_errors_atomic:
  assumes inv: "fanout_inv g" and "fanout_failure g op = Some e"
  shows "fanout_step g op = g"
  using assms(2) outcome_ok_error [OF set_slot_request_ok [OF inv]]
    outcome_ok_error [OF record_spawn_rejected_ok [OF inv]]
    outcome_ok_error [OF record_unassigned_terminal_ok [OF inv]]
    outcome_ok_error [OF record_spawn_accepted_ok [OF inv]]
    outcome_ok_error [OF restore_spawn_accepted_ok [OF inv]]
    outcome_ok_error [OF record_terminal_ok [OF inv]]
    outcome_ok_error [OF record_status_ok [OF inv]]
  by (cases op) (simp_all add: record_terminal_by_agent_def refine_durable_terminal_by_agent_def)

text \<open>
  Slot metadata is accepted exactly for a group id of 1 to 96 bytes after trimming, a
  target count of 1 to 50, a slot index below the target and a slot id that is absent or
  not blank; group and slot id are stored trimmed.
\<close>

lemma slot_identity_new_iff:
  "slot_identity_new gid target index sid = Inr identity \<longleftrightarrow>
     trim gid \<noteq> [] \<and> length (trim gid) \<le> 96 \<and> 1 \<le> target \<and> target \<le> 50 \<and> index < target \<and>
     (case sid of None \<Rightarrow> True | Some s \<Rightarrow> trim s \<noteq> []) \<and>
     identity = \<lparr>ident_group_id = trim gid, ident_target_count = target, ident_slot_index = index,
                 ident_slot_id = map_option trim sid\<rparr>"
  by (cases sid)
    (auto simp: slot_identity_new_def Let_def MAX_FANOUT_GROUP_ID_BYTES_def AGENT_FANOUT_MAX_TARGET_COUNT_def)

section \<open>Concrete applications\<close>

definition sample_group :: AgentFanoutGroupProjection where
  "sample_group = foldl fanout_step (group_new 0 ''review'' ''Review'' 2)
     [SpawnAccepted 0 ''a1'' None, CloseAdmission]"

lemma sample_group_inv: "fanout_inv sample_group"
  unfolding sample_group_def by (rule fanout.run_inv [OF group_new_inv]) simp

lemma sample_group_closed: "admission_closed sample_group"
  by (simp add: sample_group_def close_spawn_admission_def bump_def)


theorem fanout_revision_counts_witness:
  "(fanout_step sample_group (Touch 7))\<lparr>last_touched := last_touched sample_group\<rparr> = sample_group \<or>
   revision (fanout_step sample_group (Touch 7)) = sat_add (revision sample_group) 1"
  by (rule fanout_revision_counts [OF sample_group_inv])

theorem fanout_errors_atomic_witness:
  "fanout_step sample_group (SpawnAccepted 1 ''a2'' None) = sample_group"
  by (rule fanout_errors_atomic [OF sample_group_inv, of _ "AdmissionClosed (group_id sample_group)"])
    (simp add: record_spawn_accepted_with_run_def ensure_spawn_admission_open_def sample_group_closed)

end
