(* ===== verification/Circuit_Breaker.thy ===== *)
theory Circuit_Breaker
  imports Json_Value
begin

text \<open>
  The advisory circuit breaker of the agent loop, from
  \<^verbatim>\<open>crates/astra-turn-core/src/loop_circuit_breaker.rs\<close>, over the call signatures and the
  repetition detectors of \<^verbatim>\<open>crates/astra-turn-core/src/stall.rs\<close>. A \<^verbatim>\<open>BTreeSet\<close> of signatures
  is a set. The counters that the source advances with
  \<^verbatim>\<open>+= 1\<close> wrap as in a release build.
\<close>

section \<open>Signatures and repetition\<close>

record StallSignature =
  sig_tool_name :: rstr
  sig_digest :: rstr

definition signature_stream :: "rstr \<Rightarrow> rstr \<Rightarrow> rstr" where
  "signature_stream name bytes =
     ''astra.stall.signature.v1'' @ [char_of (0 :: nat)] @ be_bytes (length name mod 2 ^ 64) @ name @ bytes"

text \<open>SHA-256 and the reading and printing of JSON are code of other crates.\<close>

record stall_externals =
  sha256 :: "rstr \<Rightarrow> rstr"
  from_str :: "rstr \<Rightarrow> json option"
  to_string :: "json \<Rightarrow> rstr"

definition stall_signature_new :: "stall_externals \<Rightarrow> rstr \<Rightarrow> rstr \<Rightarrow> StallSignature" where
  "stall_signature_new ext name bytes =
     \<lparr>sig_tool_name = name, sig_digest = sha256 ext (signature_stream name bytes)\<rparr>"

definition last_n :: "nat \<Rightarrow> 'a list \<Rightarrow> 'a list" where
  "last_n n xs = drop (length xs - n) xs"

definition trailing_identical_sig_depth :: "StallSignature set list \<Rightarrow> nat" where
  "trailing_identical_sig_depth turns =
     (if turns = [] then 0
      else if last turns = {} then 0
      else 1 + length (takeWhile (\<lambda>prev. prev = last turns) (tl (rev turns))))"

datatype StallDetectionError = InvalidWindowOrBudget nat

definition canonical_tool_args :: "stall_externals \<Rightarrow> rstr \<Rightarrow> rstr" where
  "canonical_tool_args ext raw = (case from_str ext raw of Some v \<Rightarrow> to_string ext v | None \<Rightarrow> raw)"

definition str_or_default :: "json option \<Rightarrow> rstr" where
  "str_or_default v = (case v of Some (JString t) \<Rightarrow> t | _ \<Rightarrow> [])"

definition server_call_parts :: "stall_externals \<Rightarrow> json \<Rightarrow> rstr \<times> rstr" where
  "server_call_parts ext call =
     (case json_get call ''function'' of
        Some (JObject function) \<Rightarrow>
          (str_or_default (bt_get function ''name''), str_or_default (bt_get function ''arguments''))
      | _ \<Rightarrow>
          (str_or_default (json_get call ''name''),
           (case json_get call ''arguments'' of Some v \<Rightarrow> to_string ext v | None \<Rightarrow> [])))"

definition server_tool_call_signature :: "stall_externals \<Rightarrow> json list \<Rightarrow> StallSignature set" where
  "server_tool_call_signature ext calls =
     set (map (\<lambda>call. let (name, arguments) = server_call_parts ext call
                      in stall_signature_new ext name (canonical_tool_args ext arguments)) calls)"

definition record_server_tool_signatures ::
    "stall_externals \<Rightarrow> StallSignature set list \<Rightarrow> json list \<Rightarrow> nat \<Rightarrow> StallSignature set list" where
  "record_server_tool_signatures ext sigs calls window =
     (if calls = [] then sigs
      else let sigs = sigs @ [server_tool_call_signature ext calls] in
        if length sigs > window then drop (length sigs - window) sigs else sigs)"

definition detect_server_stall :: "StallSignature set list \<Rightarrow> nat \<Rightarrow> (StallDetectionError, bool) result" where
  "detect_server_stall sigs window =
     (if window = 0 then Inl (InvalidWindowOrBudget 0)
      else if length sigs < window then Inr False
      else let recent = last_n window sigs in
        Inr (list_all (\<lambda>s. s = recent ! (window - 1)) recent))"

section \<open>Rounds, configuration and state\<close>

record RoundSignal =
  tool_signatures :: "StallSignature set"
  produced_mutation :: bool
  tool_count :: nat

datatype BreakerState = Closed | Open | HalfOpen

fun operator_label :: "BreakerState \<Rightarrow> rstr" where
  "operator_label Closed = ''monitoring''"
| "operator_label Open = ''tripped''"
| "operator_label HalfOpen = ''recovering''"

datatype BreakerAction =
    Continue
  | Introspect nat
  | PatternObserved
  | AdvisoryThresholdReached
  | HardRoundLimitReached nat nat

record BreakerConfig =
  stall_threshold :: nat
  repetition_threshold :: nat
  read_only_stall_threshold :: nat
  max_introspect_emissions :: nat
  half_open_patience :: nat
  absolute_max_rounds :: nat

definition config_history_limit :: "BreakerConfig \<Rightarrow> nat" where
  "config_history_limit c =
     max (max (max (usize_sat_mul (stall_threshold c) 3) (repetition_threshold c)) (read_only_stall_threshold c)) 1"

definition config_default :: BreakerConfig where
  "config_default = \<lparr>stall_threshold = 3, repetition_threshold = 3, read_only_stall_threshold = 12,
     max_introspect_emissions = 3, half_open_patience = 2, absolute_max_rounds = 1000\<rparr>"

record LoopCircuitBreaker =
  config :: BreakerConfig
  breaker_state :: BreakerState
  rounds :: "RoundSignal list"
  total_observed :: nat
  history_limit :: nat
  half_open_rounds :: nat
  consecutive_read_only :: nat
  introspect_emissions_since_last_write :: nat
  trip_tail_signatures :: "StallSignature set"
  advisory_threshold_emitted :: bool

definition breaker_validate_continuation :: "LoopCircuitBreaker \<Rightarrow> (rstr, unit) result" where
  "breaker_validate_continuation b =
     (let required = config_history_limit (config b) in
      if stall_threshold (config b) = 0
        \<or> repetition_threshold (config b) = 0
        \<or> history_limit b < required
        \<or> length (rounds b) \<noteq> min (total_observed b) (history_limit b)
        \<or> consecutive_read_only b > total_observed b
        \<or> introspect_emissions_since_last_write b > total_observed b
        \<or> half_open_rounds b > total_observed b
      then Inl ''invalid circuit-breaker continuation''
      else Inr ())"

definition breaker_new :: "BreakerConfig \<Rightarrow> LoopCircuitBreaker" where
  "breaker_new c =
     \<lparr>config = c, breaker_state = Closed, rounds = [], total_observed = 0,
      history_limit = config_history_limit c, half_open_rounds = 0, consecutive_read_only = 0,
      introspect_emissions_since_last_write = 0, trip_tail_signatures = {},
      advisory_threshold_emitted = False\<rparr>"

definition with_defaults :: LoopCircuitBreaker where
  "with_defaults = breaker_new config_default"

section \<open>Detectors\<close>

definition read_only_round :: "RoundSignal \<Rightarrow> bool" where
  "read_only_round r \<longleftrightarrow> \<not> produced_mutation r \<and> tool_count r > 0"

definition signatures_of :: "RoundSignal list \<Rightarrow> StallSignature set" where
  "signatures_of rs = \<Union> (set (map tool_signatures rs))"

definition detect_repetition_stall :: "LoopCircuitBreaker \<Rightarrow> bool" where
  "detect_repetition_stall b =
     (let n = repetition_threshold (config b) in
      if length (rounds b) < n then False
      else let tail = last_n n (rounds b); reference = tool_signatures (tail ! 0) in
        reference \<noteq> {} \<and> list_all (\<lambda>r. tool_signatures r = reference) tail)"

definition no_new_patterns_in_tail :: "LoopCircuitBreaker \<Rightarrow> nat \<Rightarrow> bool" where
  "no_new_patterns_in_tail b n =
     (let split = length (rounds b) - n;
          window_start = split - usize_sat_mul n 2;
          prior_sigs = signatures_of (drop window_start (take split (rounds b)))
      in if prior_sigs = {} then False
         else signatures_of (drop split (rounds b)) \<subseteq> prior_sigs)"

definition detect_no_progress_stall :: "LoopCircuitBreaker \<Rightarrow> bool" where
  "detect_no_progress_stall b =
     (let n = stall_threshold (config b) in
      if length (rounds b) < n then False
      else list_all read_only_round (last_n n (rounds b)) \<and> no_new_patterns_in_tail b n)"

fun all_novel :: "StallSignature set \<Rightarrow> RoundSignal list \<Rightarrow> bool" where
  "all_novel seen [] = True"
| "all_novel seen (r # rs) =
     (if tool_signatures r \<subseteq> seen then False else all_novel (seen \<union> tool_signatures r) rs)"

definition detect_prolonged_read_only_stall :: "LoopCircuitBreaker \<Rightarrow> bool" where
  "detect_prolonged_read_only_stall b =
     (let n = read_only_stall_threshold (config b) in
      if n = 0 \<or> length (rounds b) < n then False
      else let tail = last_n n (rounds b) in
        if \<not> list_all read_only_round tail then False
        else \<not> all_novel {} tail)"

definition collect_trip_tail_signatures :: "LoopCircuitBreaker \<Rightarrow> StallSignature set" where
  "collect_trip_tail_signatures b =
     (let c = config b;
          n = min (max (max (read_only_stall_threshold c) (stall_threshold c)) (repetition_threshold c))
                  (length (rounds b))
      in if n = 0 then {} else signatures_of (last_n n (rounds b)))"

section \<open>Operations\<close>

definition usize_wrap_inc :: "nat \<Rightarrow> nat" where
  "usize_wrap_inc n = (if n = usize_max then 0 else n + 1)"

definition evaluate_closed :: "LoopCircuitBreaker \<Rightarrow> BreakerAction \<times> LoopCircuitBreaker" where
  "evaluate_closed b =
     (if detect_repetition_stall b \<or> detect_no_progress_stall b \<or> detect_prolonged_read_only_stall b
      then (PatternObserved, b\<lparr>breaker_state := Open, trip_tail_signatures := collect_trip_tail_signatures b,
                               advisory_threshold_emitted := False\<rparr>)
      else (Continue, b))"

definition evaluate_half_open :: "LoopCircuitBreaker \<Rightarrow> BreakerAction \<times> LoopCircuitBreaker" where
  "evaluate_half_open b =
     (let b = b\<lparr>half_open_rounds := usize_wrap_inc (half_open_rounds b)\<rparr>;
          latest = rounds b ! (length (rounds b) - 1);
          broke_pattern = produced_mutation latest \<or> tool_count latest = 0
            \<or> \<not> tool_signatures latest \<subseteq> trip_tail_signatures b
      in if broke_pattern then
           (Continue, b\<lparr>breaker_state := Closed, half_open_rounds := 0, consecutive_read_only := 0,
                        trip_tail_signatures := {}, advisory_threshold_emitted := False\<rparr>)
         else if half_open_rounds b \<ge> half_open_patience (config b) \<and> \<not> advisory_threshold_emitted b then
           (AdvisoryThresholdReached, b\<lparr>advisory_threshold_emitted := True\<rparr>)
         else (Continue, b))"

definition count_streak :: "LoopCircuitBreaker \<Rightarrow> RoundSignal \<Rightarrow> LoopCircuitBreaker" where
  "count_streak b r =
     (if produced_mutation r \<or> tool_count r = 0 then
        (let b = b\<lparr>consecutive_read_only := 0\<rparr> in
         if produced_mutation r then b\<lparr>introspect_emissions_since_last_write := 0\<rparr> else b)
      else b\<lparr>consecutive_read_only := usize_wrap_inc (consecutive_read_only b)\<rparr>)"

definition push_round :: "LoopCircuitBreaker \<Rightarrow> RoundSignal \<Rightarrow> LoopCircuitBreaker" where
  "push_round b r =
     (let b = b\<lparr>rounds := rounds b @ [r], total_observed := usize_sat_add (total_observed b) 1\<rparr> in
      if length (rounds b) > history_limit b
      then b\<lparr>rounds := drop (length (rounds b) - history_limit b) (rounds b)\<rparr>
      else b)"

definition introspect_when_due :: "LoopCircuitBreaker \<Rightarrow> BreakerAction \<times> LoopCircuitBreaker" where
  "introspect_when_due b =
     (let n = read_only_stall_threshold (config b);
          cap = max_introspect_emissions (config b);
          under_cap = (cap = 0 \<or> introspect_emissions_since_last_write b < cap)
      in if n > 0 \<and> consecutive_read_only b > 0 \<and> consecutive_read_only b mod n = 0 \<and> under_cap then
           (Introspect (consecutive_read_only b),
            b\<lparr>introspect_emissions_since_last_write := usize_wrap_inc (introspect_emissions_since_last_write b)\<rparr>)
         else (Continue, b))"

definition breaker_observe :: "LoopCircuitBreaker \<Rightarrow> RoundSignal \<Rightarrow> BreakerAction \<times> LoopCircuitBreaker" where
  "breaker_observe b r =
     (let b = push_round (count_streak b r) r in
      if total_observed b \<ge> absolute_max_rounds (config b) then
        (HardRoundLimitReached (total_observed b) (absolute_max_rounds (config b)), b\<lparr>breaker_state := Open\<rparr>)
      else case breaker_state b of
        Closed \<Rightarrow>
          (let (action, b) = evaluate_closed b in
           if action \<noteq> Continue then (action, b) else introspect_when_due b)
      | HalfOpen \<Rightarrow> evaluate_half_open b
      | Open \<Rightarrow> (PatternObserved, b))"

definition acknowledge_pattern_observation :: "LoopCircuitBreaker \<Rightarrow> LoopCircuitBreaker" where
  "acknowledge_pattern_observation b =
     (if breaker_state b = Open
      then b\<lparr>breaker_state := HalfOpen, half_open_rounds := 0, advisory_threshold_emitted := False\<rparr>
      else b)"

definition reset_read_only_streak :: "LoopCircuitBreaker \<Rightarrow> LoopCircuitBreaker" where
  "reset_read_only_streak b =
     b\<lparr>consecutive_read_only := 0, introspect_emissions_since_last_write := 0,
       advisory_threshold_emitted := False\<rparr>"

definition apply_pause_recovery :: "LoopCircuitBreaker \<Rightarrow> nat option \<Rightarrow> bool \<times> LoopCircuitBreaker" where
  "apply_pause_recovery b tighter =
     (case tighter of
        None \<Rightarrow> (True, reset_read_only_streak b)
      | Some t \<Rightarrow>
          if t = 0 \<or> t \<ge> read_only_stall_threshold (config b) then (False, b)
          else (True, reset_read_only_streak
                  (b\<lparr>config := (config b)\<lparr>read_only_stall_threshold := t\<rparr>\<rparr>)))"

datatype breaker_op =
    ObserveRound RoundSignal
  | Acknowledge
  | PauseRecovery "nat option"

fun breaker_step :: "LoopCircuitBreaker \<Rightarrow> breaker_op \<Rightarrow> LoopCircuitBreaker" where
  "breaker_step b (ObserveRound r) = snd (breaker_observe b r)"
| "breaker_step b Acknowledge = acknowledge_pattern_observation b"
| "breaker_step b (PauseRecovery t) = snd (apply_pause_recovery b t)"

text \<open>The actions that a sequence of operations returns, one for each observed round.\<close>

fun breaker_actions :: "LoopCircuitBreaker \<Rightarrow> breaker_op list \<Rightarrow> BreakerAction list" where
  "breaker_actions b [] = []"
| "breaker_actions b (ObserveRound r # ops) =
     fst (breaker_observe b r) # breaker_actions (snd (breaker_observe b r)) ops"
| "breaker_actions b (op # ops) = breaker_actions (breaker_step b op) ops"

section \<open>Windows\<close>

lemma length_last_n [simp]: "length (last_n n xs) = min n (length xs)"
  by (simp add: last_n_def)

lemma last_n_last_n: "n \<le> m \<Longrightarrow> last_n n (last_n m xs) = last_n n xs"
  by (auto simp: last_n_def intro!: arg_cong2 [of _ _ _ _ drop])

lemma last_n_snoc: "last_n m (last_n m xs @ [x]) = last_n m (xs @ [x])"
  by (cases m) (auto simp: last_n_def intro!: arg_cong2 [of _ _ _ _ drop])

lemma drop_to_last_n: "(if m < length xs then drop (length xs - m) xs else xs) = last_n m xs"
  by (simp add: last_n_def)

lemma last_last_n: "0 < m \<Longrightarrow> xs \<noteq> [] \<Longrightarrow> last (last_n m xs) = last xs"
  by (simp add: last_n_def)

lemma set_last_n_subset: "set (last_n n xs) \<subseteq> set xs"
  by (simp add: last_n_def set_drop_subset)

section \<open>The continuation check\<close>

definition breaker_inv :: "LoopCircuitBreaker \<Rightarrow> bool" where
  "breaker_inv b \<longleftrightarrow>
     0 < stall_threshold (config b) \<and> 0 < repetition_threshold (config b) \<and>
     config_history_limit (config b) \<le> history_limit b \<and>
     length (rounds b) = min (total_observed b) (history_limit b) \<and>
     total_observed b \<le> usize_max \<and> history_limit b \<le> usize_max \<and>
     consecutive_read_only b \<le> total_observed b \<and>
     introspect_emissions_since_last_write b \<le> total_observed b \<and>
     half_open_rounds b \<le> total_observed b"

lemma breaker_inv_validates: "breaker_inv b \<Longrightarrow> is_ok (breaker_validate_continuation b)"
  by (simp add: breaker_inv_def breaker_validate_continuation_def Let_def)

lemma wrap_inc_le: "m \<le> n \<Longrightarrow> n \<le> usize_max \<Longrightarrow> usize_wrap_inc m \<le> usize_sat_add n 1"
  by (auto simp: usize_wrap_inc_def usize_sat_add_def)

lemma sat_add_bounds: "n \<le> usize_max \<Longrightarrow> n \<le> usize_sat_add n 1 \<and> usize_sat_add n 1 \<le> usize_max"
  by (auto simp: usize_sat_add_def)

text \<open>A round recorded, before the breaker judges it: every counter has room for one more.\<close>

definition recorded :: "LoopCircuitBreaker \<Rightarrow> bool" where
  "recorded b \<longleftrightarrow> breaker_inv b \<and> rounds b \<noteq> [] \<and>
     usize_wrap_inc (introspect_emissions_since_last_write b) \<le> total_observed b \<and>
     usize_wrap_inc (half_open_rounds b) \<le> total_observed b"

lemma recorded_push:
  assumes "breaker_inv b"
  shows "recorded (push_round (count_streak b r) r)"
proof -
  have lim: "0 < history_limit b"
    using assms by (auto simp: breaker_inv_def config_history_limit_def)
  have len: "length (last_n (history_limit b) (rounds b @ [r])) = min (usize_sat_add (total_observed b) 1) (history_limit b)"
    using assms by (auto simp: breaker_inv_def usize_sat_add_def)
  have z: "usize_wrap_inc 0 \<le> usize_sat_add (total_observed b) 1"
    by (simp add: usize_wrap_inc_def usize_sat_add_def usize_max_def)
  have push: "push_round c r = c\<lparr>rounds := last_n (history_limit c) (rounds c @ [r]),
      total_observed := usize_sat_add (total_observed c) 1\<rparr>" for c
    by (simp add: push_round_def Let_def last_n_def)
  have ne: "last_n (history_limit b) (rounds b @ [r]) \<noteq> []" using lim by (simp add: last_n_def)
  note w = wrap_inc_le [of _ "total_observed b"] sat_add_bounds [of "total_observed b"]
  show ?thesis
    using assms len ne z w unfolding recorded_def breaker_inv_def push count_streak_def Let_def
    by (auto intro: le_trans)
qed


lemma push_round_last_n:
  "push_round b r = b\<lparr>rounds := last_n (history_limit b) (rounds b @ [r]),
     total_observed := usize_sat_add (total_observed b) 1\<rparr>"
  by (simp add: push_round_def Let_def last_n_def)

lemmas judge_defs = evaluate_closed_def evaluate_half_open_def introspect_when_due_def Let_def

lemma breaker_observe_cases:
  fixes b :: LoopCircuitBreaker and r :: RoundSignal
  defines "c \<equiv> push_round (count_streak b r) r"
  obtains (limit) "absolute_max_rounds (config c) \<le> total_observed c"
      "breaker_observe b r = (HardRoundLimitReached (total_observed c) (absolute_max_rounds (config c)), c\<lparr>breaker_state := Open\<rparr>)"
  | (trips) "total_observed c < absolute_max_rounds (config c)" "breaker_state c = Closed"
      "detect_repetition_stall c \<or> detect_no_progress_stall c \<or> detect_prolonged_read_only_stall c"
      "breaker_observe b r = (PatternObserved, c\<lparr>breaker_state := Open,
         trip_tail_signatures := collect_trip_tail_signatures c, advisory_threshold_emitted := False\<rparr>)"
  | (closed) "total_observed c < absolute_max_rounds (config c)" "breaker_state c = Closed"
      "\<not> detect_repetition_stall c" "\<not> detect_no_progress_stall c" "\<not> detect_prolonged_read_only_stall c"
      "breaker_observe b r = introspect_when_due c"
  | (half) "total_observed c < absolute_max_rounds (config c)" "breaker_state c = HalfOpen"
      "breaker_observe b r = evaluate_half_open c"
  | (opened) "total_observed c < absolute_max_rounds (config c)" "breaker_state c = Open"
      "breaker_observe b r = (PatternObserved, c)"
proof (cases "absolute_max_rounds (config c) \<le> total_observed c")
  case True
  then show ?thesis using limit by (simp add: breaker_observe_def c_def Let_def)
next
  case False
  note obs = breaker_observe_def [of b r, folded c_def] Let_def evaluate_closed_def
  show ?thesis
  proof (cases "breaker_state c")
    case Closed
    show ?thesis
    proof (cases "detect_repetition_stall c \<or> detect_no_progress_stall c \<or> detect_prolonged_read_only_stall c")
      case True
      then show ?thesis using trips False Closed by (simp add: obs)
    next
      case no: False
      then show ?thesis using closed False Closed by (simp add: obs)
    qed
  qed (use half opened False in \<open>simp_all add: obs\<close>)
qed

lemma breaker_observe_inv:
  assumes "breaker_inv b"
  shows "breaker_inv (snd (breaker_observe b r))"
proof -
  let ?c = "push_round (count_streak b r) r"
  have "recorded ?c" by (rule recorded_push [OF assms])
  then show ?thesis
    by (cases rule: breaker_observe_cases [of b r, case_names limit trips closed half opened])
      (auto simp: recorded_def breaker_inv_def introspect_when_due_def evaluate_half_open_def Let_def)
qed

lemma config_history_limit_tighter:
  "t \<le> read_only_stall_threshold c \<Longrightarrow>
     config_history_limit (c\<lparr>read_only_stall_threshold := t\<rparr>) \<le> config_history_limit c"
  by (auto simp: config_history_limit_def)

lemma breaker_step_inv:
  assumes "breaker_inv b"
  shows "breaker_inv (breaker_step b op)"
proof (cases op)
  case (ObserveRound r)
  then show ?thesis using breaker_observe_inv [OF assms] by simp
next
  case Acknowledge
  then show ?thesis using assms by (auto simp: acknowledge_pattern_observation_def breaker_inv_def)
next
  case (PauseRecovery t)
  then show ?thesis
    using assms config_history_limit_tighter [of "the t" "config b"]
    by (auto simp: apply_pause_recovery_def reset_read_only_streak_def breaker_inv_def split: option.splits)
qed

interpretation breaker: machine breaker_step "\<lambda>_. True" breaker_inv
  by unfold_locales (rule breaker_step_inv)

definition config_ok :: "BreakerConfig \<Rightarrow> bool" where
  "config_ok c \<longleftrightarrow> 0 < stall_threshold c \<and> 0 < repetition_threshold c \<and> config_history_limit c \<le> usize_max"

lemma breaker_new_inv: "config_ok c \<Longrightarrow> breaker_inv (breaker_new c)"
  by (simp add: breaker_inv_def breaker_new_def config_ok_def)

text \<open>
  A breaker with positive thresholds stays fit for continuation: after any rounds,
  acknowledgements and pause recoveries it passes its own continuation check.
\<close>

theorem breaker_continuation_valid:
  assumes "config_ok c"
  shows "is_ok (breaker_validate_continuation (foldl breaker_step (breaker_new c) ops))"
proof -
  have "breaker_inv (foldl breaker_step (breaker_new c) ops)"
    by (rule breaker.run_inv [OF breaker_new_inv [OF assms]]) (simp add: list_all_iff)
  then show ?thesis by (rule breaker_inv_validates)
qed

section \<open>The bounded history\<close>

text \<open>
  The same breaker with a longer history: everything but the recorded rounds agrees, and
  those of the first are the last ones of the second.
\<close>

definition widened :: "LoopCircuitBreaker \<Rightarrow> LoopCircuitBreaker \<Rightarrow> bool" where
  "widened b w \<longleftrightarrow> breaker_inv b \<and> w = b\<lparr>history_limit := history_limit w, rounds := rounds w\<rparr> \<and>
     history_limit b \<le> history_limit w \<and> history_limit w \<le> usize_max \<and>
     length (rounds w) \<le> history_limit w \<and> rounds b = last_n (history_limit b) (rounds w)"

lemma window_fits:
  assumes "config_history_limit c \<le> h" and "h < usize_max"
  shows "3 * stall_threshold c \<le> h \<and> repetition_threshold c \<le> h \<and> read_only_stall_threshold c \<le> h"
  using assms by (auto simp: config_history_limit_def usize_sat_mul_def)

lemma drop_take_last_n:
  assumes "h \<le> length xs" and "3 * n \<le> h"
  shows "drop (h - n - 2 * n) (take (h - n) (last_n h xs)) = drop (length xs - n - 2 * n) (take (length xs - n) xs)"
    and "drop (h - n) (last_n h xs) = drop (length xs - n) xs"
  using assms by (simp_all add: last_n_def drop_take)

lemma no_new_patterns_window:
  assumes "rounds b = last_n h xs" and "h < length xs" and "3 * n \<le> h" and "h < usize_max"
  shows "no_new_patterns_in_tail b n = no_new_patterns_in_tail (b\<lparr>history_limit := l, rounds := xs\<rparr>) n"
proof -
  have "usize_sat_mul n 2 = 2 * n" using assms by (simp add: usize_sat_mul_def)
  then show ?thesis
    using assms drop_take_last_n [of h xs n] by (simp add: no_new_patterns_in_tail_def Let_def)
qed

lemma detectors_window:
  fixes b :: LoopCircuitBreaker and l :: nat and xs :: "RoundSignal list"
  defines "w \<equiv> b\<lparr>history_limit := l, rounds := xs\<rparr>"
  assumes r: "rounds b = last_n h xs" and h: "config_history_limit (config b) \<le> h" and len: "length xs \<le> usize_max"
  shows "detect_repetition_stall w = detect_repetition_stall b"
    and "detect_no_progress_stall w = detect_no_progress_stall b"
    and "detect_prolonged_read_only_stall w = detect_prolonged_read_only_stall b"
    and "collect_trip_tail_signatures w = collect_trip_tail_signatures b"
proof -
  note defs = detect_repetition_stall_def detect_no_progress_stall_def detect_prolonged_read_only_stall_def
    collect_trip_tail_signatures_def no_new_patterns_in_tail_def
  have all: "detect_repetition_stall w = detect_repetition_stall b \<and>
      detect_no_progress_stall w = detect_no_progress_stall b \<and>
      detect_prolonged_read_only_stall w = detect_prolonged_read_only_stall b \<and>
      collect_trip_tail_signatures w = collect_trip_tail_signatures b"
  proof (cases "length xs \<le> h")
    case True
    then have "rounds b = xs" using r by (simp add: last_n_def)
    then show ?thesis by (simp add: w_def defs Let_def)
  next
    case False
    then have lt: "h < length xs" "h < usize_max" using len by simp_all
    note fits = window_fits [OF h lt(2)]
    have lens: "length (rounds b) = h" using lt(1) r by simp
    have "no_new_patterns_in_tail b (stall_threshold (config b)) =
        no_new_patterns_in_tail w (stall_threshold (config b))"
      unfolding w_def by (rule no_new_patterns_window [OF r lt(1) _ lt(2)]) (use fits in simp)
    moreover have "last_n n (rounds b) = last_n n xs" if "n \<le> h" for n
      using that r by (simp add: last_n_last_n)
    ultimately show ?thesis
      using fits lens lt(1)
      by (simp add: w_def detect_repetition_stall_def detect_no_progress_stall_def
          detect_prolonged_read_only_stall_def collect_trip_tail_signatures_def Let_def min_absorb1)
  qed
  show "detect_repetition_stall w = detect_repetition_stall b"
    "detect_no_progress_stall w = detect_no_progress_stall b"
    "detect_prolonged_read_only_stall w = detect_prolonged_read_only_stall b"
    "collect_trip_tail_signatures w = collect_trip_tail_signatures b"
    using all by simp_all
qed

lemma widened_push:
  assumes "widened b w"
  shows "widened (push_round (count_streak b r) r) (push_round (count_streak w r) r)"
proof -
  let ?c = "push_round (count_streak b r) r" and ?d = "push_round (count_streak w r) r"
  have w: "w = b\<lparr>history_limit := history_limit w, rounds := rounds w\<rparr>" "history_limit b \<le> history_limit w"
    "rounds b = last_n (history_limit b) (rounds w)" "history_limit w \<le> usize_max"
    using assms by (simp_all add: widened_def)
  have streak: "count_streak w r = (count_streak b r)\<lparr>history_limit := history_limit w, rounds := rounds w\<rparr>"
    by (subst w(1)) (simp add: count_streak_def Let_def)
  have kept: "history_limit (count_streak b r) = history_limit b" "rounds (count_streak b r) = rounds b"
    by (simp_all add: count_streak_def Let_def)
  have "breaker_inv ?c" using assms recorded_push by (simp add: widened_def recorded_def)
  then show ?thesis
    unfolding widened_def using w(2-4)
    by (simp add: push_round_last_n streak kept last_n_snoc last_n_last_n)
qed

lemma widened_observe:
  assumes "widened b w"
  shows "fst (breaker_observe w r) = fst (breaker_observe b r) \<and>
    widened (snd (breaker_observe b r)) (snd (breaker_observe w r))"
proof -
  define c where "c = push_round (count_streak b r) r"
  define L where "L = history_limit (push_round (count_streak w r) r)"
  define rs where "rs = rounds (push_round (count_streak w r) r)"
  have inv: "breaker_inv (snd (breaker_observe b r))"
    using assms breaker_observe_inv by (simp add: widened_def)
  have cd: "widened c (push_round (count_streak w r) r)" unfolding c_def by (rule widened_push [OF assms])
  then have d: "push_round (count_streak w r) r = c\<lparr>history_limit := L, rounds := rs\<rparr>"
    by (simp add: widened_def L_def rs_def)
  have r: "rounds c = last_n (history_limit c) rs"
    and lim: "config_history_limit (config c) \<le> history_limit c" "length rs \<le> usize_max" "0 < history_limit c"
      "history_limit c \<le> L" "L \<le> usize_max" "length rs \<le> L"
    using cd unfolding d by (auto simp: widened_def breaker_inv_def config_history_limit_def)
  note det = detectors_window [OF r lim(1,2), of L]
  have ne: "rounds c \<noteq> []" using assms recorded_push by (simp add: c_def widened_def recorded_def)
  then have rs: "rs \<noteq> []" using r by (auto simp: last_n_def)
  then have "last (rounds c) = last rs" using last_last_n [OF lim(3)] r by simp
  then have latest: "rounds c ! (length (rounds c) - 1) = rs ! (length rs - 1)"
    using last_conv_nth [OF ne] last_conv_nth [OF rs] by simp
  have "fst (breaker_observe w r) = fst (breaker_observe b r) \<and>
      snd (breaker_observe w r) = (snd (breaker_observe b r))\<lparr>history_limit := L, rounds := rs\<rparr> \<and>
      rounds (snd (breaker_observe b r)) = rounds c \<and> history_limit (snd (breaker_observe b r)) = history_limit c"
    unfolding breaker_observe_def c_def [symmetric] d
    by (simp add: Let_def det latest [unfolded One_nat_def] evaluate_closed_def evaluate_half_open_def introspect_when_due_def
        split: BreakerState.split)
  then show ?thesis using inv r lim by (simp add: widened_def)
qed

lemma widened_step:
  assumes "widened b w"
  shows "widened (breaker_step b op) (breaker_step w op)"
proof -
  obtain l xs where w: "w = b\<lparr>history_limit := l, rounds := xs\<rparr>"
    using assms unfolding widened_def by blast
  have inv: "breaker_inv (breaker_step b op)" using assms breaker_step_inv by (simp add: widened_def)
  show ?thesis
  proof (cases op)
    case (ObserveRound r)
    then show ?thesis using widened_observe [OF assms] by simp
  next
    case Acknowledge
    then show ?thesis
      using assms inv unfolding w by (simp add: widened_def acknowledge_pattern_observation_def)
  next
    case (PauseRecovery t)
    then show ?thesis
      using assms inv unfolding w
      by (simp add: widened_def apply_pause_recovery_def reset_read_only_streak_def split: option.splits)
  qed
qed

lemma widened_actions: "widened b w \<Longrightarrow> breaker_actions w ops = breaker_actions b ops"
proof (induction b ops arbitrary: w rule: breaker_actions.induct)
  case (2 b r ops)
  then show ?case using widened_observe by simp
qed (use widened_step in \<open>force simp del: breaker_step.simps\<close>)+

text \<open>
  C29. The bound on the recorded rounds is invisible: a breaker that may keep a longer
  history, up to every round, answers every sequence of operations with the same actions.
\<close>

theorem breaker_history_bound_transparent:
  assumes "config_ok c" and "config_history_limit c \<le> l" and "l \<le> usize_max"
  shows "breaker_actions ((breaker_new c)\<lparr>history_limit := l\<rparr>) ops = breaker_actions (breaker_new c) ops"
proof (rule widened_actions)
  show "widened (breaker_new c) ((breaker_new c)\<lparr>history_limit := l\<rparr>)"
    using assms breaker_new_inv by (simp add: widened_def) (simp add: breaker_new_def last_n_def)
qed

section \<open>What the actions say\<close>

fun observed_rounds :: "breaker_op list \<Rightarrow> RoundSignal list" where
  "observed_rounds [] = []"
| "observed_rounds (ObserveRound r # ops) = r # observed_rounds ops"
| "observed_rounds (_ # ops) = observed_rounds ops"

lemma length_breaker_actions [simp]: "length (breaker_actions b ops) = length (observed_rounds ops)"
  by (induction b ops rule: breaker_actions.induct) simp_all

lemma observe_keeps:
  "config (snd (breaker_observe b r)) = config b \<and>
   history_limit (snd (breaker_observe b r)) = history_limit b \<and>
   total_observed (snd (breaker_observe b r)) = usize_sat_add (total_observed b) 1 \<and>
   rounds (snd (breaker_observe b r)) = last_n (history_limit b) (rounds b @ [r])"
proof -
  let ?c = "push_round (count_streak b r) r"
  have "config ?c = config b" "history_limit ?c = history_limit b"
    "total_observed ?c = usize_sat_add (total_observed b) 1"
    "rounds ?c = last_n (history_limit b) (rounds b @ [r])"
    by (simp_all add: push_round_last_n count_streak_def Let_def)
  then show ?thesis
    by (cases rule: breaker_observe_cases [of b r, case_names limit trips closed half opened])
      (simp_all add: introspect_when_due_def evaluate_half_open_def Let_def)
qed

fun observes :: "breaker_op \<Rightarrow> bool" where
  "observes (ObserveRound r) = True"
| "observes _ = False"

lemma passive_step_keeps:
  assumes "\<not> observes op"
  shows "total_observed (breaker_step b op) = total_observed b \<and> rounds (breaker_step b op) = rounds b \<and>
    history_limit (breaker_step b op) = history_limit b \<and>
    stall_threshold (config (breaker_step b op)) = stall_threshold (config b) \<and>
    repetition_threshold (config (breaker_step b op)) = repetition_threshold (config b) \<and>
    max_introspect_emissions (config (breaker_step b op)) = max_introspect_emissions (config b) \<and>
    absolute_max_rounds (config (breaker_step b op)) = absolute_max_rounds (config b)"
  using assms
  by (cases op) (simp_all add: acknowledge_pattern_observation_def apply_pause_recovery_def reset_read_only_streak_def
      split: option.split)

lemma passive_actions:
  assumes "\<not> observes op"
  shows "breaker_actions b (op # ops) = breaker_actions (breaker_step b op) ops"
    and "observed_rounds (op # ops) = observed_rounds ops"
  using assms by (cases op; simp)+

lemma observe_limit:
  "fst (breaker_observe b r) =
     HardRoundLimitReached (usize_sat_add (total_observed b) 1) (absolute_max_rounds (config b))
   \<longleftrightarrow> absolute_max_rounds (config b) \<le> usize_sat_add (total_observed b) 1"
proof -
  let ?c = "push_round (count_streak b r) r"
  have c: "config ?c = config b" "total_observed ?c = usize_sat_add (total_observed b) 1"
    by (simp_all add: push_round_last_n count_streak_def Let_def)
  show ?thesis
    by (cases rule: breaker_observe_cases [of b r, case_names limit trips closed half opened])
      (simp_all add: introspect_when_due_def evaluate_half_open_def Let_def c)
qed

lemma hard_limit_from:
  assumes "total_observed b + length ops \<le> usize_max" and "i < length (observed_rounds ops)"
  shows "breaker_actions b ops ! i =
      HardRoundLimitReached (total_observed b + i + 1) (absolute_max_rounds (config b))
    \<longleftrightarrow> absolute_max_rounds (config b) \<le> total_observed b + i + 1"
  using assms
proof (induction ops arbitrary: b i)
  case (Cons op ops)
  show ?case
  proof (cases op)
    case (ObserveRound r)
    have total: "usize_sat_add (total_observed b) 1 = total_observed b + 1"
      using Cons.prems(1) by (simp add: usize_sat_add_def)
    show ?thesis
    proof (cases i)
      case 0
      then show ?thesis using ObserveRound observe_limit [of b r] total by simp
    next
      case (Suc j)
      then show ?thesis
        using ObserveRound Cons.IH [of "snd (breaker_observe b r)" j] Cons.prems observe_keeps [of b r] total by simp
    qed
  qed (use Cons.IH [of "breaker_step b op" i] Cons.prems passive_step_keeps [of op b] in \<open>simp_all\<close>)
qed simp

text \<open>
  C31. The round ceiling is exact: in any run the n-th observed round is answered with the
  hard limit exactly when n has reached the configured maximum, whatever was acknowledged
  or recovered in between, so that an agent loop that stops there ends.
\<close>

theorem hard_round_limit_exact:
  assumes "length ops \<le> usize_max" and "n < length (observed_rounds ops)"
  shows "breaker_actions (breaker_new c) ops ! n = HardRoundLimitReached (n + 1) (absolute_max_rounds c)
    \<longleftrightarrow> absolute_max_rounds c \<le> n + 1"
  using hard_limit_from [of "breaker_new c" ops n] assms by (simp add: breaker_new_def)

section \<open>Agents that progress\<close>

lemma all_novel_append:
  "all_novel seen (xs @ ys) \<longleftrightarrow> all_novel seen xs \<and> all_novel (seen \<union> signatures_of xs) ys"
  by (induction xs arbitrary: seen) (auto simp: signatures_of_def Un_assoc)

lemma all_novel_mono: "all_novel seen xs \<Longrightarrow> seen' \<subseteq> seen \<Longrightarrow> all_novel seen' xs"
proof (induction xs arbitrary: seen seen')
  case (Cons r rs)
  have "seen' \<union> tool_signatures r \<subseteq> seen \<union> tool_signatures r" using Cons.prems(2) by blast
  moreover have "all_novel (seen \<union> tool_signatures r) rs" "\<not> tool_signatures r \<subseteq> seen"
    using Cons.prems(1) by (simp_all split: if_splits)
  ultimately show ?case using Cons.IH Cons.prems(2) by auto
qed simp

lemma all_novel_drop: "all_novel {} xs \<Longrightarrow> all_novel (signatures_of (take k xs)) (drop k xs)"
  using all_novel_append [of "{}" "take k xs" "drop k xs"] by simp

lemma novel_detects_nothing:
  assumes novel: "all_novel {} (rounds b)"
    and n: "0 < stall_threshold (config b)" "2 \<le> repetition_threshold (config b)"
  shows "\<not> detect_repetition_stall b \<and> \<not> detect_no_progress_stall b \<and> \<not> detect_prolonged_read_only_stall b"
proof (intro conjI)
  have tail: "all_novel {} (last_n k (rounds b))" for k
    using all_novel_mono [OF all_novel_drop [OF novel]] by (simp add: last_n_def)
  show "\<not> detect_prolonged_read_only_stall b" using tail by (simp add: detect_prolonged_read_only_stall_def Let_def)
  show "\<not> detect_repetition_stall b"
  proof
    let ?n = "repetition_threshold (config b)"
    assume stall: "detect_repetition_stall b"
    then have "2 \<le> length (last_n ?n (rounds b))"
      using n(2) by (simp add: detect_repetition_stall_def Let_def split: if_splits)
    then obtain x y rest where "last_n ?n (rounds b) = x # y # rest"
      by (metis Suc_le_length_iff numeral_2_eq_2)
    then show False using stall tail [of ?n] by (auto simp: detect_repetition_stall_def Let_def split: if_splits)
  qed
  show "\<not> detect_no_progress_stall b"
  proof
    let ?n = "stall_threshold (config b)"
    let ?split = "length (rounds b) - ?n"
    assume stall: "detect_no_progress_stall b"
    then have len: "?n \<le> length (rounds b)" by (simp add: detect_no_progress_stall_def Let_def split: if_splits)
    then obtain x rest where x: "drop ?split (rounds b) = x # rest"
      using n(1) by (cases "drop ?split (rounds b)") auto
    then have "\<not> tool_signatures x \<subseteq> signatures_of (take ?split (rounds b))"
      using all_novel_drop [OF novel, of ?split] by (simp split: if_splits)
    moreover obtain k where "signatures_of (drop ?split (rounds b)) \<subseteq> signatures_of (drop k (take ?split (rounds b)))"
      using stall by (auto simp: detect_no_progress_stall_def no_new_patterns_in_tail_def Let_def split: if_splits)
    moreover have "signatures_of (drop k (take ?split (rounds b))) \<subseteq> signatures_of (take ?split (rounds b))"
      by (auto simp: signatures_of_def dest: in_set_dropD)
    moreover have "tool_signatures x \<subseteq> signatures_of (drop ?split (rounds b))"
      by (simp add: x signatures_of_def)
    ultimately show False by blast
  qed
qed

lemma novel_observe:
  assumes "all_novel {} (last_n (history_limit b) (rounds b @ [r]))"
    and "0 < stall_threshold (config b)" and "2 \<le> repetition_threshold (config b)"
    and calm: "breaker_state b = Closed \<or> absolute_max_rounds (config b) \<le> total_observed b"
    and "total_observed b \<le> usize_max"
  shows "fst (breaker_observe b r) \<noteq> PatternObserved \<and> fst (breaker_observe b r) \<noteq> AdvisoryThresholdReached \<and>
    (breaker_state (snd (breaker_observe b r)) = Closed \<or>
     absolute_max_rounds (config b) \<le> total_observed (snd (breaker_observe b r)))"
proof -
  let ?c = "push_round (count_streak b r) r"
  have c: "config ?c = config b" "total_observed ?c = usize_sat_add (total_observed b) 1"
    "breaker_state ?c = breaker_state b" "rounds ?c = last_n (history_limit b) (rounds b @ [r])"
    by (simp_all add: push_round_last_n count_streak_def Let_def)
  have quiet: "\<not> detect_repetition_stall ?c \<and> \<not> detect_no_progress_stall ?c \<and> \<not> detect_prolonged_read_only_stall ?c"
    by (rule novel_detects_nothing) (use assms c in simp_all)
  have room: "total_observed b \<le> usize_sat_add (total_observed b) 1"
    using assms(5) sat_add_bounds by simp
  show ?thesis
    by (cases rule: breaker_observe_cases [of b r, case_names limit trips closed half opened])
      (use calm c quiet room in \<open>simp_all add: introspect_when_due_def Let_def\<close>)
qed

lemma novel_actions:
  assumes "all_novel {} (hist @ observed_rounds ops)" and "rounds b = last_n (history_limit b) hist"
    and "0 < stall_threshold (config b)" and "2 \<le> repetition_threshold (config b)"
    and "breaker_state b = Closed \<or> absolute_max_rounds (config b) \<le> total_observed b"
    and "total_observed b \<le> usize_max"
  shows "list_all (\<lambda>a. a \<noteq> PatternObserved \<and> a \<noteq> AdvisoryThresholdReached) (breaker_actions b ops)"
  using assms
proof (induction ops arbitrary: b hist)
  case (Cons op ops)
  show ?case
  proof (cases "observes op")
    case True
    then obtain r where op: "op = ObserveRound r" by (cases op) simp_all
    let ?b = "snd (breaker_observe b r)"
    have rounds: "last_n (history_limit b) (rounds b @ [r]) = last_n (history_limit b) (hist @ [r])"
      using Cons.prems(2) by (simp add: last_n_snoc)
    have "all_novel {} (hist @ [r])"
      using Cons.prems(1) all_novel_append [of "{}" "hist @ [r]" "observed_rounds ops"] by (simp add: op)
    then have "all_novel {} (last_n (history_limit b) (rounds b @ [r]))"
      unfolding rounds unfolding last_n_def by (rule all_novel_mono [OF all_novel_drop]) simp
    note here = novel_observe [OF this Cons.prems(3-6)]
    have "list_all (\<lambda>a. a \<noteq> PatternObserved \<and> a \<noteq> AdvisoryThresholdReached) (breaker_actions ?b ops)"
      by (rule Cons.IH [of "hist @ [r]"])
        (use Cons.prems here observe_keeps [of b r] rounds sat_add_bounds in \<open>simp_all add: op\<close>)
    then show ?thesis using here by (simp add: op)
  next
    case False
    have "breaker_state (breaker_step b op) = Closed" if "breaker_state b = Closed"
      using that False
      by (cases op) (simp_all add: acknowledge_pattern_observation_def apply_pause_recovery_def
          reset_read_only_streak_def split: option.split)
    then show ?thesis
      unfolding passive_actions [OF False]
      by (rule_tac Cons.IH [of hist])
        (use Cons.prems passive_step_keeps [OF False, of b] in \<open>auto simp: passive_actions [OF False]\<close>)
  qed
qed simp

text \<open>
  C30. An agent that keeps finding new ground is never told that it is stuck: if every
  observed round brings a signature that no earlier round had, no operation sequence
  yields a pattern observation or an advisory, for any thresholds of at least one for
  stalls and two for repetitions.
\<close>

theorem novel_rounds_never_tripped:
  assumes "all_novel {} (observed_rounds ops)" and "0 < stall_threshold c" and "2 \<le> repetition_threshold c"
  shows "list_all (\<lambda>a. a \<noteq> PatternObserved \<and> a \<noteq> AdvisoryThresholdReached)
    (breaker_actions (breaker_new c) ops)"
  by (rule novel_actions [of "[]"]) (use assms in \<open>simp_all add: breaker_new_def last_n_def\<close>)

section \<open>Budgets of advice\<close>

definition advisory_credit :: "LoopCircuitBreaker \<Rightarrow> nat" where
  "advisory_credit b = (if breaker_state b = HalfOpen \<and> \<not> advisory_threshold_emitted b then 1 else 0)"

lemma advisory_observe:
  "(if fst (breaker_observe b r) = AdvisoryThresholdReached then 1 else 0) +
     advisory_credit (snd (breaker_observe b r)) \<le> advisory_credit b"
proof -
  let ?c = "push_round (count_streak b r) r"
  have c: "advisory_credit ?c = advisory_credit b" "breaker_state ?c = breaker_state b"
    "advisory_threshold_emitted ?c = advisory_threshold_emitted b"
    by (simp_all add: push_round_last_n count_streak_def Let_def advisory_credit_def)
  show ?thesis
    by (cases rule: breaker_observe_cases [of b r, case_names limit trips closed half opened])
      (use c in \<open>simp_all add: introspect_when_due_def evaluate_half_open_def Let_def advisory_credit_def\<close>)
qed

lemma advisory_actions:
  "count_list (breaker_actions b ops) AdvisoryThresholdReached
     \<le> advisory_credit b + length (filter (\<lambda>op. \<not> observes op) ops)"
proof (induction ops arbitrary: b)
  case (Cons op ops)
  show ?case
  proof (cases "observes op")
    case True
    then obtain r where "op = ObserveRound r" by (cases op) simp_all
    then show ?thesis
      using Cons.IH [of "snd (breaker_observe b r)"] advisory_observe [of b r] by (simp split: if_splits)
  next
    case False
    have "advisory_credit (breaker_step b op) \<le> 1" by (simp add: advisory_credit_def)
    then show ?thesis
      using Cons.IH [of "breaker_step b op"] False by (simp add: passive_actions)
  qed
qed simp

text \<open>
  The stronger advisory does not storm: a run yields it at most once for every
  acknowledgement or pause recovery.
\<close>

theorem advisory_emitted_once:
  "count_list (breaker_actions (breaker_new c) ops) AdvisoryThresholdReached
     \<le> length (filter (\<lambda>op. \<not> observes op) ops)"
  using advisory_actions [of "breaker_new c" ops] by (simp add: advisory_credit_def breaker_new_def)

fun is_introspect :: "BreakerAction \<Rightarrow> bool" where
  "is_introspect (Introspect n) = True"
| "is_introspect _ = False"

fun keeps_streak :: "breaker_op \<Rightarrow> bool" where
  "keeps_streak (ObserveRound r) = (\<not> produced_mutation r)"
| "keeps_streak Acknowledge = True"
| "keeps_streak (PauseRecovery t) = False"

lemma introspect_observe:
  assumes "\<not> produced_mutation r" and cap: "0 < max_introspect_emissions (config b)"
    "max_introspect_emissions (config b) \<le> usize_max"
  shows "introspect_emissions_since_last_write (snd (breaker_observe b r)) =
      introspect_emissions_since_last_write b + (if is_introspect (fst (breaker_observe b r)) then 1 else 0) \<and>
    (is_introspect (fst (breaker_observe b r)) \<longrightarrow>
       introspect_emissions_since_last_write b < max_introspect_emissions (config b))"
proof -
  let ?c = "push_round (count_streak b r) r"
  have c: "config ?c = config b"
    "introspect_emissions_since_last_write ?c = introspect_emissions_since_last_write b"
    using assms(1) by (simp_all add: push_round_last_n count_streak_def Let_def)
  show ?thesis
    by (cases rule: breaker_observe_cases [of b r, case_names limit trips closed half opened])
      (use c cap in \<open>simp_all add: introspect_when_due_def evaluate_half_open_def Let_def usize_wrap_inc_def\<close>)
qed

text \<open>
  The self-check prompts of a read-only streak are capped: from a state within its
  budget, a run without a mutation and without a pause recovery prompts at most as often
  as the budget still allows.
\<close>

theorem introspection_capped:
  assumes "0 < max_introspect_emissions (config b)" and "max_introspect_emissions (config b) \<le> usize_max"
    and "introspect_emissions_since_last_write b \<le> max_introspect_emissions (config b)"
    and "list_all keeps_streak ops"
  shows "introspect_emissions_since_last_write b + length (filter is_introspect (breaker_actions b ops))
    \<le> max_introspect_emissions (config b)"
  using assms
proof (induction ops arbitrary: b)
  case (Cons op ops)
  show ?case
  proof (cases "observes op")
    case True
    then obtain r where op: "op = ObserveRound r" by (cases op) simp_all
    have "\<not> produced_mutation r" using Cons.prems(4) by (simp add: op)
    from introspect_observe [OF this Cons.prems(1,2)] show ?thesis
      using Cons.IH [of "snd (breaker_observe b r)"] Cons.prems observe_keeps [of b r]
      by (simp add: op split: if_splits)
  next
    case False
    then have op: "op = Acknowledge" using Cons.prems(4) by (cases op) simp_all
    have "introspect_emissions_since_last_write (breaker_step b op) = introspect_emissions_since_last_write b"
      "config (breaker_step b op) = config b"
      by (simp_all add: op acknowledge_pattern_observation_def)
    then show ?thesis using Cons.IH [of "breaker_step b op"] Cons.prems by (simp add: op)
  qed
qed simp

section \<open>Repeated server calls\<close>

lemma le_takeWhile_iff: "n \<le> length (takeWhile P xs) \<longleftrightarrow> n \<le> length xs \<and> list_all P (take n xs)"
proof (induction xs arbitrary: n)
  case (Cons x xs)
  then show ?case by (cases n) auto
qed simp

lemma last_n_rev: "last_n n xs = rev (take n (rev xs))"
  by (simp add: last_n_def take_rev)

lemma trailing_depth_takeWhile:
  assumes "sigs \<noteq> []" and "last sigs \<noteq> {}"
  shows "trailing_identical_sig_depth sigs = length (takeWhile (\<lambda>s. s = last sigs) (rev sigs))"
  using assms by (cases sigs rule: rev_cases) (simp_all add: trailing_identical_sig_depth_def)

lemma detect_server_stall_depth:
  assumes "0 < n" and "list_all (\<lambda>s. s \<noteq> {}) sigs"
  shows "detect_server_stall sigs n = Inr (n \<le> trailing_identical_sig_depth sigs)"
proof (cases "length sigs < n")
  case True
  have "trailing_identical_sig_depth sigs \<le> length sigs"
    using length_takeWhile_le [of _ "rev sigs"] trailing_depth_takeWhile [of sigs]
    by (auto simp: trailing_identical_sig_depth_def [of "[]"] trailing_identical_sig_depth_def [of sigs])
  then show ?thesis using True assms(1) by (simp add: detect_server_stall_def)
next
  case False
  then have ne: "sigs \<noteq> []" using assms(1) by auto
  then have "last sigs \<noteq> {}" using assms(2) by (simp add: list_all_iff)
  note depth = trailing_depth_takeWhile [OF ne this]
  have "last_n n sigs \<noteq> []" using ne assms(1) False by (simp add: last_n_def)
  then have "last_n n sigs ! (n - 1) = last sigs"
    using last_conv_nth [of "last_n n sigs"] False last_last_n [OF assms(1) ne] by (simp add: min_absorb1)
  then show ?thesis
    using False assms(1) unfolding depth le_takeWhile_iff
    by (simp add: detect_server_stall_def Let_def last_n_rev list_all_iff)
qed

definition recorded_calls :: "stall_externals \<Rightarrow> nat \<Rightarrow> json list list \<Rightarrow> StallSignature set list" where
  "recorded_calls ext window calls = foldl (\<lambda>sigs c. record_server_tool_signatures ext sigs c window) [] calls"

lemma recorded_calls_window:
  "recorded_calls ext window calls =
     last_n window (map (server_tool_call_signature ext) (filter (\<lambda>c. c \<noteq> []) calls))"
proof (induction calls rule: rev_induct)
  case (snoc c calls)
  have "record_server_tool_signatures ext sigs c window =
      (if c = [] then sigs else last_n window (sigs @ [server_tool_call_signature ext c]))" for sigs
    by (simp add: record_server_tool_signatures_def last_n_def Let_def)
  then show ?case using snoc by (simp add: recorded_calls_def last_n_snoc)
qed (simp add: recorded_calls_def last_n_def)

lemma detect_server_stall_last_n:
  "n \<le> m \<Longrightarrow> detect_server_stall (last_n m sigs) n = detect_server_stall sigs n"
  by (auto simp: detect_server_stall_def last_n_last_n Let_def)

text \<open>
  The server detector over its sliding window is exact and agrees with the depth count
  over the whole history: for a detector window within the recorded one it reports a stall
  exactly when at least that many trailing rounds with tool calls had identical
  signatures.
\<close>

theorem server_stall_exact:
  assumes "0 < n" and "n \<le> window"
  shows "detect_server_stall (recorded_calls ext window calls) n =
    Inr (n \<le> trailing_identical_sig_depth
           (map (server_tool_call_signature ext) (filter (\<lambda>c. c \<noteq> []) calls)))"
  unfolding recorded_calls_window detect_server_stall_last_n [OF assms(2)]
  by (rule detect_server_stall_depth [OF assms(1)])
    (simp add: list_all_iff server_tool_call_signature_def)

section \<open>Concrete applications\<close>

definition sample_sig :: "rstr \<Rightarrow> StallSignature" where
  "sample_sig name = \<lparr>sig_tool_name = name, sig_digest = []\<rparr>"

definition sample_round :: "rstr \<Rightarrow> RoundSignal" where
  "sample_round name = \<lparr>tool_signatures = {sample_sig name}, produced_mutation = False, tool_count = 1\<rparr>"

lemma config_default_ok: "config_ok config_default"
  by (simp add: config_ok_def config_default_def config_history_limit_def usize_sat_mul_def usize_max_def)

theorem breaker_continuation_valid_witness:
  "is_ok (breaker_validate_continuation
     (foldl breaker_step (breaker_new config_default) [ObserveRound (sample_round ''ls''), Acknowledge]))"
  by (rule breaker_continuation_valid [OF config_default_ok])

theorem breaker_history_bound_transparent_witness:
  "breaker_actions ((breaker_new config_default)\<lparr>history_limit := 100\<rparr>) (replicate 20 (ObserveRound (sample_round ''ls''))) =
   breaker_actions (breaker_new config_default) (replicate 20 (ObserveRound (sample_round ''ls'')))"
  by (rule breaker_history_bound_transparent [OF config_default_ok])
    (simp_all add: config_default_def config_history_limit_def usize_sat_mul_def usize_max_def)

theorem hard_round_limit_exact_witness:
  "breaker_actions (breaker_new (config_default\<lparr>absolute_max_rounds := 2\<rparr>))
     [ObserveRound (sample_round ''ls''), Acknowledge, ObserveRound (sample_round ''cat'')] ! 1 =
   HardRoundLimitReached 2 2"
  using hard_round_limit_exact [of "[ObserveRound (sample_round ''ls''), Acknowledge, ObserveRound (sample_round ''cat'')]"
      1 "config_default\<lparr>absolute_max_rounds := 2\<rparr>"]
  by (simp add: usize_max_def numeral_2_eq_2)

theorem novel_rounds_never_tripped_witness:
  "list_all (\<lambda>a. a \<noteq> PatternObserved \<and> a \<noteq> AdvisoryThresholdReached)
     (breaker_actions (breaker_new config_default) [ObserveRound (sample_round ''ls''), ObserveRound (sample_round ''cat'')])"
  by (rule novel_rounds_never_tripped) (simp_all add: sample_round_def sample_sig_def config_default_def)

theorem introspection_capped_witness:
  "length (filter is_introspect
     (breaker_actions (breaker_new config_default) [ObserveRound (sample_round ''ls''), Acknowledge])) \<le> 3"
  using introspection_capped [of "breaker_new config_default" "[ObserveRound (sample_round ''ls''), Acknowledge]"]
  by (simp add: breaker_new_def config_default_def sample_round_def usize_max_def)

definition sample_stall_externals :: stall_externals where
  "sample_stall_externals = \<lparr>sha256 = id, from_str = (\<lambda>_. None), to_string = (\<lambda>_. [])\<rparr>"

theorem server_stall_exact_witness:
  "detect_server_stall (recorded_calls sample_stall_externals 3 [[JNull], [], [JNull], [JNull]]) 2 = Inr True"
proof -
  let ?sigs = "map (server_tool_call_signature sample_stall_externals) (filter (\<lambda>c. c \<noteq> []) [[JNull], [], [JNull], [JNull]])"
  have "2 \<le> trailing_identical_sig_depth ?sigs"
    by (simp add: trailing_identical_sig_depth_def server_tool_call_signature_def)
  then show ?thesis
    using server_stall_exact [of 2 3 sample_stall_externals "[[JNull], [], [JNull], [JNull]]"] by simp
qed

end
