(* ===== verification/Work_Domain.thy ===== *)
theory Work_Domain
  imports Astra_Prelude
begin

text \<open>
  The value types of the Work aggregate: identities, goals, change reasons, revisions,
  the Work and branch records of \<^verbatim>\<open>crates/services/src/work.rs\<close> and the item types of
  \<^verbatim>\<open>crates/services/src/work/graph.rs\<close>. A newtype around a string is the string, its
  \<^verbatim>\<open>parse\<close> is the check. A revision is an \<^verbatim>\<open>i64\<close>, an integer in that range, and a time stamp is
  an integer. Of the domain error the model has the variants that the modelled code
  returns; the last constructor stands for a panic.
\<close>

section \<open>Errors\<close>

datatype WorkIdentityViolation =
    IdentityEmpty
  | Whitespace
  | ControlCharacter
  | UnsafeResourceCharacter
  | IdentityTooLong nat

datatype WorkGoalViolation = GoalEmpty | GoalTooLarge nat

datatype WorkChangeReasonViolation = ReasonEmpty | ReasonTooLarge nat

datatype WorkItemTextViolation = TextEmpty | TextTooLarge nat

datatype WorkDomainError =
    InvalidIdentity rstr WorkIdentityViolation
  | InvalidRevision rstr int
  | InvalidGoal WorkGoalViolation
  | InvalidChangeReason WorkChangeReasonViolation
  | RevisionExhausted rstr
  | UnallocatedWorkItemRevision rstr
  | InvalidWorkItemText WorkItemTextViolation
  | TooManyWorkItems nat
  | TooManyWorkItemEdges nat
  | DuplicateWorkItem rstr
  | DuplicateWorkItemEdge
  | SelfDependentWorkItem rstr
  | UnknownWorkItemEdgeEndpoint rstr
  | CyclicWorkItemGraph
  | IncompleteForkLineage
  | GraphRevisionBeforeBasis
  | ArchiveBeforeCreation
  | DeliveryBranchWorkMismatch
  | DeliveryBranchIdentityMismatch
  | GraphPanic

type_synonym 'a domain = "(WorkDomainError, 'a) result"

section \<open>Identities\<close>

definition validate_identity :: "rstr \<Rightarrow> rstr \<Rightarrow> nat \<Rightarrow> unit domain" where
  "validate_identity field value max_chars =
     (let violation =
        (if value = [] then Some IdentityEmpty
         else if list_ex is_control (utf8_chars value) then Some ControlCharacter
         else if list_ex is_whitespace (utf8_chars value) then Some Whitespace
         else if length (utf8_chars value) > max_chars then Some (IdentityTooLong max_chars)
         else None)
      in case violation of Some v \<Rightarrow> Inl (InvalidIdentity field v) | None \<Rightarrow> Inr ())"

definition resource_byte :: "char \<Rightarrow> bool" where
  "resource_byte c = (is_ascii_alphanumeric c \<or> c = CHR ''.'' \<or> c = CHR ''_'' \<or> c = CHR ''-'')"

definition validate_resource_identity :: "rstr \<Rightarrow> rstr \<Rightarrow> nat \<Rightarrow> unit domain" where
  "validate_resource_identity field value max_chars =
     try_bind (validate_identity field value max_chars) (\<lambda>_.
       if value = ''.'' \<or> value = ''..'' \<or> \<not> list_all resource_byte value
       then Inl (InvalidIdentity field UnsafeResourceCharacter)
       else Inr ())"

definition opaque_identity :: "rstr \<Rightarrow> nat \<Rightarrow> rstr \<Rightarrow> rstr domain" where
  "opaque_identity field max_chars value =
     try_bind (validate_identity field value max_chars) (\<lambda>_. Inr value)"

definition opaque_resource_identity :: "rstr \<Rightarrow> nat \<Rightarrow> rstr \<Rightarrow> rstr domain" where
  "opaque_resource_identity field max_chars value =
     try_bind (validate_resource_identity field value max_chars) (\<lambda>_. Inr value)"

definition work_id_parse :: "rstr \<Rightarrow> rstr domain" where
  "work_id_parse = opaque_resource_identity ''work_id'' 64"

definition branch_id_parse :: "rstr \<Rightarrow> rstr domain" where
  "branch_id_parse = opaque_resource_identity ''branch_id'' 64"

definition internal_session_id_parse :: "rstr \<Rightarrow> rstr domain" where
  "internal_session_id_parse = opaque_identity ''session_id'' 64"

definition work_owner_id_parse :: "rstr \<Rightarrow> rstr domain" where
  "work_owner_id_parse = opaque_identity ''owner_id'' 128"

definition project_id_parse :: "rstr \<Rightarrow> rstr domain" where
  "project_id_parse = opaque_identity ''project_id'' 128"

definition original_intent_ref_parse :: "rstr \<Rightarrow> rstr domain" where
  "original_intent_ref_parse = opaque_identity ''original_intent_ref'' 256"

definition fork_cursor_ref_parse :: "rstr \<Rightarrow> rstr domain" where
  "fork_cursor_ref_parse = opaque_identity ''fork_cursor'' 512"

definition work_change_ref_parse :: "rstr \<Rightarrow> rstr domain" where
  "work_change_ref_parse = opaque_identity ''work_change_ref'' 256"

section \<open>Texts\<close>

definition WORK_GOAL_MAX_BYTES :: nat where
  "WORK_GOAL_MAX_BYTES = 16 * 1024"

definition WORK_CHANGE_REASON_MAX_BYTES :: nat where
  "WORK_CHANGE_REASON_MAX_BYTES = 512"

definition WORK_ITEM_TEXT_MAX_BYTES :: nat where
  "WORK_ITEM_TEXT_MAX_BYTES = 8 * 1024"

definition goal_parse :: "rstr \<Rightarrow> rstr domain" where
  "goal_parse value =
     (let violation =
        (if trim value = [] then Some GoalEmpty
         else if length value > WORK_GOAL_MAX_BYTES then Some (GoalTooLarge WORK_GOAL_MAX_BYTES)
         else None)
      in case violation of Some v \<Rightarrow> Inl (InvalidGoal v) | None \<Rightarrow> Inr value)"

definition change_reason_parse :: "rstr \<Rightarrow> rstr domain" where
  "change_reason_parse value =
     (let violation =
        (if trim value = [] then Some ReasonEmpty
         else if length value > WORK_CHANGE_REASON_MAX_BYTES
         then Some (ReasonTooLarge WORK_CHANGE_REASON_MAX_BYTES)
         else None)
      in case violation of Some v \<Rightarrow> Inl (InvalidChangeReason v) | None \<Rightarrow> Inr value)"

definition item_text_parse :: "rstr \<Rightarrow> rstr domain" where
  "item_text_parse value =
     (if trim value = [] then Inl (InvalidWorkItemText TextEmpty)
      else if length value > WORK_ITEM_TEXT_MAX_BYTES
      then Inl (InvalidWorkItemText (TextTooLarge WORK_ITEM_TEXT_MAX_BYTES))
      else Inr value)"

section \<open>Revisions\<close>

text \<open>
  The revision types of the macro \<^verbatim>\<open>revision_type\<close> differ only in the name they report:
  \<^verbatim>\<open>work\<close>, \<^verbatim>\<open>work branch\<close>, \<^verbatim>\<open>goal\<close>, \<^verbatim>\<open>criterion set\<close> and \<^verbatim>\<open>graph\<close>. The item revision is written
  out in the same way.
\<close>

type_synonym revision = int

definition revision_initial :: revision where
  "revision_initial = 1"

definition revision_new :: "rstr \<Rightarrow> int \<Rightarrow> revision domain" where
  "revision_new field value = (if value < 1 then Inl (InvalidRevision field value) else Inr value)"

definition revision_checked_next :: "rstr \<Rightarrow> revision \<Rightarrow> revision domain" where
  "revision_checked_next field r = ok_or (checked_add_i64 r 1) (RevisionExhausted field)"

definition item_revision_new :: "int \<Rightarrow> revision domain" where
  "item_revision_new value = (if value < 1 then Inl (InvalidRevision ''work item'' value) else Inr value)"

definition item_revision_checked_next :: "revision \<Rightarrow> revision domain" where
  "item_revision_checked_next r = ok_or (checked_add_i64 r 1) (RevisionExhausted ''work item'')"

record WorkAttemptTerminalCut =
  cut_graph_revision :: revision
  control_epoch :: int

definition terminal_cut_new :: "revision \<Rightarrow> int \<Rightarrow> WorkAttemptTerminalCut option" where
  "terminal_cut_new g epoch =
     (if epoch \<ge> - 1 then Some \<lparr>cut_graph_revision = g, control_epoch = epoch\<rparr> else None)"

section \<open>Records\<close>

record WorkRecordParts =
  wr_work_id :: rstr
  wr_owner_id :: rstr
  wr_work_revision :: revision
  wr_project_id :: "rstr option"
  wr_original_intent_ref :: rstr
  wr_current_goal_revision :: revision
  wr_current_criteria_set_revision :: revision
  wr_delivery_branch_id :: rstr
  wr_created_at :: int
  wr_archived_at :: "int option"

datatype WorkRecord = WorkRecord (record_parts: WorkRecordParts)

definition archived_before :: "int option \<Rightarrow> int \<Rightarrow> bool" where
  "archived_before archived created = (case archived of Some t \<Rightarrow> t < created | None \<Rightarrow> False)"

definition work_record_from_parts :: "WorkRecordParts \<Rightarrow> WorkRecord domain" where
  "work_record_from_parts p =
     (if archived_before (wr_archived_at p) (wr_created_at p) then Inl ArchiveBeforeCreation
      else Inr (WorkRecord p))"

record WorkBranchRecordParts =
  br_work_id :: rstr
  br_branch_id :: rstr
  br_branch_revision :: revision
  br_session_id :: rstr
  br_origin_branch_id :: "rstr option"
  br_fork_cursor :: "rstr option"
  br_goal_revision_ref :: revision
  br_criteria_set_revision_ref :: revision
  br_basis_graph_revision :: revision
  br_current_graph_revision :: revision
  br_created_at :: int
  br_archived_at :: "int option"

datatype WorkBranchRecord = WorkBranchRecord (branch_parts: WorkBranchRecordParts)

definition branch_record_from_parts :: "WorkBranchRecordParts \<Rightarrow> WorkBranchRecord domain" where
  "branch_record_from_parts p =
     (if (br_origin_branch_id p \<noteq> None) \<noteq> (br_fork_cursor p \<noteq> None) then Inl IncompleteForkLineage
      else if br_current_graph_revision p < br_basis_graph_revision p then Inl GraphRevisionBeforeBasis
      else if archived_before (br_archived_at p) (br_created_at p) then Inl ArchiveBeforeCreation
      else Inr (WorkBranchRecord p))"

definition validate_delivery_branch_binding :: "WorkRecord \<Rightarrow> WorkBranchRecord \<Rightarrow> unit domain" where
  "validate_delivery_branch_binding work branch =
     (if wr_work_id (record_parts work) \<noteq> br_work_id (branch_parts branch) then Inl DeliveryBranchWorkMismatch
      else if wr_delivery_branch_id (record_parts work) \<noteq> br_branch_id (branch_parts branch)
      then Inl DeliveryBranchIdentityMismatch
      else Inr ())"

section \<open>Items\<close>

definition item_id_parse :: "rstr \<Rightarrow> rstr domain" where
  "item_id_parse value = try_bind (validate_resource_identity ''work_item_id'' value 64) (\<lambda>_. Inr value)"

definition item_id_root :: rstr where
  "item_id_root = ''root''"

definition item_attempt_id_parse :: "rstr \<Rightarrow> rstr domain" where
  "item_attempt_id_parse value =
     try_bind (validate_resource_identity ''work_item_attempt_id'' value 64) (\<lambda>_. Inr value)"

datatype WorkItemKind = Milestone | Task

fun item_kind_as_str :: "WorkItemKind \<Rightarrow> rstr" where
  "item_kind_as_str Milestone = ''milestone''"
| "item_kind_as_str Task = ''task''"

definition item_kind_from_persisted :: "rstr \<Rightarrow> WorkItemKind option" where
  "item_kind_from_persisted value =
     (if value = ''milestone'' then Some Milestone
      else if value = ''task'' then Some Task
      else None)"

datatype WorkItemDeclarationState = DeclaredActive | Superseded | Cancelled

fun declaration_state_as_str :: "WorkItemDeclarationState \<Rightarrow> rstr" where
  "declaration_state_as_str DeclaredActive = ''active''"
| "declaration_state_as_str Superseded = ''superseded''"
| "declaration_state_as_str Cancelled = ''cancelled''"

definition declaration_state_from_persisted :: "rstr \<Rightarrow> WorkItemDeclarationState option" where
  "declaration_state_from_persisted value =
     (if value = ''active'' then Some DeclaredActive
      else if value = ''superseded'' then Some Superseded
      else if value = ''cancelled'' then Some Cancelled
      else None)"

text \<open>The derived orders compare the fields in the order of their declaration.\<close>

datatype WorkItemRevisionRef = WorkItemRevisionRef (ref_item_id: rstr) (ref_revision: revision)

instantiation WorkItemRevisionRef :: linorder
begin

definition less_eq_WorkItemRevisionRef where
  "a \<le> b \<longleftrightarrow> (ref_item_id a, ref_revision a) \<le> (ref_item_id b, ref_revision b)"

definition less_WorkItemRevisionRef where
  "a < b \<longleftrightarrow> (ref_item_id a, ref_revision a) < (ref_item_id b, ref_revision b)"

instance
  by intro_classes
    (auto simp: less_eq_WorkItemRevisionRef_def less_WorkItemRevisionRef_def intro: WorkItemRevisionRef.expand)

end

record NewWorkItem =
  new_item_id :: rstr
  new_kind :: WorkItemKind
  new_objective :: rstr
  new_expected_result :: rstr

record WorkItemRevisionChange =
  change_item_id :: rstr
  expected_revision :: revision
  change_kind :: WorkItemKind
  change_objective :: rstr
  change_expected_result :: rstr
  declaration_state :: WorkItemDeclarationState
  result_revision :: "revision option"

definition revision_change_new ::
    "rstr \<Rightarrow> revision \<Rightarrow> WorkItemKind \<Rightarrow> rstr \<Rightarrow> rstr \<Rightarrow> WorkItemDeclarationState \<Rightarrow> WorkItemRevisionChange" where
  "revision_change_new i expected k objective result st =
     \<lparr>change_item_id = i, expected_revision = expected, change_kind = k, change_objective = objective,
      change_expected_result = result, declaration_state = st, result_revision = None\<rparr>"

definition result_ref :: "WorkItemRevisionChange \<Rightarrow> WorkItemRevisionRef domain" where
  "result_ref c =
     try_bind (ok_or (result_revision c) (UnallocatedWorkItemRevision (change_item_id c)))
       (\<lambda>r. Inr (WorkItemRevisionRef (change_item_id c) r))"

definition expected_ref :: "WorkItemRevisionChange \<Rightarrow> WorkItemRevisionRef" where
  "expected_ref c = WorkItemRevisionRef (change_item_id c) (expected_revision c)"

definition assign_result_revision :: "WorkItemRevisionChange \<Rightarrow> revision \<Rightarrow> WorkItemRevisionChange" where
  "assign_result_revision c r = c\<lparr>result_revision := Some r\<rparr>"

datatype WorkGraphItemChange =
    Existing WorkItemRevisionRef
  | New NewWorkItem
  | Revised WorkItemRevisionChange

fun revision_ref :: "WorkGraphItemChange \<Rightarrow> WorkItemRevisionRef domain" where
  "revision_ref (Existing reference) = Inr reference"
| "revision_ref (New item) = Inr (WorkItemRevisionRef (new_item_id item) revision_initial)"
| "revision_ref (Revised item) = result_ref item"

datatype WorkItemEdgeKind = Dependency

definition edge_kind_as_str :: "WorkItemEdgeKind \<Rightarrow> rstr" where
  "edge_kind_as_str k = ''dependency''"

datatype WorkItemEdge = WorkItemEdge
  (predecessor_item_id: rstr) (successor_item_id: rstr) (edge_kind: WorkItemEdgeKind)

lemma edge_eqI:
  "predecessor_item_id a = predecessor_item_id b \<Longrightarrow> successor_item_id a = successor_item_id b \<Longrightarrow> a = b"
  by (cases a; cases b; cases "edge_kind a"; cases "edge_kind b") simp

instantiation WorkItemEdge :: linorder
begin

definition less_eq_WorkItemEdge where
  "a \<le> b \<longleftrightarrow> (predecessor_item_id a, successor_item_id a) \<le> (predecessor_item_id b, successor_item_id b)"

definition less_WorkItemEdge where
  "a < b \<longleftrightarrow> (predecessor_item_id a, successor_item_id a) < (predecessor_item_id b, successor_item_id b)"

instance
  by intro_classes
    (auto simp: less_eq_WorkItemEdge_def less_WorkItemEdge_def intro: edge_eqI)

end

section \<open>Stored labels\<close>

interpretation item_kinds: text_codec item_kind_as_str item_kind_from_persisted
proof
  show "item_kind_from_persisted (item_kind_as_str k) = Some k" for k
    by (cases k) (simp_all add: item_kind_from_persisted_def)
  show "item_kind_from_persisted s = Some k \<Longrightarrow> item_kind_as_str k = s" for s k
    by (auto simp: item_kind_from_persisted_def split: if_splits)
qed

interpretation declaration_states: text_codec declaration_state_as_str declaration_state_from_persisted
proof
  show "declaration_state_from_persisted (declaration_state_as_str s) = Some s" for s
    by (cases s) (simp_all add: declaration_state_from_persisted_def)
  show "declaration_state_from_persisted t = Some s \<Longrightarrow> declaration_state_as_str s = t" for t s
    by (auto simp: declaration_state_from_persisted_def split: if_splits)
qed


section \<open>Resource identities\<close>

lemma ascii_not_cont: "(of_char c :: nat) < 128 \<Longrightarrow> \<not> is_cont_byte c"
  by (simp add: is_cont_byte_def)

lemma utf8_chars_seven_bit: "list_all (\<lambda>c. (of_char c :: nat) < 128) s \<Longrightarrow> utf8_chars s = map (\<lambda>c. [c]) s"
proof (induction s)
  case (Cons c s)
  then have "utf8_chars s = map (\<lambda>c. [c]) s" "\<not> is_cont_byte c" by (simp_all add: ascii_not_cont)
  then show ?case using Cons.prems by (cases s) (auto simp: ascii_not_cont)
qed simp


lemma resource_byte_ascii:
  "resource_byte c \<Longrightarrow> (of_char c :: nat) < 128 \<and> 33 \<le> (of_char c :: nat) \<and> (of_char c :: nat) \<noteq> 127"
  by (auto simp: resource_byte_def is_ascii_alphanumeric_def is_ascii_digit_def)

lemma visible_ascii:
  assumes "33 \<le> (of_char c :: nat)" and "(of_char c :: nat) < 127"
  shows "\<not> is_control [c] \<and> \<not> is_whitespace [c]"
  using assms by (auto simp: is_control_def is_whitespace_def)

lemma resource_identity_chars:
  assumes "list_all resource_byte v"
  shows "length (utf8_chars v) = length v" and "\<not> list_ex is_control (utf8_chars v)"
    and "\<not> list_ex is_whitespace (utf8_chars v)"
proof -
  have chars: "utf8_chars v = map (\<lambda>c. [c]) v"
    by (rule utf8_chars_seven_bit) (use assms resource_byte_ascii in \<open>auto simp: list_all_iff\<close>)
  have visible: "\<not> is_control [c] \<and> \<not> is_whitespace [c]" if "c \<in> set v" for c
  proof (rule visible_ascii)
    have "resource_byte c" using assms that by (simp add: list_all_iff)
    then show "33 \<le> (of_char c :: nat)" "(of_char c :: nat) < 127" using resource_byte_ascii [of c] by auto
  qed
  show "length (utf8_chars v) = length v" by (simp add: chars)
  show "\<not> list_ex is_control (utf8_chars v)" "\<not> list_ex is_whitespace (utf8_chars v)"
    using visible by (auto simp: chars list_ex_iff)
qed

text \<open>
  A resource identity is accepted exactly when it is made of 1 up to the limit of ASCII
  letters, digits, dots, underscores and hyphens and is none of the two relative path
  names, so that it is a safe path segment; it is kept unchanged.
\<close>

theorem resource_identity_iff:
  "opaque_resource_identity field max_chars v = Inr parsed \<longleftrightarrow>
     parsed = v \<and> 1 \<le> length v \<and> length v \<le> max_chars \<and> list_all resource_byte v \<and>
     v \<noteq> ''.'' \<and> v \<noteq> ''..''"
proof (cases "list_all resource_byte v")
  case True
  then show ?thesis
    using resource_identity_chars [OF True]
    by (cases v)
      (auto simp: opaque_resource_identity_def validate_resource_identity_def validate_identity_def try_bind_def)
next
  case False
  then show ?thesis
    by (auto simp: opaque_resource_identity_def validate_resource_identity_def validate_identity_def
        try_bind_def Let_def split: sum.splits)
qed

end
