(* ===== verification/Work_Graph.thy ===== *)
theory Work_Graph
  imports Work_Domain
begin

text \<open>
  The admission of a Work item graph, from \<^verbatim>\<open>crates/services/src/work/graph.rs\<close>: the limits,
  the canonical order of items and edges, and the cycle check by repeated removal of
  items without open predecessors. \<^verbatim>\<open>get_mut\<close> on an entry that is there changes it in
  place; an \<^verbatim>\<open>expect\<close> that fails and a subtraction below zero are \<open>GraphPanic\<close>, which is
  shown not to occur.
\<close>

section \<open>Definitions\<close>

definition WORK_GRAPH_MAX_ITEMS :: nat where
  "WORK_GRAPH_MAX_ITEMS = 256"

definition WORK_GRAPH_MAX_EDGES :: nat where
  "WORK_GRAPH_MAX_EDGES = 1024"

record CanonicalGraph =
  item_refs :: "WorkItemRevisionRef list"
  graph_edges :: "WorkItemEdge list"

fun collect_refs :: "WorkGraphItemChange list \<Rightarrow> WorkItemRevisionRef list domain" where
  "collect_refs [] = Inr []"
| "collect_refs (c # cs) =
     try_bind (revision_ref c) (\<lambda>r. try_bind (collect_refs cs) (\<lambda>rs. Inr (r # rs)))"

text \<open>The first pair of neighbours that agree, as \<^verbatim>\<open>windows(2).find\<close> returns it.\<close>

fun find_neighbours :: "('a \<Rightarrow> 'a \<Rightarrow> bool) \<Rightarrow> 'a list \<Rightarrow> 'a option" where
  "find_neighbours same (x # y # xs) =
     (if same x y then Some x else find_neighbours same (y # xs))"
| "find_neighbours same _ = None"

definition bt_modify :: "'k \<Rightarrow> ('v \<Rightarrow> 'v) \<Rightarrow> ('k, 'v) btree \<Rightarrow> ('k, 'v) btree" where
  "bt_modify k f m = map (\<lambda>e. if fst e = k then (fst e, f (snd e)) else e) m"

type_synonym degrees = "(rstr, nat) btree"
type_synonym successor_map = "(rstr, rstr list) btree"

definition successors_of :: "successor_map \<Rightarrow> rstr \<Rightarrow> rstr list" where
  "successors_of successors item = (case bt_get successors item of Some ss \<Rightarrow> ss | None \<Rightarrow> [])"

definition add_edge :: "rstr list \<Rightarrow> WorkItemEdge \<Rightarrow> degrees \<times> successor_map \<Rightarrow> (degrees \<times> successor_map) domain" where
  "add_edge ids e = (\<lambda>(indegree, successors).
     if predecessor_item_id e = successor_item_id e then Inl (SelfDependentWorkItem (predecessor_item_id e))
     else case find (\<lambda>endpoint. endpoint \<notin> set ids) [predecessor_item_id e, successor_item_id e] of
       Some endpoint \<Rightarrow> Inl (UnknownWorkItemEdgeEndpoint endpoint)
     | None \<Rightarrow>
         (case bt_get indegree (successor_item_id e) of
            None \<Rightarrow> Inl GraphPanic
          | Some _ \<Rightarrow>
              Inr (bt_modify (successor_item_id e) Suc indegree,
                   bt_insert (predecessor_item_id e)
                     (successors_of successors (predecessor_item_id e) @ [successor_item_id e])
                     successors)))"

fun add_edges :: "rstr list \<Rightarrow> WorkItemEdge list \<Rightarrow> degrees \<times> successor_map \<Rightarrow> (degrees \<times> successor_map) domain" where
  "add_edges ids [] s = Inr s"
| "add_edges ids (e # es) s = try_bind (add_edge ids e s) (add_edges ids es)"

fun relax :: "degrees \<Rightarrow> rstr list \<Rightarrow> rstr list \<Rightarrow> (degrees \<times> rstr list) domain" where
  "relax indegree ready [] = Inr (indegree, ready)"
| "relax indegree ready (s # ss) =
     (case bt_get indegree s of
        None \<Rightarrow> Inl GraphPanic
      | Some 0 \<Rightarrow> Inl GraphPanic
      | Some (Suc d) \<Rightarrow> relax (bt_modify s (\<lambda>d. d - 1) indegree) (if d = 0 then ready @ [s] else ready) ss)"

definition work_left :: "degrees \<Rightarrow> nat" where
  "work_left indegree = sum_list (map snd indegree)"

lemma work_left_modify:
  "bt_get m s = Some d \<Longrightarrow> 0 < d \<Longrightarrow> work_left (bt_modify s (\<lambda>d. d - 1) m) < work_left m"
proof (induction m)
  case (Cons e m)
  have "work_left (bt_modify s (\<lambda>d. d - 1) m) \<le> work_left m"
    by (induction m) (auto simp: work_left_def bt_modify_def)
  then show ?case
    using Cons by (cases e) (auto simp: work_left_def bt_modify_def bt_get_def split: if_splits)
qed simp

lemma relax_work:
  "relax m q ss = Inr (m', q') \<Longrightarrow> work_left m' + length q' \<le> work_left m + length q"
proof (induction m q ss rule: relax.induct)
  case (2 m q s ss)
  then obtain d where d: "bt_get m s = Some (Suc d)"
    by (auto split: option.splits nat.splits)
  then have "work_left (bt_modify s (\<lambda>d. d - 1) m) < work_left m"
    using work_left_modify [OF d] by simp
  with 2 d show ?case by (force split: if_splits)
qed simp

text \<open>The loop over the queue of ready items; the result is the number of visited ones.\<close>

function visit_ready :: "successor_map \<Rightarrow> degrees \<Rightarrow> rstr list \<Rightarrow> nat \<Rightarrow> nat domain" where
  "visit_ready successors indegree [] visited = Inr visited"
| "visit_ready successors indegree (item # ready) visited =
     (case relax indegree ready (successors_of successors item) of
        Inl e \<Rightarrow> Inl e
      | Inr s \<Rightarrow> visit_ready successors (fst s) (snd s) (visited + 1))"
  by pat_completeness auto
termination
proof (relation "measure (\<lambda>(successors, indegree, ready, visited). work_left indegree + length ready)")
  fix successors :: successor_map and m item q visited s
  assume "relax m q (successors_of successors item) = Inr s"
  then have "work_left (fst s) + length (snd s) \<le> work_left m + length q"
    using relax_work by (cases s) simp
  then show "((successors, fst s, snd s, visited + 1), (successors, m, item # q, visited))
      \<in> measure (\<lambda>(successors, indegree, ready, visited). work_left indegree + length ready)"
    by simp
qed simp

text \<open>The set of item ids is the list of its members in order.\<close>

definition check_order :: "rstr list \<Rightarrow> WorkItemEdge list \<Rightarrow> unit domain" where
  "check_order item_ids canonical_edges =
     try_bind (add_edges item_ids canonical_edges (map (\<lambda>i. (i, 0)) item_ids, []))
       (\<lambda>(indegree, successors).
          let ready = map fst (filter (\<lambda>(_, degree). degree = 0) indegree) in
          try_bind (visit_ready successors indegree ready 0) (\<lambda>visited.
            if visited \<noteq> length item_ids then Inl CyclicWorkItemGraph else Inr ()))"

definition validate_and_canonicalize_graph ::
    "WorkGraphItemChange list \<Rightarrow> WorkItemEdge list \<Rightarrow> CanonicalGraph domain" where
  "validate_and_canonicalize_graph items edges =
     (if length items > WORK_GRAPH_MAX_ITEMS then Inl (TooManyWorkItems WORK_GRAPH_MAX_ITEMS)
      else if length edges > WORK_GRAPH_MAX_EDGES then Inl (TooManyWorkItemEdges WORK_GRAPH_MAX_EDGES)
      else try_bind (collect_refs items) (\<lambda>refs.
        let refs = sort refs in
        case find_neighbours (\<lambda>a b. ref_item_id a = ref_item_id b) refs of
          Some duplicate \<Rightarrow> Inl (DuplicateWorkItem (ref_item_id duplicate))
        | None \<Rightarrow>
            let item_ids = remdups_adj (map ref_item_id refs);
                canonical_edges = sort edges in
            if find_neighbours (=) canonical_edges \<noteq> None then Inl DuplicateWorkItemEdge
            else try_bind (check_order item_ids canonical_edges)
              (\<lambda>_. Inr \<lparr>item_refs = refs, graph_edges = canonical_edges\<rparr>)))"

section \<open>Reading the edges\<close>

lemma bt_keys_modify [simp]: "bt_keys (bt_modify k f m) = bt_keys m"
  by (auto simp: bt_keys_def bt_modify_def)

lemma bt_get_modify: "bt_get (bt_modify k f m) k' = (if k' = k then map_option f (bt_get m k) else bt_get m k')"
  by (induction m) (auto simp: bt_get_def bt_modify_def)

definition edge_ok :: "rstr list \<Rightarrow> WorkItemEdge \<Rightarrow> bool" where
  "edge_ok ids e \<longleftrightarrow> predecessor_item_id e \<noteq> successor_item_id e \<and>
     predecessor_item_id e \<in> set ids \<and> successor_item_id e \<in> set ids"

lemma add_edge_cases:
  assumes "bt_keys m = ids"
  shows "if edge_ok ids e
    then add_edge ids e (m, succ) = Inr (bt_modify (successor_item_id e) Suc m,
      bt_insert (predecessor_item_id e) (successors_of succ (predecessor_item_id e) @ [successor_item_id e]) succ)
    else \<exists>x. add_edge ids e (m, succ) = Inl x \<and> x \<noteq> GraphPanic"
proof (cases "edge_ok ids e")
  case True
  then obtain d where "bt_get m (successor_item_id e) = Some d"
    using assms bt_get_None_iff [of m "successor_item_id e"] by (auto simp: edge_ok_def)
  then show ?thesis using True by (simp add: add_edge_def edge_ok_def)
qed (auto simp: add_edge_def edge_ok_def)

definition edges_into :: "WorkItemEdge list \<Rightarrow> rstr set \<Rightarrow> rstr \<Rightarrow> nat" where
  "edges_into es closed v = length (filter (\<lambda>e. successor_item_id e = v \<and> predecessor_item_id e \<notin> closed) es)"

definition edges_from :: "WorkItemEdge list \<Rightarrow> rstr \<Rightarrow> rstr list" where
  "edges_from es u = map successor_item_id (filter (\<lambda>e. predecessor_item_id e = u) es)"

lemma add_edges_run:
  assumes "bt_keys m = ids"
  shows "if list_all (edge_ok ids) es
    then \<exists>m' succ'. add_edges ids es (m, succ) = Inr (m', succ') \<and> bt_keys m' = ids \<and>
      (\<forall>v. bt_get m' v = map_option (\<lambda>d. d + edges_into es {} v) (bt_get m v)) \<and>
      (\<forall>u. successors_of succ' u = successors_of succ u @ edges_from es u)
    else \<exists>x. add_edges ids es (m, succ) = Inl x \<and> x \<noteq> GraphPanic"
  using assms
proof (induction es arbitrary: m succ)
  case Nil
  then show ?case by (simp add: edges_into_def edges_from_def option.map_id0 [unfolded id_def])
next
  case (Cons e es)
  note step = add_edge_cases [OF Cons.prems, of e succ]
  show ?case
  proof (cases "edge_ok ids e")
    case True
    let ?m = "bt_modify (successor_item_id e) Suc m"
    let ?succ = "bt_insert (predecessor_item_id e) (successors_of succ (predecessor_item_id e) @ [successor_item_id e]) succ"
    have IH: "if list_all (edge_ok ids) es
      then \<exists>m' succ'. add_edges ids es (?m, ?succ) = Inr (m', succ') \<and> bt_keys m' = ids \<and>
        (\<forall>v. bt_get m' v = map_option (\<lambda>d. d + edges_into es {} v) (bt_get ?m v)) \<and>
        (\<forall>u. successors_of succ' u = successors_of ?succ u @ edges_from es u)
      else \<exists>x. add_edges ids es (?m, ?succ) = Inl x \<and> x \<noteq> GraphPanic"
      by (rule Cons.IH) (simp add: Cons.prems)
    have first: "add_edges ids (e # es) (m, succ) = add_edges ids es (?m, ?succ)"
      using step True by (simp add: try_bind_def)
    have degrees: "map_option (\<lambda>d. d + edges_into es {} v) (bt_get ?m v) =
        map_option (\<lambda>d. d + edges_into (e # es) {} v) (bt_get m v)" for v
      by (cases "bt_get m v") (auto simp: bt_get_modify edges_into_def)
    have lists: "successors_of ?succ u @ edges_from es u = successors_of succ u @ edges_from (e # es) u" for u
      by (auto simp: successors_of_def bt_get_insert edges_from_def)
    show ?thesis using IH True unfolding first degrees lists by simp
  next
    case False
    then show ?thesis using step by (auto simp: try_bind_def)
  qed
qed

section \<open>Removing ready items\<close>

lemma relax_run:
  assumes "distinct ss" and "\<And>s. s \<in> set ss \<Longrightarrow> \<exists>d. bt_get m s = Some (Suc d)"
  shows "\<exists>m'. relax m q ss = Inr (m', q @ filter (\<lambda>s. bt_get m s = Some 1) ss) \<and> bt_keys m' = bt_keys m \<and>
    (\<forall>v. bt_get m' v = (if v \<in> set ss then map_option (\<lambda>d. d - 1) (bt_get m v) else bt_get m v))"
  using assms
proof (induction ss arbitrary: m q)
  case (Cons s ss)
  obtain d where d: "bt_get m s = Some (Suc d)" using Cons.prems(2) by auto
  let ?m = "bt_modify s (\<lambda>d. d - 1) m" and ?q = "if d = 0 then q @ [s] else q"
  have others: "bt_get ?m t = bt_get m t" if "t \<in> set ss" for t
    using that Cons.prems(1) by (auto simp: bt_get_modify)
  have "\<exists>m'. relax ?m ?q ss = Inr (m', ?q @ filter (\<lambda>s. bt_get ?m s = Some 1) ss) \<and> bt_keys m' = bt_keys ?m \<and>
      (\<forall>v. bt_get m' v = (if v \<in> set ss then map_option (\<lambda>d. d - 1) (bt_get ?m v) else bt_get ?m v))"
    by (rule Cons.IH) (use Cons.prems others in auto)
  moreover have "filter (\<lambda>s. bt_get ?m s = Some 1) ss = filter (\<lambda>s. bt_get m s = Some 1) ss"
    using others by (intro filter_cong) auto
  ultimately show ?case
    using d others Cons.prems(1) by (auto simp: bt_get_modify)
qed simp


text \<open>
  The state of the loop: \<open>ds\<close> are the visited items in order and \<open>q\<close> the ready ones. The
  degree of an item counts the edges into it from items not visited, and the ready and
  visited items are those of degree zero.
\<close>

definition frontier :: "rstr list \<Rightarrow> WorkItemEdge list \<Rightarrow> degrees \<Rightarrow> rstr list \<Rightarrow> rstr list \<Rightarrow> bool" where
  "frontier ids es m q ds \<longleftrightarrow>
     distinct (ds @ q) \<and> set (ds @ q) \<subseteq> set ids \<and>
     (\<forall>v \<in> set ids. bt_get m v = Some (edges_into es (set ds) v)) \<and>
     (\<forall>v \<in> set ids. v \<in> set (ds @ q) \<longleftrightarrow> edges_into es (set ds) v = 0) \<and>
     (\<forall>i < length ds. \<forall>e \<in> set es. successor_item_id e = ds ! i \<longrightarrow> predecessor_item_id e \<in> set (take i ds))"

lemma edges_into_0: "edges_into es C v = 0 \<longleftrightarrow> (\<forall>e \<in> set es. successor_item_id e = v \<longrightarrow> predecessor_item_id e \<in> C)"
  by (auto simp: edges_into_def filter_empty_conv)

lemma distinct_edges_from:
  assumes "distinct es"
  shows "distinct (edges_from es u)"
proof -
  have "inj_on successor_item_id (set (filter (\<lambda>e. predecessor_item_id e = u) es))"
    by (rule inj_onI) (auto intro: edge_eqI)
  then show ?thesis using assms by (simp add: edges_from_def distinct_map)
qed

lemma count_edges: "distinct es \<Longrightarrow> u \<notin> C \<Longrightarrow>
    edges_into es C v = edges_into es (insert u C) v + (if v \<in> set (edges_from es u) then 1 else 0)"
proof (induction es)
  case (Cons e es)
  have once: "v \<notin> set (edges_from es u)" if "predecessor_item_id e = u" "successor_item_id e = v"
    using Cons.prems(1) that by (auto simp: edges_from_def) (metis edge_eqI)
  show ?case using Cons once by (auto simp: edges_into_def edges_from_def)
qed (simp add: edges_into_def edges_from_def)

lemma frontier_step:
  assumes fr: "frontier ids es m (u # q) ds" and es: "distinct es" "list_all (edge_ok ids) es"
  shows "\<exists>m' q'. relax m q (edges_from es u) = Inr (m', q') \<and> frontier ids es m' q' (ds @ [u])"
proof -
  let ?ss = "edges_from es u" and ?n = "\<lambda>v. edges_into es (set ds) v" and ?n' = "\<lambda>v. edges_into es (insert u (set ds)) v"
  have u: "u \<notin> set ds" "u \<in> set ids" "?n u = 0" using fr by (auto simp: frontier_def)
  have ss_ids: "set ?ss \<subseteq> set ids" using es(2) by (auto simp: edges_from_def list_all_iff edge_ok_def)
  have get: "bt_get m v = Some (?n v)" if "v \<in> set ids" for v using fr that by (simp add: frontier_def)
  have count: "?n v = ?n' v + (if v \<in> set ?ss then 1 else 0)" for v by (rule count_edges [OF es(1) u(1)])
  have "\<exists>d. bt_get m s = Some (Suc d)" if "s \<in> set ?ss" for s
    using that get [of s] count [of s] ss_ids by auto
  then obtain m' where m': "relax m q ?ss = Inr (m', q @ filter (\<lambda>s. bt_get m s = Some 1) ?ss)"
    "\<And>v. bt_get m' v = (if v \<in> set ?ss then map_option (\<lambda>d. d - 1) (bt_get m v) else bt_get m v)"
    using relax_run [OF distinct_edges_from [OF es(1)], of u m q] by blast
  have new: "filter (\<lambda>s. bt_get m s = Some 1) ?ss = filter (\<lambda>s. ?n' s = 0) ?ss"
    using get count ss_ids by (intro filter_cong) auto
  have ready: "v \<in> set (ds @ u # q) \<longleftrightarrow> ?n v = 0" if "v \<in> set ids" for v
    using fr that by (simp add: frontier_def)
  have topo: "\<forall>e \<in> set es. successor_item_id e = (ds @ [u]) ! i \<longrightarrow> predecessor_item_id e \<in> set (take i (ds @ [u]))"
    if "i < length (ds @ [u])" for i
  proof (cases "i < length ds")
    case True
    then show ?thesis using fr by (simp add: frontier_def nth_append)
  next
    case False
    then have "i = length ds" using that by simp
    then show ?thesis using u(3) by (simp add: edges_into_0)
  qed
  have "frontier ids es m' (q @ filter (\<lambda>s. ?n' s = 0) ?ss) (ds @ [u])"
    unfolding frontier_def
  proof (intro conjI ballI allI impI)
    have "s \<notin> set (ds @ u # q)" if "s \<in> set ?ss" for s
      using that ready [of s] count [of s] ss_ids by auto
    then show "distinct ((ds @ [u]) @ q @ filter (\<lambda>s. ?n' s = 0) ?ss)"
      using fr distinct_edges_from [OF es(1), of u] by (auto simp: frontier_def)
    show "set ((ds @ [u]) @ q @ filter (\<lambda>s. ?n' s = 0) ?ss) \<subseteq> set ids"
      using fr ss_ids by (auto simp: frontier_def)
    fix v assume v: "v \<in> set ids"
    show "bt_get m' v = Some (edges_into es (set (ds @ [u])) v)"
      using m'(2) [of v] get [OF v] count [of v] by simp
    show "v \<in> set ((ds @ [u]) @ q @ filter (\<lambda>s. ?n' s = 0) ?ss) \<longleftrightarrow> edges_into es (set (ds @ [u])) v = 0"
      using ready [OF v] count [of v] by (auto split: if_splits)
  qed (use topo in auto)
  then show ?thesis using m'(1) new by auto
qed

lemma visit_run:
  assumes "frontier ids es m q ds" and "distinct es" and "list_all (edge_ok ids) es"
    and "\<And>u. successors_of successors u = edges_from es u" and "visited = length ds"
  shows "\<exists>m' ds'. visit_ready successors m q visited = Inr (length ds') \<and> frontier ids es m' [] ds'"
  using assms
proof (induction successors m q visited arbitrary: ds rule: visit_ready.induct)
  case (2 successors m u q visited)
  obtain m' q' where next_state: "relax m q (edges_from es u) = Inr (m', q')" "frontier ids es m' q' (ds @ [u])"
    using frontier_step [OF 2(2-4)] by blast
  then show ?case using 2(1) [of "(m', q')" "ds @ [u]"] 2(3-6) by simp
qed auto

section \<open>Cycles\<close>

definition dependency :: "WorkItemEdge list \<Rightarrow> (rstr \<times> rstr) set" where
  "dependency es = (\<lambda>e. (predecessor_item_id e, successor_item_id e)) ` set es"

lemma topological_acyclic:
  assumes topo: "\<And>i e. i < length ds \<Longrightarrow> e \<in> set es \<Longrightarrow> successor_item_id e = ds ! i \<Longrightarrow>
      predecessor_item_id e \<in> set (take i ds)"
    and dist: "distinct ds" and all: "\<And>e. e \<in> set es \<Longrightarrow> successor_item_id e \<in> set ds"
  shows "acyclic (dependency es)"
proof -
  have before: "x \<in> set (take i ds)" if "(x, y) \<in> (dependency es)\<^sup>+" "y = ds ! i" "i < length ds" for x y i
    using that
  proof (induction arbitrary: i rule: trancl_induct)
    case (base y)
    then show ?case using topo by (auto simp: dependency_def)
  next
    case (step y z)
    then have "y \<in> set (take i ds)" using topo by (auto simp: dependency_def)
    then obtain j where j: "j < i" "y = ds ! j" by (auto simp: in_set_conv_nth)
    then have "x \<in> set (take j ds)" using step by simp
    then show ?case using j(1) set_take_subset_set_take [of j i ds] by auto
  qed
  have "(x, x) \<notin> (dependency es)\<^sup>+" for x
  proof
    assume cycle: "(x, x) \<in> (dependency es)\<^sup>+"
    then obtain y where "(y, x) \<in> dependency es" by (auto elim: tranclE)
    then have "x \<in> set ds" using all by (auto simp: dependency_def)
    then obtain i where i: "i < length ds" "x = ds ! i" by (auto simp: in_set_conv_nth)
    then show False using before [OF cycle i(2,1)] dist by (auto simp: in_set_conv_nth nth_eq_iff_index_eq)
  qed
  then show ?thesis by (simp add: acyclic_def)
qed

lemma frontier_complete_iff:
  assumes fr: "frontier ids es m [] ds" and ids: "distinct ids" and ok: "list_all (edge_ok ids) es"
  shows "length ds = length ids \<longleftrightarrow> acyclic (dependency es)"
proof
  assume "length ds = length ids"
  moreover have "distinct ds" "set ds \<subseteq> set ids" using fr by (simp_all add: frontier_def)
  ultimately have full: "set ds = set ids"
    using ids by (metis card_subset_eq distinct_card finite_set)
  show "acyclic (dependency es)"
    by (rule topological_acyclic [of ds])
      (use fr ok full in \<open>auto simp: frontier_def list_all_iff edge_ok_def\<close>)
next
  assume acyclic: "acyclic (dependency es)"
  have "finite (dependency es)" by (simp add: dependency_def)
  then have wf: "wf (dependency es)" using acyclic by (rule finite_acyclic_wf)
  have "set ids \<subseteq> set ds"
  proof (rule ccontr)
    assume "\<not> set ids \<subseteq> set ds"
    then obtain x where "x \<in> set ids - set ds" by blast
    then obtain v where v: "v \<in> set ids - set ds" "\<And>u. (u, v) \<in> dependency es \<Longrightarrow> u \<notin> set ids - set ds"
      using wfE_min [OF wf] by metis
    have "edges_into es (set ds) v = 0"
      using v(2) ok by (auto simp: edges_into_0 dependency_def list_all_iff edge_ok_def)
    then show False using fr v(1) by (auto simp: frontier_def)
  qed
  then show "length ds = length ids"
    using fr ids by (metis append_Nil2 distinct_card frontier_def subset_antisym)
qed

section \<open>Admission\<close>

lemma frontier_start:
  assumes "distinct ids" and "bt_keys m = ids" and "\<And>v. v \<in> set ids \<Longrightarrow> bt_get m v = Some (edges_into es {} v)"
  shows "frontier ids es m (map fst (filter (\<lambda>(_, degree). degree = 0) m)) []"
proof -
  have entries: "m = map (\<lambda>v. (v, edges_into es {} v)) ids"
    using bt_entries [of m] assms by (simp cong: map_cong)
  have "map fst (filter (\<lambda>(_, degree). degree = 0) m) = filter (\<lambda>v. edges_into es {} v = 0) ids"
    by (subst entries) (simp add: filter_map comp_def)
  then show ?thesis using assms by (auto simp: frontier_def)
qed

lemma check_order_run:
  assumes ids: "distinct ids" and es: "distinct es"
  shows "(check_order ids es = Inr () \<longleftrightarrow> list_all (edge_ok ids) es \<and> acyclic (dependency es)) \<and>
    check_order ids es \<noteq> Inl GraphPanic"
proof -
  let ?m = "map (\<lambda>i. (i, 0 :: nat)) ids"
  have keys: "bt_keys ?m = ids" by (simp add: bt_keys_def comp_def)
  note run = add_edges_run [OF keys, of es "[]"]
  show ?thesis
  proof (cases "list_all (edge_ok ids) es")
    case True
    then obtain m succ where add: "add_edges ids es (?m, []) = Inr (m, succ)" and m: "bt_keys m = ids"
        and deg: "\<And>v. bt_get m v = map_option (\<lambda>d. d + edges_into es {} v) (bt_get ?m v)"
        and lists: "\<And>u. successors_of succ u = successors_of [] u @ edges_from es u"
      using run by auto
    have zero: "bt_get ?m v = Some 0" if "v \<in> set ids" for v
      using that by (induction ids) (auto simp: bt_get_def)
    have start: "frontier ids es m (map fst (filter (\<lambda>(_, degree). degree = 0) m)) []"
      by (rule frontier_start [OF ids m]) (simp add: deg zero)
    have lists: "successors_of succ u = edges_from es u" for u using lists by (simp add: successors_of_def)
    obtain m' ds where ds:
        "visit_ready succ m (map fst (filter (\<lambda>(_, degree). degree = 0) m)) 0 = Inr (length ds)"
        "frontier ids es m' [] ds"
      using visit_run [OF start es True lists] by auto
    then show ?thesis
      using True add frontier_complete_iff [OF ds(2) ids True] by (simp add: check_order_def try_bind_def Let_def)
  next
    case False
    then show ?thesis using run by (auto simp: check_order_def try_bind_def)
  qed
qed

lemma find_neighbours_distinct:
  assumes "sorted (map key xs)" and "\<And>a b. same a b \<longleftrightarrow> key a = key b"
  shows "find_neighbours same xs = None \<longleftrightarrow> distinct (map key xs)"
  using assms
proof (induction same xs rule: find_neighbours.induct)
  case (1 same x y xs)
  have "key y \<le> key z" if "z \<in> set xs" for z using 1(2) that by simp
  then have tail: "key x < key y \<Longrightarrow> key x \<notin> key ` set xs" by (auto simp: not_le [symmetric])
  have "key x \<le> key y" using 1(2) by simp
  then show ?case using 1 tail by (cases "key x = key y") auto
qed simp_all

lemma collect_refs_iff: "collect_refs items = Inr refs \<longleftrightarrow> list_all2 (\<lambda>c r. revision_ref c = Inr r) items refs"
proof (induction items arbitrary: refs)
  case (Cons c items)
  then show ?case
    by (cases "revision_ref c"; cases "collect_refs items") (auto simp: try_bind_def list_all2_Cons1)
qed auto

lemma revision_ref_no_panic: "revision_ref c \<noteq> Inl GraphPanic"
  by (cases c) (simp_all add: result_ref_def ok_or_def try_bind_def split: option.splits)

lemma collect_refs_no_panic: "collect_refs items \<noteq> Inl GraphPanic"
proof (induction items)
  case (Cons c items)
  then show ?case
    using revision_ref_no_panic [of c] by (cases "revision_ref c"; cases "collect_refs items") (auto simp: try_bind_def)
qed simp

lemma sorted_ref_ids: "sorted (map ref_item_id (sort refs))"
proof (rule sorted_wrt_mono_rel [of _ "(\<le>)", THEN sorted_map [THEN iffD2]])
  show "sorted (sort refs)" by simp
qed (auto simp: less_eq_WorkItemRevisionRef_def)

lemma edge_ok_acyclic:
  "acyclic (dependency es) \<Longrightarrow> list_all (edge_ok ids) es \<longleftrightarrow>
     list_all (\<lambda>e. predecessor_item_id e \<in> set ids \<and> successor_item_id e \<in> set ids) es"
  by (force simp: list_all_iff edge_ok_def dependency_def acyclic_def)

lemma dependency_sort [simp]: "dependency (sort es) = dependency es"
  by (simp add: dependency_def)

lemma list_all_sort [simp]: "list_all P (sort xs) = list_all P xs"
  by (simp add: list_all_iff)

lemma distinct_ref_ids: "distinct (map ref_item_id (sort refs)) \<longleftrightarrow> distinct (map ref_item_id refs)"
  by (metis mset_eq_imp_distinct_iff mset_map mset_sort)

lemma refs_run:
  assumes "length items \<le> WORK_GRAPH_MAX_ITEMS" and "length edges \<le> WORK_GRAPH_MAX_EDGES"
    and "collect_refs items = Inr refs"
  shows "(validate_and_canonicalize_graph items edges = Inr g \<longleftrightarrow>
      distinct (map ref_item_id refs) \<and> distinct edges \<and>
      list_all (\<lambda>e. predecessor_item_id e \<in> ref_item_id ` set refs \<and> successor_item_id e \<in> ref_item_id ` set refs) edges \<and>
      acyclic (dependency edges) \<and> g = \<lparr>item_refs = sort refs, graph_edges = sort edges\<rparr>) \<and>
    validate_and_canonicalize_graph items edges \<noteq> Inl GraphPanic"
proof -
  let ?ids = "map ref_item_id (sort refs)"
  have dup: "find_neighbours (\<lambda>a b. ref_item_id a = ref_item_id b) (sort refs) = None \<longleftrightarrow> distinct (map ref_item_id refs)"
    using find_neighbours_distinct [OF sorted_ref_ids, of "\<lambda>a b. ref_item_id a = ref_item_id b" refs]
    by (simp add: distinct_ref_ids)
  have dup_edges: "find_neighbours (=) (sort edges) = None \<longleftrightarrow> distinct edges"
    using find_neighbours_distinct [of id "sort edges" "(=)"] by simp
  show ?thesis
  proof (cases "distinct (map ref_item_id refs) \<and> distinct edges")
    case True
    then have "distinct ?ids" "distinct (sort edges)" by (simp_all add: distinct_ref_ids)
    note order = check_order_run [OF this]
    have "remdups_adj ?ids = ?ids" using \<open>distinct ?ids\<close> by (rule remdups_adj_distinct)
    then have run: "validate_and_canonicalize_graph items edges =
        try_bind (check_order ?ids (sort edges)) (\<lambda>_. Inr \<lparr>item_refs = sort refs, graph_edges = sort edges\<rparr>)"
      using assms True dup dup_edges by (simp add: validate_and_canonicalize_graph_def try_bind_def Let_def)
    have known: "check_order ?ids (sort edges) = Inr () \<longleftrightarrow>
        list_all (\<lambda>e. predecessor_item_id e \<in> ref_item_id ` set refs \<and> successor_item_id e \<in> ref_item_id ` set refs) edges \<and>
        acyclic (dependency edges)"
      using order edge_ok_acyclic [of edges ?ids] by (simp only: list_all_sort dependency_sort set_map set_sort) blast
    show ?thesis
    proof (cases "check_order ?ids (sort edges)")
      case (Inl x)
      then have "x \<noteq> GraphPanic" using order by simp
      then show ?thesis unfolding run using Inl known by (simp add: try_bind_def) blast
    next
      case (Inr u)
      then have "check_order ?ids (sort edges) = Inr ()" by simp
      with known have "list_all (\<lambda>e. predecessor_item_id e \<in> ref_item_id ` set refs \<and> successor_item_id e \<in> ref_item_id ` set refs) edges"
        "acyclic (dependency edges)" by blast+
      then show ?thesis unfolding run using Inr True by (auto simp: try_bind_def)
    qed
  next
    case False
    then have "\<exists>x. validate_and_canonicalize_graph items edges = Inl x \<and> x \<noteq> GraphPanic"
      using assms dup dup_edges
      by (cases "find_neighbours (\<lambda>a b. ref_item_id a = ref_item_id b) (sort refs)")
        (simp_all add: validate_and_canonicalize_graph_def try_bind_def Let_def)
    then show ?thesis using False by auto
  qed
qed


text \<open>
  C7. A Work graph is admitted exactly when it has at most 256 items and 1024 edges, every
  item has an allocated revision, no item and no edge is repeated, every edge joins two
  items of the graph, and the dependencies have no cycle; the admitted graph is the sorted
  items and the sorted edges. The removal loop always ends without a panic.
\<close>

theorem graph_admitted_iff:
  "(validate_and_canonicalize_graph items edges = Inr g \<longleftrightarrow>
     length items \<le> 256 \<and> length edges \<le> 1024 \<and>
     (\<exists>refs. list_all2 (\<lambda>c r. revision_ref c = Inr r) items refs \<and>
       distinct (map ref_item_id refs) \<and> distinct edges \<and>
       list_all (\<lambda>e. predecessor_item_id e \<in> ref_item_id ` set refs \<and>
                     successor_item_id e \<in> ref_item_id ` set refs) edges \<and>
       acyclic (dependency edges) \<and>
       g = \<lparr>item_refs = sort refs, graph_edges = sort edges\<rparr>)) \<and>
   validate_and_canonicalize_graph items edges \<noteq> Inl GraphPanic"
proof (cases "length items \<le> 256 \<and> length edges \<le> 1024")
  case True
  then have limits: "length items \<le> WORK_GRAPH_MAX_ITEMS" "length edges \<le> WORK_GRAPH_MAX_EDGES"
    by (simp_all add: WORK_GRAPH_MAX_ITEMS_def WORK_GRAPH_MAX_EDGES_def)
  show ?thesis
  proof (cases "collect_refs items")
    case (Inl x)
    have "validate_and_canonicalize_graph items edges = Inl x"
      using Inl limits by (simp add: validate_and_canonicalize_graph_def try_bind_def)
    moreover have "x \<noteq> GraphPanic" using Inl collect_refs_no_panic by metis
    moreover have "\<not> list_all2 (\<lambda>c r. revision_ref c = Inr r) items refs" for refs
      using Inl collect_refs_iff [of items refs] by simp
    ultimately show ?thesis by simp
  next
    case (Inr refs)
    have "list_all2 (\<lambda>c r. revision_ref c = Inr r) items refs' \<longleftrightarrow> refs' = refs" for refs'
      using collect_refs_iff [of items refs'] Inr by auto
    then show ?thesis using refs_run [OF limits Inr, of g] True by simp
  qed
next
  case False
  then obtain x where "validate_and_canonicalize_graph items edges = Inl x" "x \<noteq> GraphPanic"
    by (cases "length items \<le> 256")
      (simp_all add: validate_and_canonicalize_graph_def WORK_GRAPH_MAX_ITEMS_def WORK_GRAPH_MAX_EDGES_def)
  then have "validate_and_canonicalize_graph items edges \<noteq> Inr g"
    "validate_and_canonicalize_graph items edges \<noteq> Inl GraphPanic" by simp_all
  then show ?thesis using False by blast
qed

section \<open>Order of the request\<close>




section \<open>Concrete applications\<close>



end
