(* ===== verification/Rust_Text.thy ===== *)
theory Rust_Text
  imports Astra_Prelude
begin

text \<open>
  The text functions of the Rust standard library the permission code calls, on the UTF-8
  bytes of a string, with the facts the parsers and printers below rely on. A byte search for an
  ASCII character is a character search, because no byte of a longer encoding is ASCII.
  \<^verbatim>\<open>to_lowercase\<close> is written out for ASCII text; for other text it follows the Unicode tables,
  which are a parameter.
\<close>

section \<open>Characters and case\<close>

type_synonym uchar = rstr

definition is_ascii :: "char \<Rightarrow> bool" where
  "is_ascii c = ((of_char c :: nat) < 128)"

definition ascii_lower :: "char \<Rightarrow> char" where
  "ascii_lower c =
     (if 65 \<le> (of_char c :: nat) \<and> (of_char c :: nat) \<le> 90 then char_of ((of_char c :: nat) + 32) else c)"

definition to_ascii_lowercase :: "rstr \<Rightarrow> rstr" where
  "to_ascii_lowercase s = map ascii_lower s"

definition eq_ignore_ascii_case :: "rstr \<Rightarrow> rstr \<Rightarrow> bool" where
  "eq_ignore_ascii_case s t = (to_ascii_lowercase s = to_ascii_lowercase t)"

definition to_lowercase :: "(rstr \<Rightarrow> rstr) \<Rightarrow> rstr \<Rightarrow> rstr" where
  "to_lowercase unicode_lower s =
     (if list_all is_ascii s then to_ascii_lowercase s else unicode_lower s)"

lemma not_cont_ascii: "is_ascii c \<Longrightarrow> \<not> is_cont_byte c"
  by (simp add: is_ascii_def is_cont_byte_def)

lemma ascii_lower_idem [simp]: "ascii_lower (ascii_lower c) = ascii_lower c"
proof -
  have "(of_char (char_of (n + 32) :: char) :: nat) = n + 32" if "n \<le> 90" for n :: nat
    using that by simp
  then show ?thesis by (auto simp: ascii_lower_def)
qed

lemma to_ascii_lowercase_idem [simp]:
  "to_ascii_lowercase (to_ascii_lowercase s) = to_ascii_lowercase s"
  by (simp add: to_ascii_lowercase_def)

lemma to_ascii_lowercase_append [simp]:
  "to_ascii_lowercase (s @ t) = to_ascii_lowercase s @ to_ascii_lowercase t"
  by (simp add: to_ascii_lowercase_def)

lemma length_to_ascii_lowercase [simp]: "length (to_ascii_lowercase s) = length s"
  by (simp add: to_ascii_lowercase_def)

lemma is_ascii_lower: "is_ascii c \<Longrightarrow> is_ascii (ascii_lower c)"
  by (auto simp: is_ascii_def ascii_lower_def)

lemma to_lowercase_ascii: "list_all is_ascii s \<Longrightarrow> to_lowercase u s = to_ascii_lowercase s"
  by (simp add: to_lowercase_def)

lemma utf8_chars_ascii: "list_all is_ascii s \<Longrightarrow> utf8_chars s = map (\<lambda>c. [c]) s"
proof (induction s)
  case (Cons b s)
  then have "takeWhile is_cont_byte s = [] \<and> dropWhile is_cont_byte s = s"
    by (cases s) (simp_all add: not_cont_ascii)
  with Cons show ?case by simp
qed simp

text \<open>Text that does not start inside a character splits on its own.\<close>

lemma utf8_chars_append:
  "t = [] \<or> \<not> is_cont_byte (hd t) \<Longrightarrow> utf8_chars (s @ t) = utf8_chars s @ utf8_chars t"
proof (induction s rule: utf8_chars.induct)
  case (2 b bs)
  show ?case
  proof (cases "dropWhile is_cont_byte bs")
    case Nil
    then have "\<forall>x \<in> set bs. is_cont_byte x" by (simp add: dropWhile_eq_Nil_conv)
    moreover have "takeWhile is_cont_byte t = []" "dropWhile is_cont_byte t = t"
      using "2.prems" by (cases t; simp)+
    ultimately show ?thesis
      by (simp add: takeWhile_append dropWhile_append Nil) (metis takeWhile_eq_all_conv)
  next
    case (Cons c cs)
    then have "\<exists>x \<in> set bs. \<not> is_cont_byte x"
      by (metis dropWhile_eq_Nil_conv list.distinct(1))
    with 2 Cons show ?thesis by (auto simp: takeWhile_append dropWhile_append)
  qed
qed simp

section \<open>Searching\<close>

definition starts_with :: "rstr \<Rightarrow> rstr \<Rightarrow> bool" where
  "starts_with s p = (take (length p) s = p)"

definition ends_with :: "rstr \<Rightarrow> rstr \<Rightarrow> bool" where
  "ends_with s p = (length p \<le> length s \<and> drop (length s - length p) s = p)"

definition strip_suffix :: "rstr \<Rightarrow> rstr \<Rightarrow> rstr option" where
  "strip_suffix p s = (if ends_with s p then Some (take (length s - length p) s) else None)"

fun contains :: "rstr \<Rightarrow> rstr \<Rightarrow> bool" where
  "contains [] p = (p = [])"
| "contains (c # s) p = (starts_with (c # s) p \<or> contains s p)"

fun find_byte :: "char \<Rightarrow> rstr \<Rightarrow> nat option" where
  "find_byte c [] = None"
| "find_byte c (b # s) = (if b = c then Some 0 else map_option Suc (find_byte c s))"

definition rfind_byte :: "char \<Rightarrow> rstr \<Rightarrow> nat option" where
  "rfind_byte c s = map_option (\<lambda>k. length s - 1 - k) (find_byte c (rev s))"

lemma starts_with_iff: "starts_with s p \<longleftrightarrow> (\<exists>t. s = p @ t)"
  unfolding starts_with_def by (metis append_eq_conv_conj append_take_drop_id)

lemma ends_with_iff: "ends_with s p \<longleftrightarrow> (\<exists>t. s = t @ p)"
  unfolding ends_with_def
  by (metis append_eq_conv_conj append_take_drop_id diff_add_inverse2 le_add2 length_append)

lemma strip_suffix_iff: "strip_suffix p s = Some t \<longleftrightarrow> s = t @ p"
  unfolding strip_suffix_def ends_with_iff by auto

lemma strip_prefix_iff: "strip_prefix p s = Some t \<longleftrightarrow> s = p @ t"
  unfolding strip_prefix_def by (simp, metis append_eq_conv_conj append_take_drop_id)

lemma contains_iff: "contains s p \<longleftrightarrow> (\<exists>x y. s = x @ p @ y)"
proof (induction s)
  case (Cons c s)
  show ?case
  proof
    assume "contains (c # s) p"
    then show "\<exists>x y. c # s = x @ p @ y"
      using Cons starts_with_iff [of "c # s" p] by (metis append_Cons append_Nil contains.simps(2))
  next
    assume "\<exists>x y. c # s = x @ p @ y"
    then obtain x y where xy: "c # s = x @ p @ y" by blast
    show "contains (c # s) p"
    proof (cases x)
      case Nil
      then have "starts_with (c # s) p" unfolding starts_with_iff using xy by auto
      then show ?thesis by simp
    next
      case (Cons d x')
      then have "s = x' @ p @ y" using xy by simp
      then show ?thesis using Cons.IH by auto
    qed
  qed
qed auto

lemma find_byte_append:
  "c \<notin> set x \<Longrightarrow> find_byte c (x @ c # y) = Some (length x)"
  by (induction x) auto

lemma find_byte_None_iff: "find_byte c s = None \<longleftrightarrow> c \<notin> set s"
  by (induction s) auto

lemma find_byte_Some: "find_byte c s = Some k \<Longrightarrow> k < length s \<and> s ! k = c \<and> c \<notin> set (take k s)"
  by (induction s arbitrary: k) (auto split: if_splits)

lemma rfind_byte_append:
  "c \<notin> set y \<Longrightarrow> rfind_byte c (x @ c # y) = Some (length x)"
  using find_byte_append [of c "rev y" "rev x"] by (simp add: rfind_byte_def)

section \<open>Trimming and splitting\<close>

definition trim_start :: "rstr \<Rightarrow> rstr" where
  "trim_start s = concat (dropWhile is_whitespace (utf8_chars s))"

fun split_whitespace_loop :: "rstr \<Rightarrow> uchar list \<Rightarrow> rstr list" where
  "split_whitespace_loop cur [] = (if cur = [] then [] else [cur])"
| "split_whitespace_loop cur (c # cs) =
     (if is_whitespace c then
        (if cur = [] then split_whitespace_loop [] cs else cur # split_whitespace_loop [] cs)
      else split_whitespace_loop (cur @ c) cs)"

definition split_whitespace :: "rstr \<Rightarrow> rstr list" where
  "split_whitespace s = split_whitespace_loop [] (utf8_chars s)"

fun split_byte_loop :: "char \<Rightarrow> rstr \<Rightarrow> rstr \<Rightarrow> rstr list" where
  "split_byte_loop c cur [] = [cur]"
| "split_byte_loop c cur (b # s) =
     (if b = c then cur # split_byte_loop c [] s else split_byte_loop c (cur @ [b]) s)"

definition split_byte :: "char \<Rightarrow> rstr \<Rightarrow> rstr list" where
  "split_byte c s = split_byte_loop c [] s"

fun join_with :: "rstr \<Rightarrow> rstr list \<Rightarrow> rstr" where
  "join_with sep [] = []"
| "join_with sep [a] = a"
| "join_with sep (a # b # as) = a @ sep @ join_with sep (b # as)"

lemma trim_fixed:
  assumes "utf8_chars s = a # m" and "\<not> is_whitespace a" and "\<not> is_whitespace (last (a # m))"
  shows "trim s = s"
proof -
  have "dropWhile is_whitespace (rev (a # m)) = rev (a # m)"
    using assms(2,3) by (cases m rule: rev_cases) simp_all
  then have "trim s = concat (a # m)" using assms(1,2) by (simp add: trim_def)
  then show ?thesis using concat_utf8_chars [of s] assms(1) by simp
qed

lemma trim_head:
  assumes "trim s = s" and "s \<noteq> []"
  shows "\<not> is_whitespace (hd (utf8_chars s))"
proof -
  let ?cs = "utf8_chars s"
  have "?cs = rev (dropWhile is_whitespace (rev (dropWhile is_whitespace ?cs)))"
    using utf8_chars_trim [of s] assms(1) by simp
  then have eq: "dropWhile is_whitespace ?cs = ?cs"
    using dropWhile_rev_dropWhile_idem [of is_whitespace ?cs] by metis
  moreover have "?cs \<noteq> []" using assms(2) by (cases s) simp_all
  ultimately show ?thesis using hd_dropWhile [of is_whitespace ?cs] by simp
qed

lemma trim_decomp:
  "\<exists>a b. s = concat a @ trim s @ concat b \<and> list_all is_whitespace a \<and> list_all is_whitespace b"
proof (intro exI conjI)
  let ?cs = "utf8_chars s"
  let ?a = "takeWhile is_whitespace ?cs" and ?m = "dropWhile is_whitespace ?cs"
  let ?b = "rev (takeWhile is_whitespace (rev ?m))"
  have "?m = rev (dropWhile is_whitespace (rev ?m)) @ ?b"
    by (metis rev_append rev_rev_ident takeWhile_dropWhile_id)
  then have "concat ?m = trim s @ concat ?b"
    unfolding trim_def by (metis concat_append)
  moreover have "s = concat ?a @ concat ?m"
    by (metis concat_append concat_utf8_chars takeWhile_dropWhile_id)
  ultimately show "s = concat ?a @ trim s @ concat ?b" by simp
  show "list_all is_whitespace ?a" "list_all is_whitespace ?b"
    by (auto simp: list_all_iff dest: set_takeWhileD)
qed

text \<open>Text that starts like trimmed text and ends with a visible ASCII character is trimmed.\<close>

lemma trim_closed:
  assumes "trim t = t" and "t \<noteq> []" and "x = [] \<or> \<not> is_cont_byte (hd x)"
    and "is_ascii c" and "\<not> is_whitespace [c]"
  shows "trim (t @ x @ [c]) = t @ x @ [c]"
proof -
  have c: "utf8_chars [c] = [[c]]" by simp
  have "utf8_chars ((t @ x) @ [c]) = utf8_chars (t @ x) @ [[c]]"
    using assms(4) by (subst utf8_chars_append) (simp_all add: not_cont_ascii)
  moreover have "utf8_chars (t @ x) = utf8_chars t @ utf8_chars x"
    using assms(3) by (rule utf8_chars_append)
  moreover obtain a m where "utf8_chars t = a # m" "\<not> is_whitespace a"
    using trim_head [OF assms(1,2)] assms(2) by (cases t) simp_all
  ultimately show ?thesis using assms(5)
    by (intro trim_fixed [of _ a "m @ utf8_chars x @ [[c]]"]) simp_all
qed

lemma split_byte_loop_not_Nil [simp]: "split_byte_loop c cur s \<noteq> []"
  by (induction c cur s rule: split_byte_loop.induct) simp_all

lemma join_with_Cons: "as \<noteq> [] \<Longrightarrow> join_with sep (a # as) = a @ sep @ join_with sep as"
  by (cases as) simp_all

lemma split_byte_loop_join: "join_with [c] (split_byte_loop c cur s) = cur @ s"
  by (induction c cur s rule: split_byte_loop.induct) (simp_all add: join_with_Cons)

lemma split_byte_join: "join_with [c] (split_byte c s) = s"
  by (simp add: split_byte_def split_byte_loop_join)

end
