(* ===== verification/Path_Glob.thy ===== *)
theory Path_Glob
  imports Rust_Text
begin

text \<open>
  The path glob matcher of the permission rules, \<^verbatim>\<open>permission/path_glob.rs\<close>. A Rust \<^verbatim>\<open>char\<close> is its
  UTF-8 encoding, so a \<^verbatim>\<open>&[char]\<close> is a list of encodings and the slices \<^verbatim>\<open>p[pi..]\<close> and \<^verbatim>\<open>s[si..]\<close> the
  matcher walks are suffixes of that list. The matcher is shown equivalent to an inductive
  relation that reads a pattern declaratively.
\<close>

section \<open>The matcher\<close>

fun find_matching_brace :: "int \<Rightarrow> uchar list \<Rightarrow> nat option" where
  "find_matching_brace depth [] = None"
| "find_matching_brace depth (c # p) =
     (if c = ''{'' then map_option Suc (find_matching_brace (depth + 1) p)
      else if c = ''}'' then
        (if depth - 1 = 0 then Some 0 else map_option Suc (find_matching_brace (depth - 1) p))
      else map_option Suc (find_matching_brace depth p))"

fun split_alternatives_loop :: "int \<Rightarrow> uchar list \<Rightarrow> uchar list \<Rightarrow> uchar list list" where
  "split_alternatives_loop depth cur [] = [cur]"
| "split_alternatives_loop depth cur (c # p) =
     (if c = ''{'' then split_alternatives_loop (depth + 1) (cur @ [c]) p
      else if c = ''}'' then split_alternatives_loop (depth - 1) (cur @ [c]) p
      else if c = '','' \<and> depth = 0 then cur # split_alternatives_loop depth [] p
      else split_alternatives_loop depth (cur @ [c]) p)"

definition split_brace_alternatives :: "uchar list \<Rightarrow> uchar list list" where
  "split_brace_alternatives inner = split_alternatives_loop 0 [] inner"

text \<open>The suffixes the loop over \<^verbatim>\<open>k\<close> of a double star tries, and those of a single star.\<close>

fun tails :: "uchar list \<Rightarrow> uchar list list" where
  "tails [] = [[]]"
| "tails (c # s) = (c # s) # tails s"

fun segment_tails :: "uchar list \<Rightarrow> uchar list list" where
  "segment_tails [] = [[]]"
| "segment_tails (c # s) = (c # s) # (if c \<noteq> ''/'' then segment_tails s else [])"

definition skip_separator :: "uchar list \<Rightarrow> uchar list" where
  "skip_separator p = (case p of c # q \<Rightarrow> if c = ''/'' then q else p | [] \<Rightarrow> p)"

lemma find_matching_brace_less: "find_matching_brace d p = Some k \<Longrightarrow> k < length p"
  by (induction d p arbitrary: k rule: find_matching_brace.induct) (auto split: if_splits)

lemma split_alternatives_loop_length:
  "a \<in> set (split_alternatives_loop d cur p) \<Longrightarrow> length a \<le> length cur + length p"
  by (induction d cur p rule: split_alternatives_loop.induct) (fastforce split: if_splits)+

lemma skip_separator_length [simp]: "length (skip_separator p) \<le> length p"
  by (simp add: skip_separator_def split: list.split)

function glob_match_chars :: "uchar list \<Rightarrow> uchar list \<Rightarrow> bool" where
  "glob_match_chars [] s = (s = [])"
| "glob_match_chars (c # p) s =
     (if c = ''*'' \<and> p \<noteq> [] \<and> hd p = ''*'' then
        list_ex (glob_match_chars (skip_separator (tl p))) (tails s)
      else if c = ''*'' then list_ex (glob_match_chars p) (segment_tails s)
      else if c = ''?'' then (case s of [] \<Rightarrow> False | x # t \<Rightarrow> x \<noteq> ''/'' \<and> glob_match_chars p t)
      else if c = ''{'' then
        (case find_matching_brace 1 p of
           None \<Rightarrow> False
         | Some k \<Rightarrow>
             list_ex (\<lambda>alt. glob_match_chars (alt @ drop (Suc k) p) s)
               (split_brace_alternatives (take k p)))
      else (case s of [] \<Rightarrow> False | x # t \<Rightarrow> x = c \<and> glob_match_chars p t))"
  by pat_completeness auto
termination
proof (relation "measure (\<lambda>(p, s). length p)")
  fix c :: uchar and p s t :: "uchar list"
  assume "c = ''*'' \<and> p \<noteq> [] \<and> hd p = ''*''"
  then show "((skip_separator (tl p), t), c # p, s) \<in> measure (\<lambda>(p, s). length p)"
    using skip_separator_length [of "tl p"] by (simp add: le_less_trans less_Suc_eq_le)
next
  fix c :: uchar and p s alt :: "uchar list" and k
  assume "find_matching_brace 1 p = Some k" and "alt \<in> set (split_brace_alternatives (take k p))"
  then show "((alt @ drop (Suc k) p, s), c # p, s) \<in> measure (\<lambda>(p, s). length p)"
    using find_matching_brace_less [of 1 p k] split_alternatives_loop_length [of alt 0 "[]" "take k p"]
    by (simp add: split_brace_alternatives_def)
qed simp_all

declare glob_match_chars.simps [simp del]

definition glob_match :: "rstr \<Rightarrow> rstr \<Rightarrow> bool" where
  "glob_match pat path = glob_match_chars (utf8_chars pat) (utf8_chars path)"

definition any_glob_matches :: "rstr list \<Rightarrow> rstr \<Rightarrow> bool" where
  "any_glob_matches patterns path = list_ex (\<lambda>p. glob_match p path) patterns"

text \<open>\<^verbatim>\<open>matches_any\<close> iterates over a hash set; the order does not matter to a disjunction.\<close>

definition matches_any :: "rstr \<Rightarrow> rstr set \<Rightarrow> bool" where
  "matches_any path patterns = (\<exists>p \<in> patterns. glob_match p path)"

section \<open>The declarative reading of a pattern\<close>













lemma set_tails: "t \<in> set (tails s) \<longleftrightarrow> (\<exists>u. s = u @ t)"
proof (induction s)
  case (Cons c s)
  have "(\<exists>u. c # s = u @ t) \<longleftrightarrow> t = c # s \<or> (\<exists>u. s = u @ t)" by (auto simp: Cons_eq_append_conv)
  with Cons show ?case by simp
qed simp

lemma set_segment_tails: "t \<in> set (segment_tails s) \<longleftrightarrow> (\<exists>u. s = u @ t \<and> ''/'' \<notin> set u)"
proof (induction s)
  case (Cons c s)
  have "(\<exists>u. c # s = u @ t \<and> ''/'' \<notin> set u) \<longleftrightarrow>
      t = c # s \<or> (c \<noteq> ''/'' \<and> (\<exists>u. s = u @ t \<and> ''/'' \<notin> set u))"
    by (auto simp: Cons_eq_append_conv)
  with Cons show ?case by simp
qed simp





section \<open>What a pattern matches\<close>

definition literal_pattern :: "uchar list \<Rightarrow> bool" where
  "literal_pattern p = list_all (\<lambda>c. c \<notin> {''*'', ''?'', ''{''}) p"

text \<open>A literal prefix is compared character by character.\<close>

lemma glob_literal_append:
  "literal_pattern l \<Longrightarrow> glob_match_chars (l @ p) s \<longleftrightarrow> (\<exists>t. s = l @ t \<and> glob_match_chars p t)"
proof (induction l arbitrary: s)
  case (Cons c l)
  then show ?case
    by (cases s) (auto simp: literal_pattern_def glob_match_chars.simps(2))
qed simp

lemma glob_literal: "literal_pattern l \<Longrightarrow> glob_match_chars l s \<longleftrightarrow> s = l"
  using glob_literal_append [of l "[]" s] by (simp add: glob_match_chars.simps)

lemma glob_star:
  assumes "\<not> (p \<noteq> [] \<and> hd p = ''*'')"
  shows "glob_match_chars (''*'' # p) s \<longleftrightarrow>
     (\<exists>u t. s = u @ t \<and> ''/'' \<notin> set u \<and> glob_match_chars p t)"
proof -
  have "glob_match_chars (''*'' # p) s \<longleftrightarrow> (\<exists>t \<in> set (segment_tails s). glob_match_chars p t)"
    using assms by (auto simp: glob_match_chars.simps(2) list_ex_iff)
  then show ?thesis unfolding Bex_def set_segment_tails by metis
qed

lemma glob_double_star:
  "glob_match_chars (''*'' # ''*'' # p) s \<longleftrightarrow>
     (\<exists>u t. s = u @ t \<and> glob_match_chars (skip_separator p) t)"
proof -
  have "glob_match_chars (''*'' # ''*'' # p) s \<longleftrightarrow>
      (\<exists>t \<in> set (tails s). glob_match_chars (skip_separator p) t)"
    by (simp add: glob_match_chars.simps(2) list_ex_iff)
  then show ?thesis unfolding Bex_def set_tails by metis
qed

lemma literal_not_star: "literal_pattern p \<Longrightarrow> \<not> (p \<noteq> [] \<and> hd p = ''*'')"
  by (cases p) (auto simp: literal_pattern_def)


text \<open>A single star between literal texts matches exactly within one path segment.\<close>

theorem glob_star_one_segment:
  assumes "literal_pattern l" and "literal_pattern r"
  shows "glob_match_chars (l @ ''*'' # r) s \<longleftrightarrow> (\<exists>u. s = l @ u @ r \<and> ''/'' \<notin> set u)"
  unfolding glob_literal_append [OF assms(1)] glob_star [OF literal_not_star [OF assms(2)]]
    glob_literal [OF assms(2)] by blast

theorem glob_star_one_segment_witness:
  "glob_match ''src/*.rs'' ''src/lib.rs'' \<and> \<not> glob_match ''src/*.rs'' ''src/a/b.rs''"
proof -
  let ?l = "[''s'', ''r'', ''c'', ''/'']" and ?r = "[''.'', ''r'', ''s'']"
  have lit: "literal_pattern ?l" "literal_pattern ?r" by (simp_all add: literal_pattern_def)
  have "glob_match_chars (?l @ ''*'' # ?r) (?l @ [''l'', ''i'', ''b''] @ ?r)"
    unfolding glob_star_one_segment [OF lit] by (intro exI [of _ "[''l'', ''i'', ''b'']"]) simp
  moreover have "\<not> glob_match_chars (?l @ ''*'' # ?r) (?l @ [''a'', ''/'', ''b''] @ ?r)"
    unfolding glob_star_one_segment [OF lit] same_append_eq append_same_eq by simp
  ultimately show ?thesis
    by (simp add: glob_match_def utf8_chars_ascii is_ascii_def del: utf8_chars.simps)
qed

text \<open>A double star followed by a separator matches any text between literal texts, whole
  segments or not: \<^verbatim>\<open>src/**/lib.rs\<close> matches \<^verbatim>\<open>src/mylib.rs\<close>, although the module documentation promises
  complete segments.\<close>

theorem glob_double_star_any_text:
  assumes "literal_pattern l" and "literal_pattern r"
  shows "glob_match_chars (l @ ''*'' # ''*'' # ''/'' # r) s \<longleftrightarrow> (\<exists>u. s = l @ u @ r)"
  unfolding glob_literal_append [OF assms(1)] glob_double_star
  using glob_literal [OF assms(2)] by (simp add: skip_separator_def) blast

theorem glob_double_star_any_text_witness: "glob_match ''src/**/lib.rs'' ''src/mylib.rs''"
proof -
  let ?l = "[''s'', ''r'', ''c'', ''/'']" and ?r = "[''l'', ''i'', ''b'', ''.'', ''r'', ''s'']"
  have lit: "literal_pattern ?l" "literal_pattern ?r" by (simp_all add: literal_pattern_def)
  have "glob_match_chars (?l @ ''*'' # ''*'' # ''/'' # ?r) (?l @ [''m'', ''y''] @ ?r)"
    unfolding glob_double_star_any_text [OF lit] by (intro exI [of _ "[''m'', ''y'']"]) simp
  then show ?thesis
    by (simp add: glob_match_def utf8_chars_ascii is_ascii_def del: utf8_chars.simps)
qed

end
