(* ===== verification/Rule_Grammar.thy ===== *)
theory Rule_Grammar
  imports Rust_Text
begin

text \<open>
  The text form of permission rules, \<^verbatim>\<open>permission/rule_grammar.rs\<close>: a rule is written
  \<^verbatim>\<open>Tool(key="value", ...)\<close>. The theory has the parser with each of its errors, the printer with
  its escaping, and the round trip between them.
\<close>

section \<open>Rules and errors\<close>

record PermissionRuleSpec =
  rs_tool :: rstr
  rs_argv_exact :: "rstr option"
  rs_argv_prefix :: "rstr option"
  rs_path_glob :: "rstr option"
  rs_path_prefix :: "rstr option"
  rs_op :: "rstr option"
  rs_cwd_root :: "rstr option"
  rs_git_branch :: "rstr option"
  rs_domain :: "rstr option"
  rs_capability :: "rstr option"
  rs_extra :: "(rstr, rstr) btree"

definition empty_rule_spec :: "rstr \<Rightarrow> PermissionRuleSpec" where
  "empty_rule_spec t =
     \<lparr>rs_tool = t, rs_argv_exact = None, rs_argv_prefix = None, rs_path_glob = None,
      rs_path_prefix = None, rs_op = None, rs_cwd_root = None, rs_git_branch = None,
      rs_domain = None, rs_capability = None, rs_extra = []\<rparr>"

definition rule_spec_bash :: "rstr \<Rightarrow> PermissionRuleSpec" where
  "rule_spec_bash argv = (empty_rule_spec ''Bash'')\<lparr>rs_argv_prefix := Some argv\<rparr>"

definition rule_spec_file_write :: "rstr \<Rightarrow> rstr \<Rightarrow> PermissionRuleSpec" where
  "rule_spec_file_write glob op' =
     (empty_rule_spec ''file_write'')\<lparr>rs_path_glob := Some glob, rs_op := Some op'\<rparr>"

definition rule_spec_network :: "rstr \<Rightarrow> rstr \<Rightarrow> PermissionRuleSpec" where
  "rule_spec_network t dom' =
     (empty_rule_spec ''Network'')\<lparr>rs_domain := Some dom', rs_extra := bt_insert ''tool'' t []\<rparr>"

datatype RuleParseError =
    RuleEmpty
  | UnterminatedParen
  | MalformedField rstr
  | DuplicateKey rstr
  | UnknownField rstr rstr
  | MissingTool
  | MissingArgumentList rstr
  | UnsupportedToolFamily rstr
  | ConflictingFields rstr rstr

fun rule_parse_error_text :: "RuleParseError \<Rightarrow> rstr" where
  "rule_parse_error_text RuleEmpty = ''empty rule''"
| "rule_parse_error_text UnterminatedParen = ''missing `)` in rule''"
| "rule_parse_error_text (MalformedField raw) = ''malformed key=value field: '' @ raw"
| "rule_parse_error_text (DuplicateKey key) = ''duplicate key in rule: '' @ key"
| "rule_parse_error_text (UnknownField t key) = ''unknown key `'' @ key @ ''` for tool `'' @ t @ ''`''"
| "rule_parse_error_text MissingTool = ''rule has no tool name''"
| "rule_parse_error_text (MissingArgumentList raw) =
     ''permission rule must use Tool(key='' @ [CHR 0x22] @ ''value'' @ [CHR 0x22] @ '') or Tool() form: '' @ raw"
| "rule_parse_error_text (UnsupportedToolFamily t) =
     ''unsupported permission tool `'' @ t @ ''`; use file_write or a current exact tool rule''"
| "rule_parse_error_text (ConflictingFields a b) =
     ''`'' @ a @ ''` and `'' @ b @ ''` cannot be set together''"

section \<open>Quoting\<close>

definition escape_quotes :: "rstr \<Rightarrow> rstr" where
  "escape_quotes s =
     concat (map (\<lambda>c. if c = CHR 0x22 then [CHR 0x5C, CHR 0x22] else [c])
       (concat (map (\<lambda>c. if c = CHR 0x5C then [CHR 0x5C, CHR 0x5C] else [c]) s)))"

fun unescape_chars :: "uchar list \<Rightarrow> rstr" where
  "unescape_chars [] = []"
| "unescape_chars (c # cs) =
     (if c = [CHR 0x5C] then (case cs of [] \<Rightarrow> [] | n # cs' \<Rightarrow> n @ unescape_chars cs')
      else c @ unescape_chars cs)"

definition unescape_quotes :: "rstr \<Rightarrow> rstr" where
  "unescape_quotes s = unescape_chars (utf8_chars s)"

definition strip_optional_quotes :: "rstr \<Rightarrow> rstr option" where
  "strip_optional_quotes s =
     (if starts_with s [CHR 0x22] then
        (if \<not> ends_with s [CHR 0x22] \<or> length s < 2 then None
         else Some (unescape_quotes (take (length s - 2) (drop 1 s))))
      else Some s)"

fun split_commas_loop :: "bool \<Rightarrow> rstr \<Rightarrow> rstr \<Rightarrow> rstr list" where
  "split_commas_loop q cur [] = [cur]"
| "split_commas_loop q cur [b] =
     (if b = CHR 0x22 then [cur @ [b]]
      else if b = CHR '','' \<and> \<not> q then [cur, []] else [cur @ [b]])"
| "split_commas_loop q cur (b # c # rest) =
     (if b = CHR 0x5C then split_commas_loop q (cur @ [b, c]) rest
      else if b = CHR 0x22 then split_commas_loop (\<not> q) (cur @ [b]) (c # rest)
      else if b = CHR '','' \<and> \<not> q then cur # split_commas_loop q [] (c # rest)
      else split_commas_loop q (cur @ [b]) (c # rest))"

definition split_top_level_commas :: "rstr \<Rightarrow> rstr list" where
  "split_top_level_commas s = split_commas_loop False [] s"

section \<open>The parser\<close>

definition rule_key_set :: "PermissionRuleSpec \<Rightarrow> rstr \<Rightarrow> bool" where
  "rule_key_set rule key =
     (if key = ''argv_exact'' then rs_argv_exact rule \<noteq> None
      else if key = ''argv_prefix'' then rs_argv_prefix rule \<noteq> None
      else if key = ''path_glob'' then rs_path_glob rule \<noteq> None
      else if key = ''path_prefix'' then rs_path_prefix rule \<noteq> None
      else if key = ''op'' then rs_op rule \<noteq> None
      else if key = ''cwd_root'' then rs_cwd_root rule \<noteq> None
      else if key = ''git_branch'' then rs_git_branch rule \<noteq> None
      else if key = ''domain'' then rs_domain rule \<noteq> None
      else if key = ''capability'' then rs_capability rule \<noteq> None
      else bt_get (rs_extra rule) key \<noteq> None)"

definition is_tool_family :: "rstr \<Rightarrow> bool" where
  "is_tool_family t = (eq_ignore_ascii_case t ''network'' \<or> eq_ignore_ascii_case t ''mcp'')"

definition set_rule_key ::
  "PermissionRuleSpec \<Rightarrow> rstr \<Rightarrow> rstr \<Rightarrow> (RuleParseError, PermissionRuleSpec) result" where
  "set_rule_key rule key v =
     (if key = ''argv_exact'' then Inr (rule\<lparr>rs_argv_exact := Some v\<rparr>)
      else if key = ''argv_prefix'' then Inr (rule\<lparr>rs_argv_prefix := Some v\<rparr>)
      else if key = ''path_glob'' then Inr (rule\<lparr>rs_path_glob := Some v\<rparr>)
      else if key = ''path_prefix'' then Inr (rule\<lparr>rs_path_prefix := Some v\<rparr>)
      else if key = ''op'' then Inr (rule\<lparr>rs_op := Some v\<rparr>)
      else if key = ''cwd_root'' then Inr (rule\<lparr>rs_cwd_root := Some v\<rparr>)
      else if key = ''git_branch'' then Inr (rule\<lparr>rs_git_branch := Some v\<rparr>)
      else if key = ''domain'' then Inr (rule\<lparr>rs_domain := Some v\<rparr>)
      else if key = ''capability'' then Inr (rule\<lparr>rs_capability := Some v\<rparr>)
      else if key = ''tool'' \<and> is_tool_family (rs_tool rule) then
        Inr (rule\<lparr>rs_extra := bt_insert key v (rs_extra rule)\<rparr>)
      else Inl (UnknownField (rs_tool rule) key))"

text \<open>One round of the field loop, on the trimmed field.\<close>

definition parse_field ::
  "PermissionRuleSpec \<Rightarrow> rstr \<Rightarrow> (RuleParseError, PermissionRuleSpec) result" where
  "parse_field rule raw =
     (if raw = [] then Inr rule
      else
        (case find_byte (CHR ''='') raw of
           None \<Rightarrow> Inl (MalformedField raw)
         | Some eq \<Rightarrow>
             (let key = trim (take eq raw); raw_value = trim (drop (eq + 1) raw) in
              try_bind (ok_or (strip_optional_quotes raw_value) (MalformedField raw)) (\<lambda>v.
                if rule_key_set rule key then Inl (DuplicateKey key) else set_rule_key rule key v))))"

fun parse_fields ::
  "rstr list \<Rightarrow> PermissionRuleSpec \<Rightarrow> (RuleParseError, PermissionRuleSpec) result" where
  "parse_fields [] rule = Inr rule"
| "parse_fields (f # fs) rule = try_bind (parse_field rule (trim f)) (parse_fields fs)"

definition parse_rule :: "rstr \<Rightarrow> (RuleParseError, PermissionRuleSpec) result" where
  "parse_rule input =
     (let s = trim input in
      if s = [] then Inl RuleEmpty
      else
        (case find_byte (CHR ''('') s of
           None \<Rightarrow> Inl (MissingArgumentList s)
         | Some paren_start \<Rightarrow>
             (let t = trim (take paren_start s) in
              if t = [] then Inl MissingTool
              else if to_ascii_lowercase t = ''edit'' \<or> to_ascii_lowercase t = ''read'' then
                Inl (UnsupportedToolFamily t)
              else
                (case rfind_byte (CHR '')'') s of
                   None \<Rightarrow> Inl UnterminatedParen
                 | Some paren_end \<Rightarrow>
                     if paren_end \<le> paren_start then Inl UnterminatedParen
                     else if trim (drop (paren_end + 1) s) \<noteq> [] then
                       Inl (MalformedField (trim (drop (paren_end + 1) s)))
                     else
                       try_bind
                         (parse_fields
                           (split_top_level_commas
                             (trim (take (paren_end - paren_start - 1) (drop (paren_start + 1) s))))
                           (empty_rule_spec t))
                         (\<lambda>rule.
                           if rs_path_glob rule \<noteq> None \<and> rs_path_prefix rule \<noteq> None then
                             Inl (ConflictingFields ''path_glob'' ''path_prefix'')
                           else Inr rule)))))"

section \<open>The printer\<close>

definition opt_field :: "rstr \<Rightarrow> rstr option \<Rightarrow> (rstr \<times> rstr) list" where
  "opt_field k v = (case v of None \<Rightarrow> [] | Some x \<Rightarrow> [(k, x)])"

definition rule_fields :: "PermissionRuleSpec \<Rightarrow> (rstr \<times> rstr) list" where
  "rule_fields rule =
     opt_field ''argv_exact'' (rs_argv_exact rule) @ opt_field ''argv_prefix'' (rs_argv_prefix rule)
     @ opt_field ''path_glob'' (rs_path_glob rule) @ opt_field ''path_prefix'' (rs_path_prefix rule)
     @ opt_field ''op'' (rs_op rule) @ opt_field ''cwd_root'' (rs_cwd_root rule)
     @ opt_field ''git_branch'' (rs_git_branch rule) @ opt_field ''domain'' (rs_domain rule)
     @ opt_field ''capability'' (rs_capability rule) @ rs_extra rule"

definition render_field :: "rstr \<times> rstr \<Rightarrow> rstr" where
  "render_field kv = fst kv @ ''='' @ [CHR 0x22] @ escape_quotes (snd kv) @ [CHR 0x22]"

definition serialize_rule :: "PermissionRuleSpec \<Rightarrow> rstr" where
  "serialize_rule rule =
     (if rule_fields rule = [] then rs_tool rule @ ''()''
      else rs_tool rule @ ''('' @ join_with '', '' (map render_field (rule_fields rule)) @ '')'')"

section \<open>Escaping round trip\<close>

definition escape_byte :: "char \<Rightarrow> rstr" where
  "escape_byte c =
     (if c = CHR 0x5C then [CHR 0x5C, CHR 0x5C] else if c = CHR 0x22 then [CHR 0x5C, CHR 0x22] else [c])"

lemma escape_quotes_eq: "escape_quotes s = concat (map escape_byte s)"
  by (induction s) (simp_all add: escape_quotes_def escape_byte_def)

lemma escape_cont: "list_all is_cont_byte s \<Longrightarrow> escape_quotes s = s"
  unfolding escape_quotes_eq
  by (induction s) (auto simp: escape_byte_def is_cont_byte_def)

lemma escape_append [simp]: "escape_quotes (s @ t) = escape_quotes s @ escape_quotes t"
  by (simp add: escape_quotes_eq)

lemma escape_Nil [simp]: "escape_quotes [] = []"
  by (simp add: escape_quotes_eq)

lemma escape_starts:
  "s \<noteq> [] \<Longrightarrow> \<not> is_cont_byte (hd s) \<Longrightarrow> escape_quotes s \<noteq> [] \<and> \<not> is_cont_byte (hd (escape_quotes s))"
  by (cases s) (auto simp: escape_quotes_eq escape_byte_def is_cont_byte_def)

text \<open>Unescaping a quoted value returns the value.\<close>

lemma unescape_escape: "unescape_quotes (escape_quotes s) = s"
proof (induction s rule: utf8_chars.induct)
  case (2 b bs)
  let ?w = "takeWhile is_cont_byte bs" and ?r = "dropWhile is_cont_byte bs"
  have bs: "b # bs = [b] @ ?w @ ?r" by simp
  have w: "list_all is_cont_byte ?w" by (auto simp: list_all_iff dest: set_takeWhileD)
  have dw: "dropWhile is_cont_byte ?w = []"
    using w by (simp add: dropWhile_eq_Nil_conv list_all_iff)
  have bytes: "\<not> is_cont_byte (CHR 0x5C)" "\<not> is_cont_byte (CHR 0x22)" by (simp_all add: is_cont_byte_def)
  have r: "escape_quotes ?r = [] \<or> \<not> is_cont_byte (hd (escape_quotes ?r))"
    using escape_starts [of ?r] hd_dropWhile [of is_cont_byte bs] by (metis escape_Nil)
  have esc: "escape_quotes (b # bs) = (escape_byte b @ ?w) @ escape_quotes ?r"
    using escape_append [of "[b] @ ?w" ?r] escape_append [of "[b]" ?w] escape_cont [OF w]
    by (simp add: escape_quotes_eq)
  have "utf8_chars (escape_quotes (b # bs)) = utf8_chars (escape_byte b @ ?w) @ utf8_chars (escape_quotes ?r)"
    unfolding esc using r by (rule utf8_chars_append)
  moreover have "utf8_chars (escape_byte b @ ?w) =
      (if b = CHR 0x5C \<or> b = CHR 0x22 then [[CHR 0x5C], b # ?w] else [b # ?w])"
    by (auto simp: escape_byte_def bytes dw)
  ultimately have "unescape_quotes (escape_quotes (b # bs)) = b # ?w @ unescape_quotes (escape_quotes ?r)"
    by (auto simp: unescape_quotes_def)
  then show ?case using 2 by simp
qed (simp add: unescape_quotes_def)


section \<open>Printing and parsing\<close>

text \<open>The keys of the grammar: letters and underscores only.\<close>

definition key_text :: "rstr \<Rightarrow> bool" where
  "key_text k = (2 \<le> length k \<and> list_all (\<lambda>c. is_ascii_alphanumeric c \<or> c = CHR ''_'') k)"

lemma key_text_byte:
  "is_ascii_alphanumeric c \<or> c = CHR ''_'' \<Longrightarrow>
     is_ascii c \<and> \<not> is_whitespace [c] \<and> c \<notin> {CHR ''='', CHR 0x22, CHR 0x5C, CHR '','', CHR ''('', CHR '')''}"
  by (auto simp: is_ascii_alphanumeric_def is_ascii_digit_def is_ascii_def is_whitespace_def)

lemma key_text_bytes:
  assumes "key_text k"
  shows "list_all is_ascii k" "CHR ''='' \<notin> set k" "CHR 0x22 \<notin> set k" "CHR 0x5C \<notin> set k"
    "CHR '','' \<notin> set k" "k \<noteq> []" "trim k = k"
proof -
  have all: "\<forall>c \<in> set k. is_ascii c \<and> \<not> is_whitespace [c]
      \<and> c \<notin> {CHR ''='', CHR 0x22, CHR 0x5C, CHR '','', CHR ''('', CHR '')''}"
    using assms key_text_byte unfolding key_text_def list_all_iff by blast
  then show "list_all is_ascii k" "CHR ''='' \<notin> set k" "CHR 0x22 \<notin> set k" "CHR 0x5C \<notin> set k"
    "CHR '','' \<notin> set k" by (auto simp: list_all_iff)
  show ne: "k \<noteq> []" using assms by (auto simp: key_text_def)
  then obtain a m where k: "k = a # m" by (cases k) simp_all
  have "last k \<in> set k" "hd k \<in> set k" using ne by simp_all
  then show "trim k = k" using all k \<open>list_all is_ascii k\<close>
    by (intro trim_fixed [of k "[a]" "map (\<lambda>c. [c]) m"])
      (auto simp: utf8_chars_ascii last_map simp del: utf8_chars.simps)
qed

lemma whitespace_byte: "is_whitespace (c # w) \<Longrightarrow> c \<noteq> CHR 0x22"
  by (auto simp: is_whitespace_def)

text \<open>Text between quotation marks is trimmed, whatever bytes it has.\<close>

lemma trim_quoted: "trim ([CHR 0x22] @ x @ [CHR 0x22]) = [CHR 0x22] @ x @ [CHR 0x22]"
proof -
  let ?q = "CHR 0x22"
  have "utf8_chars (([?q] @ x) @ [?q]) = utf8_chars ([?q] @ x) @ utf8_chars [?q]"
    by (intro utf8_chars_append) (simp add: is_cont_byte_def)
  moreover obtain w m where "utf8_chars ([?q] @ x) = (?q # w) # m" by simp
  ultimately show ?thesis
    using whitespace_byte [of ?q] by (intro trim_fixed [of _ "?q # w" "m @ [[?q]]"]) auto
qed

lemma trim_key_quoted:
  assumes "key_text k"
  shows "trim (k @ ''='' @ [CHR 0x22] @ x @ [CHR 0x22]) = k @ ''='' @ [CHR 0x22] @ x @ [CHR 0x22]"
  using trim_closed [of k "''='' @ [CHR 0x22] @ x" "CHR 0x22"] key_text_bytes [OF assms]
  by (simp add: is_cont_byte_def is_ascii_def is_whitespace_def)

lemma strip_quoted:
  "strip_optional_quotes ([CHR 0x22] @ escape_quotes v @ [CHR 0x22]) = Some v"
  by (simp add: strip_optional_quotes_def starts_with_def ends_with_def unescape_escape)

lemma parse_render_field:
  assumes "key_text k" and "\<not> rule_key_set rule k"
  shows "parse_field rule (trim (render_field (k, v))) = set_rule_key rule k v"
proof -
  let ?q = "[CHR 0x22] @ escape_quotes v @ [CHR 0x22]"
  have f: "trim (render_field (k, v)) = k @ CHR ''='' # ?q"
    using trim_key_quoted [OF assms(1), of "escape_quotes v"] by (simp add: render_field_def)
  have "find_byte (CHR ''='') (k @ CHR ''='' # ?q) = Some (length k)"
    using key_text_bytes(2) [OF assms(1)] by (rule find_byte_append)
  then show ?thesis
    unfolding f parse_field_def using assms(2) key_text_bytes(7) [OF assms(1)]
      trim_quoted [of "escape_quotes v"] strip_quoted [of v]
    by simp
qed

lemma trim_space: "s = [] \<or> \<not> is_cont_byte (hd s) \<Longrightarrow> trim ('' '' @ s) = trim s"
  using utf8_chars_append [of s "'' ''"] by (simp add: trim_def is_whitespace_def)

lemma split_commas_plain:
  "list_all (\<lambda>c. c \<notin> {CHR 0x22, CHR 0x5C, CHR '',''}) x \<Longrightarrow>
     split_commas_loop q cur (x @ rest) = split_commas_loop q (cur @ x) rest"
proof (induction x arbitrary: cur)
  case (Cons b x)
  then show ?case by (cases "x @ rest") simp_all
qed simp

lemma split_commas_quote:
  "split_commas_loop q cur (CHR 0x22 # rest) = split_commas_loop (\<not> q) (cur @ [CHR 0x22]) rest"
  by (cases rest) simp_all

lemma split_commas_comma:
  "split_commas_loop False cur (CHR '','' # rest) = cur # split_commas_loop False [] rest"
  by (cases rest) simp_all

lemma split_commas_escaped:
  "split_commas_loop True cur (escape_quotes v @ CHR 0x22 # rest) =
     split_commas_loop True (cur @ escape_quotes v) (CHR 0x22 # rest)"
proof (induction v arbitrary: cur)
  case (Cons c v)
  have esc: "escape_quotes (c # v) = escape_byte c @ escape_quotes v" by (simp add: escape_quotes_eq)
  have "split_commas_loop True cur (escape_byte c @ x # y) =
      split_commas_loop True (cur @ escape_byte c) (x # y)" for x y
    by (simp add: escape_byte_def)
  moreover obtain x y where "escape_quotes v @ CHR 0x22 # rest = x # y"
    by (cases "escape_quotes v") simp_all
  ultimately show ?case using Cons unfolding esc by simp
qed simp

lemma split_commas_field:
  assumes "key_text (fst kv)"
  shows "split_commas_loop False cur (render_field kv @ rest) =
    split_commas_loop False (cur @ render_field kv) rest"
proof -
  have "list_all (\<lambda>c. c \<notin> {CHR 0x22, CHR 0x5C, CHR '',''}) (fst kv @ ''='')"
    using key_text_bytes [OF assms] by (auto simp: list_all_iff)
  then show ?thesis
    using split_commas_plain [of "fst kv @ ''=''" False cur]
    by (simp add: render_field_def split_commas_quote split_commas_escaped)
qed

lemma split_commas_fields:
  "list_all (\<lambda>kv. key_text (fst kv)) (kv # kvs) \<Longrightarrow>
     split_commas_loop False cur (join_with '', '' (map render_field (kv # kvs))) =
       (cur @ render_field kv) # map (\<lambda>kv. '' '' @ render_field kv) kvs"
proof (induction kvs arbitrary: kv cur)
  case Nil
  then show ?case using split_commas_field [of kv cur "[]"] by simp
next
  case (Cons kv' kvs)
  have "split_commas_loop False cur (join_with '', '' (map render_field (kv # kv' # kvs))) =
      (cur @ render_field kv) # split_commas_loop False [] (CHR '' '' # join_with '', '' (map render_field (kv' # kvs)))"
    using Cons.prems by (simp add: split_commas_field split_commas_comma)
  also have "split_commas_loop False [] (CHR '' '' # join_with '', '' (map render_field (kv' # kvs))) =
      split_commas_loop False '' '' (join_with '', '' (map render_field (kv' # kvs)))"
    using split_commas_plain [of "'' ''" False "[]"] by simp
  finally show ?case using Cons by simp
qed

lemma render_field_start: "key_text (fst kv) \<Longrightarrow> \<not> is_cont_byte (hd (render_field kv))"
  using key_text_bytes [of "fst kv"]
  by (cases "fst kv") (auto simp: render_field_def not_cont_ascii)

lemma parse_fields_cong: "map trim fs = map trim gs \<Longrightarrow> parse_fields fs rule = parse_fields gs rule"
proof (induction fs arbitrary: gs rule)
  case (Cons f fs)
  then obtain g gs' where "gs = g # gs'" "trim f = trim g" "map trim fs = map trim gs'" by auto
  with Cons.IH show ?case by (cases "parse_field rule (trim g)") simp_all
qed simp

lemma parse_split_fields:
  assumes "list_all (\<lambda>kv. key_text (fst kv)) kvs"
  shows "parse_fields (split_top_level_commas (join_with '', '' (map render_field kvs))) rule =
    parse_fields (map render_field kvs) rule"
proof (cases kvs)
  case Nil
  then show ?thesis by (simp add: split_top_level_commas_def parse_field_def)
next
  case (Cons kv kvs')
  have "trim ('' '' @ render_field kv) = trim (render_field kv)" if "kv \<in> set kvs" for kv
    using that assms by (intro trim_space) (auto simp: list_all_iff render_field_start)
  then show ?thesis using assms Cons split_commas_fields [of kv kvs' "[]"]
    by (intro parse_fields_cong) (simp add: split_top_level_commas_def)
qed


lemma parse_fields_append:
  "parse_fields (fs @ gs) rule = try_bind (parse_fields fs rule) (parse_fields gs)"
proof (induction fs arbitrary: rule)
  case (Cons f fs)
  then show ?case by (cases "parse_field rule (trim f)") simp_all
qed simp

lemma parse_opt_field:
  assumes "key_text k" and "\<not> rule_key_set rule k"
    and "\<And>v. set_rule_key rule k v = Inr (upd (Some v))" and "upd None = rule"
  shows "parse_fields (map render_field (opt_field k v)) rule = Inr (upd v)"
  using assms by (cases v) (simp_all add: opt_field_def parse_render_field)

lemma parse_argv_exact: "rs_argv_exact rule = None \<Longrightarrow>
    parse_fields (map render_field (opt_field ''argv_exact'' v)) rule = Inr (rule\<lparr>rs_argv_exact := v\<rparr>)"
  by (rule parse_opt_field [where upd = "\<lambda>v. rule\<lparr>rs_argv_exact := v\<rparr>"])
    (simp_all add: rule_key_set_def set_rule_key_def key_text_def is_ascii_alphanumeric_def)

lemma parse_argv_prefix: "rs_argv_prefix rule = None \<Longrightarrow>
    parse_fields (map render_field (opt_field ''argv_prefix'' v)) rule = Inr (rule\<lparr>rs_argv_prefix := v\<rparr>)"
  by (rule parse_opt_field [where upd = "\<lambda>v. rule\<lparr>rs_argv_prefix := v\<rparr>"])
    (simp_all add: rule_key_set_def set_rule_key_def key_text_def is_ascii_alphanumeric_def)

lemma parse_path_glob: "rs_path_glob rule = None \<Longrightarrow>
    parse_fields (map render_field (opt_field ''path_glob'' v)) rule = Inr (rule\<lparr>rs_path_glob := v\<rparr>)"
  by (rule parse_opt_field [where upd = "\<lambda>v. rule\<lparr>rs_path_glob := v\<rparr>"])
    (simp_all add: rule_key_set_def set_rule_key_def key_text_def is_ascii_alphanumeric_def)

lemma parse_path_prefix: "rs_path_prefix rule = None \<Longrightarrow>
    parse_fields (map render_field (opt_field ''path_prefix'' v)) rule = Inr (rule\<lparr>rs_path_prefix := v\<rparr>)"
  by (rule parse_opt_field [where upd = "\<lambda>v. rule\<lparr>rs_path_prefix := v\<rparr>"])
    (simp_all add: rule_key_set_def set_rule_key_def key_text_def is_ascii_alphanumeric_def)

lemma parse_op: "rs_op rule = None \<Longrightarrow>
    parse_fields (map render_field (opt_field ''op'' v)) rule = Inr (rule\<lparr>rs_op := v\<rparr>)"
  by (rule parse_opt_field [where upd = "\<lambda>v. rule\<lparr>rs_op := v\<rparr>"])
    (simp_all add: rule_key_set_def set_rule_key_def key_text_def is_ascii_alphanumeric_def)

lemma parse_cwd_root: "rs_cwd_root rule = None \<Longrightarrow>
    parse_fields (map render_field (opt_field ''cwd_root'' v)) rule = Inr (rule\<lparr>rs_cwd_root := v\<rparr>)"
  by (rule parse_opt_field [where upd = "\<lambda>v. rule\<lparr>rs_cwd_root := v\<rparr>"])
    (simp_all add: rule_key_set_def set_rule_key_def key_text_def is_ascii_alphanumeric_def)

lemma parse_git_branch: "rs_git_branch rule = None \<Longrightarrow>
    parse_fields (map render_field (opt_field ''git_branch'' v)) rule = Inr (rule\<lparr>rs_git_branch := v\<rparr>)"
  by (rule parse_opt_field [where upd = "\<lambda>v. rule\<lparr>rs_git_branch := v\<rparr>"])
    (simp_all add: rule_key_set_def set_rule_key_def key_text_def is_ascii_alphanumeric_def)

lemma parse_domain: "rs_domain rule = None \<Longrightarrow>
    parse_fields (map render_field (opt_field ''domain'' v)) rule = Inr (rule\<lparr>rs_domain := v\<rparr>)"
  by (rule parse_opt_field [where upd = "\<lambda>v. rule\<lparr>rs_domain := v\<rparr>"])
    (simp_all add: rule_key_set_def set_rule_key_def key_text_def is_ascii_alphanumeric_def)

lemma parse_capability: "rs_capability rule = None \<Longrightarrow>
    parse_fields (map render_field (opt_field ''capability'' v)) rule = Inr (rule\<lparr>rs_capability := v\<rparr>)"
  by (rule parse_opt_field [where upd = "\<lambda>v. rule\<lparr>rs_capability := v\<rparr>"])
    (simp_all add: rule_key_set_def set_rule_key_def key_text_def is_ascii_alphanumeric_def)

text \<open>The slot of a family rule that names its concrete tool.\<close>

definition family_slot :: "rstr \<Rightarrow> (rstr, rstr) btree \<Rightarrow> bool" where
  "family_slot t ext = (ext = [] \<or> (is_tool_family t \<and> bt_keys ext = [''tool'']))"

lemma parse_extra: "rs_extra rule = [] \<Longrightarrow> family_slot (rs_tool rule) ext \<Longrightarrow>
    parse_fields (map render_field ext) rule = Inr (rule\<lparr>rs_extra := ext\<rparr>)"
proof (cases ext)
  case (Cons kv ext')
  assume "rs_extra rule = []" and slot: "family_slot (rs_tool rule) ext"
  moreover obtain v where "ext = [(''tool'', v)]" using slot Cons
    by (cases kv) (auto simp: family_slot_def bt_keys_def)
  ultimately show ?thesis
    by (simp add: family_slot_def parse_render_field key_text_def is_ascii_alphanumeric_def
        rule_key_set_def set_rule_key_def)
qed simp

lemma parse_rule_fields:
  assumes "family_slot (rs_tool r) (rs_extra r)"
  shows "parse_fields (map render_field (rule_fields r)) (empty_rule_spec (rs_tool r)) = Inr r"
  using assms
  by (simp add: rule_fields_def parse_fields_append empty_rule_spec_def parse_argv_exact parse_argv_prefix
      parse_path_glob parse_path_prefix parse_op parse_cwd_root parse_git_branch parse_domain
      parse_capability parse_extra)


section \<open>Accepted rules\<close>

definition accepted_rule :: "PermissionRuleSpec \<Rightarrow> bool" where
  "accepted_rule r =
     (trim (rs_tool r) = rs_tool r \<and> rs_tool r \<noteq> [] \<and> CHR ''('' \<notin> set (rs_tool r)
      \<and> to_ascii_lowercase (rs_tool r) \<noteq> ''edit'' \<and> to_ascii_lowercase (rs_tool r) \<noteq> ''read''
      \<and> family_slot (rs_tool r) (rs_extra r)
      \<and> \<not> (rs_path_glob r \<noteq> None \<and> rs_path_prefix r \<noteq> None))"

lemma set_rule_key_slot:
  assumes "set_rule_key rule key v = Inr rule'" and "\<not> rule_key_set rule key"
    and "family_slot (rs_tool rule) (rs_extra rule)"
  shows "rs_tool rule' = rs_tool rule \<and> family_slot (rs_tool rule') (rs_extra rule')"
proof (cases "rs_extra rule' = rs_extra rule")
  case True
  then show ?thesis using assms by (auto simp: set_rule_key_def split: if_splits)
next
  case False
  then have slot: "key = ''tool''" "is_tool_family (rs_tool rule)"
      "rule' = rule\<lparr>rs_extra := bt_insert ''tool'' v (rs_extra rule)\<rparr>"
    using assms(1) by (auto simp: set_rule_key_def split: if_splits)
  then have "rs_extra rule = []"
    using assms(2,3) by (auto simp: rule_key_set_def family_slot_def bt_get_None_iff)
  with slot show ?thesis by (simp add: family_slot_def)
qed

lemma parse_fields_slot:
  "parse_fields fs rule = Inr rule' \<Longrightarrow> family_slot (rs_tool rule) (rs_extra rule) \<Longrightarrow>
     rs_tool rule' = rs_tool rule \<and> family_slot (rs_tool rule') (rs_extra rule')"
proof (induction fs arbitrary: rule)
  case (Cons f fs)
  then obtain r where r: "parse_field rule (trim f) = Inr r" "parse_fields fs r = Inr rule'" by auto
  have "rs_tool r = rs_tool rule \<and> family_slot (rs_tool r) (rs_extra r)"
    using r(1) Cons.prems(2) set_rule_key_slot
    by (auto simp: parse_field_def Let_def split: if_splits option.splits)
  with Cons.IH r(2) show ?case by metis
qed simp

lemma set_trim: "set (trim s) \<subseteq> set s"
  using trim_decomp [of s] by (metis set_append sup_ge1 sup_ge2 order_trans)

text \<open>What the parser accepts has a trimmed tool name without a parenthesis, no unsupported family
  and no conflicting fields.\<close>

lemma parse_rule_accepted:
  assumes "parse_rule s = Inr r"
  shows "accepted_rule r"
proof -
  let ?s = "trim s"
  obtain p where p: "find_byte (CHR ''('') ?s = Some p"
    using assms by (auto simp: parse_rule_def Let_def split: if_splits option.splits)
  let ?t = "trim (take p ?s)"
  obtain fs where fs: "parse_fields fs (empty_rule_spec ?t) = Inr r" and t: "?t \<noteq> []"
      "to_ascii_lowercase ?t \<noteq> ''edit''" "to_ascii_lowercase ?t \<noteq> ''read''"
      and c: "\<not> (rs_path_glob r \<noteq> None \<and> rs_path_prefix r \<noteq> None)"
    using assms p by (auto simp: parse_rule_def Let_def split: if_splits option.splits)
  have slot: "rs_tool r = rs_tool (empty_rule_spec ?t) \<and> family_slot (rs_tool r) (rs_extra r)"
    by (rule parse_fields_slot [OF fs]) (simp add: empty_rule_spec_def family_slot_def)
  then have "rs_tool r = ?t" by (simp add: empty_rule_spec_def)
  moreover note conjunct2 [OF slot]
  moreover have "CHR ''('' \<notin> set ?t"
    using find_byte_Some [OF p] set_trim [of "take p ?s"] by blast
  ultimately show ?thesis using t c by (simp add: accepted_rule_def)
qed

lemma key_text_rule_fields:
  "family_slot t (rs_extra r) \<Longrightarrow> list_all (\<lambda>kv. key_text (fst kv)) (rule_fields r)"
proof -
  assume "family_slot t (rs_extra r)"
  then have "list_all (\<lambda>kv. key_text (fst kv)) (rs_extra r)"
    by (auto simp: family_slot_def bt_keys_def list_all_iff key_text_def is_ascii_alphanumeric_def)
  then show ?thesis
    by (auto simp: rule_fields_def opt_field_def key_text_def is_ascii_alphanumeric_def split: option.splits)
qed

definition rule_body :: "PermissionRuleSpec \<Rightarrow> rstr" where
  "rule_body r = join_with '', '' (map render_field (rule_fields r))"

lemma serialize_rule_eq: "serialize_rule r = rs_tool r @ ''('' @ rule_body r @ '')''"
  by (simp add: serialize_rule_def rule_body_def)

lemma trim_rule_body:
  assumes "list_all (\<lambda>kv. key_text (fst kv)) kvs"
  shows "trim (join_with '', '' (map render_field kvs)) = join_with '', '' (map render_field kvs)"
proof (cases kvs)
  case (Cons kv kvs')
  let ?b = "join_with '', '' (map render_field kvs)"
  have ends: "\<exists>x. join_with '', '' (map render_field (kv # kvs)) = fst kv @ ''='' @ x @ [CHR 0x22]" for kv kvs
  proof (induction kvs arbitrary: kv)
    case Nil
    then show ?case by (simp add: render_field_def)
  next
    case (Cons kv' kvs)
    then obtain x where "join_with '', '' (map render_field (kv' # kvs)) = fst kv' @ ''='' @ x @ [CHR 0x22]"
      by blast
    then show ?case
      by (intro exI [of _ "[CHR 0x22] @ escape_quotes (snd kv) @ [CHR 0x22] @ '', '' @ fst kv' @ ''='' @ x"])
        (simp add: render_field_def [of kv])
  qed
  then obtain x where "?b = fst kv @ ''='' @ x @ [CHR 0x22]" using Cons by blast
  then show ?thesis
    using trim_closed [of "fst kv" "''='' @ x" "CHR 0x22"] key_text_bytes [of "fst kv"] assms Cons
    by (simp add: is_cont_byte_def is_ascii_def is_whitespace_def)
qed simp

lemma parse_serialize_accepted:
  assumes "accepted_rule r"
  shows "parse_rule (serialize_rule r) = Inr r"
proof -
  let ?t = "rs_tool r" and ?b = "rule_body r"
  have t: "trim ?t = ?t" "?t \<noteq> []" "CHR ''('' \<notin> set ?t" and slot: "family_slot ?t (rs_extra r)"
    using assms by (simp_all add: accepted_rule_def)
  have s: "trim (serialize_rule r) = ?t @ CHR ''('' # ?b @ '')''"
    using trim_closed [of ?t "''('' @ ?b" "CHR '')''"] t
    by (simp add: serialize_rule_eq is_cont_byte_def is_ascii_def is_whitespace_def)
  have "find_byte (CHR ''('') (?t @ CHR ''('' # ?b @ '')'') = Some (length ?t)"
    using t(3) by (rule find_byte_append)
  moreover have "rfind_byte (CHR '')'') (?t @ CHR ''('' # ?b @ '')'') = Some (Suc (length ?t + length ?b))"
    using rfind_byte_append [of "CHR '')''" "[]" "?t @ CHR ''('' # ?b"] by simp
  moreover have "parse_fields (split_top_level_commas (trim ?b)) (empty_rule_spec ?t) = Inr r"
    using key_text_rule_fields [OF slot] parse_split_fields parse_rule_fields [OF slot] trim_rule_body
    by (simp add: rule_body_def)
  ultimately show ?thesis
    using assms t unfolding parse_rule_def s by (simp add: accepted_rule_def)
qed

text \<open>C19. Every rule the parser accepts survives printing: parsing its text form returns the same
  rule, whatever quotes, backslashes, commas or parentheses its values contain.\<close>

theorem rule_roundtrip:
  assumes "parse_rule s = Inr r"
  shows "parse_rule (serialize_rule r) = Inr r"
  using parse_serialize_accepted [OF parse_rule_accepted [OF assms]] .


theorem rule_roundtrip_witness:
  "parse_rule (serialize_rule (rule_spec_bash ''npm test'')) = Inr (rule_spec_bash ''npm test'')"
proof -
  have a: "accepted_rule (rule_spec_bash ''npm test'')"
    by (simp add: accepted_rule_def rule_spec_bash_def empty_rule_spec_def family_slot_def
        to_ascii_lowercase_def ascii_lower_def trim_def is_whitespace_def is_cont_byte_def)
  show ?thesis using rule_roundtrip [OF parse_serialize_accepted [OF a]] .
qed

end
