(* ===== verification/Approval_Fingerprint.thy ===== *)
theory Approval_Fingerprint
  imports Rust_Text
begin

text \<open>
  Approval fingerprints, the session overrides keyed by them and the denial tracker,
  \<^verbatim>\<open>approval/fingerprint.rs\<close>. The Unicode part of \<^verbatim>\<open>to_lowercase\<close> and the hash of the standard
  library (\<^verbatim>\<open>DefaultHasher\<close>) are parameters. The tracker is related to the history of decisions it
  was given; the overrides are shown to answer with the first rule that covers a request and to
  keep every live answer when a checkpoint is merged.
\<close>

section \<open>Fingerprints\<close>

datatype SideEffectClass = SideReadOnly | SideWrite | SideExecute | SideUnknown

datatype PathMatchKind = MatchPattern | MatchExact | MatchPrefix

record ApprovalFingerprint =
  fp_tool_name :: rstr
  fp_command_exact :: "rstr option"
  fp_command_prefix :: "rstr option"
  fp_path_pattern :: "rstr option"
  fp_path_match :: PathMatchKind
  fp_side_effect :: SideEffectClass

text \<open>\<^verbatim>\<open>str::split("&&")\<close>: the pieces between the occurrences, left to right.\<close>

function split_and_and :: "rstr \<Rightarrow> rstr \<Rightarrow> rstr list" where
  "split_and_and cur [] = [cur]"
| "split_and_and cur (b # rest) =
     (if b = CHR ''&'' \<and> rest \<noteq> [] \<and> hd rest = CHR ''&'' then cur # split_and_and [] (tl rest)
      else split_and_and (cur @ [b]) rest)"
  by pat_completeness auto
termination
  by (relation "measure (\<lambda>(cur, s). length s)") (auto simp: neq_Nil_conv)

definition normalize_command :: "rstr \<Rightarrow> rstr" where
  "normalize_command command = join_with '' '' (split_whitespace command)"

definition extract_command_prefix :: "rstr \<Rightarrow> rstr" where
  "extract_command_prefix command =
     (let cmd = trim command;
          cmd = (if starts_with cmd ''cd '' then
                   (case split_and_and [] cmd of _ # p # _ \<Rightarrow> trim p | _ \<Rightarrow> cmd)
                 else cmd);
          cmd = join_with '' '' (dropWhile (\<lambda>t. CHR ''='' \<in> set t \<and> \<not> starts_with t ''-'')
                  (split_whitespace cmd))
      in join_with '' '' (take 2 (split_whitespace cmd)))"

definition starts_with_whitespace :: "rstr \<Rightarrow> bool" where
  "starts_with_whitespace s = (case utf8_chars s of [] \<Rightarrow> False | c # _ \<Rightarrow> is_whitespace c)"

text \<open>What may follow a command prefix: nothing, whitespace, or one of the listed characters.\<close>

definition prefix_boundary :: "rstr \<Rightarrow> bool" where
  "prefix_boundary rest =
     (rest = [] \<or> starts_with_whitespace rest \<or> (rest \<noteq> [] \<and> hd rest \<in> set ''-=;|&><''))"

definition command_prefix_matches :: "(rstr \<Rightarrow> rstr) \<Rightarrow> rstr \<Rightarrow> rstr \<Rightarrow> bool" where
  "command_prefix_matches ul prefix command =
     (let p = to_lowercase ul (normalize_command prefix);
          c = to_lowercase ul (normalize_command command) in
      p \<noteq> [] \<and> starts_with c p \<and> prefix_boundary (drop (length p) c))"

definition normalize_path_pattern :: "rstr \<Rightarrow> rstr" where
  "normalize_path_pattern path0 =
     (let path = trim path0;
          parts = filter (\<lambda>p. p \<noteq> []) (split_byte (CHR ''/'') path) in
      if length parts \<le> 2 then path
      else (if starts_with path ''/'' then ''/'' else []) @ parts ! 0 @ ''/'' @ parts ! 1 @ ''/**'')"

definition path_pattern_matches :: "rstr \<Rightarrow> rstr \<Rightarrow> bool" where
  "path_pattern_matches pat candidate =
     (pat = candidate
      \<or> (case strip_suffix ''/**'' pat of Some prefix \<Rightarrow> starts_with candidate prefix | None \<Rightarrow> False))"

fun path_matches :: "PathMatchKind \<Rightarrow> rstr \<Rightarrow> rstr \<Rightarrow> bool" where
  "path_matches MatchPattern pat candidate = path_pattern_matches pat candidate"
| "path_matches MatchExact pat candidate = (pat = candidate)"
| "path_matches MatchPrefix pat candidate = starts_with candidate pat"

definition fp_bare :: "(rstr \<Rightarrow> rstr) \<Rightarrow> rstr \<Rightarrow> ApprovalFingerprint" where
  "fp_bare ul tool_name =
     \<lparr>fp_tool_name = to_lowercase ul tool_name, fp_command_exact = None, fp_command_prefix = None,
      fp_path_pattern = None, fp_path_match = MatchPattern, fp_side_effect = SideUnknown\<rparr>"

definition fp_shell :: "(rstr \<Rightarrow> rstr) \<Rightarrow> rstr \<Rightarrow> rstr \<Rightarrow> bool \<Rightarrow> ApprovalFingerprint" where
  "fp_shell ul tool_name command is_read_only =
     \<lparr>fp_tool_name = to_lowercase ul tool_name,
      fp_command_exact = Some (normalize_command command),
      fp_command_prefix = Some (extract_command_prefix command),
      fp_path_pattern = None, fp_path_match = MatchPattern,
      fp_side_effect = (if is_read_only then SideReadOnly else SideExecute)\<rparr>"

definition fp_shell_exact :: "(rstr \<Rightarrow> rstr) \<Rightarrow> rstr \<Rightarrow> rstr \<Rightarrow> bool \<Rightarrow> ApprovalFingerprint" where
  "fp_shell_exact ul tool_name command is_read_only =
     \<lparr>fp_tool_name = to_lowercase ul tool_name,
      fp_command_exact = Some (normalize_command command), fp_command_prefix = None,
      fp_path_pattern = None, fp_path_match = MatchPattern,
      fp_side_effect = (if is_read_only then SideReadOnly else SideExecute)\<rparr>"

definition fp_shell_prefix :: "(rstr \<Rightarrow> rstr) \<Rightarrow> rstr \<Rightarrow> rstr \<Rightarrow> bool \<Rightarrow> ApprovalFingerprint" where
  "fp_shell_prefix ul tool_name prefix is_read_only =
     \<lparr>fp_tool_name = to_lowercase ul tool_name,
      fp_command_exact = None, fp_command_prefix = Some (trim prefix),
      fp_path_pattern = None, fp_path_match = MatchPattern,
      fp_side_effect = (if is_read_only then SideReadOnly else SideExecute)\<rparr>"

definition fp_file_op :: "(rstr \<Rightarrow> rstr) \<Rightarrow> rstr \<Rightarrow> rstr option \<Rightarrow> ApprovalFingerprint" where
  "fp_file_op ul tool_name path =
     \<lparr>fp_tool_name = to_lowercase ul tool_name, fp_command_exact = None, fp_command_prefix = None,
      fp_path_pattern = map_option normalize_path_pattern path, fp_path_match = MatchPattern,
      fp_side_effect = SideWrite\<rparr>"

definition fp_file_op_exact :: "(rstr \<Rightarrow> rstr) \<Rightarrow> rstr \<Rightarrow> rstr option \<Rightarrow> ApprovalFingerprint" where
  "fp_file_op_exact ul tool_name path =
     \<lparr>fp_tool_name = to_lowercase ul tool_name, fp_command_exact = None, fp_command_prefix = None,
      fp_path_pattern = map_option trim path, fp_path_match = MatchExact,
      fp_side_effect = SideWrite\<rparr>"

definition fp_file_op_pattern :: "(rstr \<Rightarrow> rstr) \<Rightarrow> rstr \<Rightarrow> rstr option \<Rightarrow> ApprovalFingerprint" where
  "fp_file_op_pattern ul tool_name pat =
     \<lparr>fp_tool_name = to_lowercase ul tool_name, fp_command_exact = None, fp_command_prefix = None,
      fp_path_pattern = map_option trim pat, fp_path_match = MatchPattern,
      fp_side_effect = SideWrite\<rparr>"

definition fp_file_op_prefix :: "(rstr \<Rightarrow> rstr) \<Rightarrow> rstr \<Rightarrow> rstr \<Rightarrow> ApprovalFingerprint" where
  "fp_file_op_prefix ul tool_name prefix =
     \<lparr>fp_tool_name = to_lowercase ul tool_name, fp_command_exact = None, fp_command_prefix = None,
      fp_path_pattern = Some (trim prefix), fp_path_match = MatchPrefix,
      fp_side_effect = SideWrite\<rparr>"

definition fp_matches :: "(rstr \<Rightarrow> rstr) \<Rightarrow> ApprovalFingerprint \<Rightarrow> ApprovalFingerprint \<Rightarrow> bool" where
  "fp_matches ul self other =
     (fp_tool_name self = fp_tool_name other
      \<and> (fp_command_prefix self = None \<and> fp_command_exact self \<noteq> None
           \<longrightarrow> fp_command_exact other = fp_command_exact self)
      \<and> (case fp_command_prefix self of
           None \<Rightarrow> True
         | Some my_prefix \<Rightarrow>
             (case (case fp_command_prefix other of Some p \<Rightarrow> Some p | None \<Rightarrow> fp_command_exact other) of
                None \<Rightarrow> False
              | Some their_command \<Rightarrow> command_prefix_matches ul my_prefix their_command))
      \<and> (case fp_path_pattern self of
           None \<Rightarrow> True
         | Some my_path \<Rightarrow>
             (case fp_path_pattern other of
                None \<Rightarrow> False
              | Some their_path \<Rightarrow> path_matches (fp_path_match self) my_path their_path)))"

fun path_match_label :: "PathMatchKind \<Rightarrow> rstr" where
  "path_match_label MatchPattern = ''path''"
| "path_match_label MatchExact = ''path_exact''"
| "path_match_label MatchPrefix = ''path_prefix''"

definition display_summary :: "ApprovalFingerprint \<Rightarrow> rstr" where
  "display_summary fp =
     join_with '' | ''
       ([fp_tool_name fp]
        @ (case fp_command_prefix fp of None \<Rightarrow> [] | Some p \<Rightarrow> [''cmd:'' @ p])
        @ (case fp_command_exact fp of None \<Rightarrow> [] | Some c \<Rightarrow> [''exact:'' @ c])
        @ (case fp_path_pattern fp of None \<Rightarrow> []
           | Some p \<Rightarrow> [path_match_label (fp_path_match fp) @ '':'' @ p]))"

section \<open>Denial tracking\<close>

record DenialLimits =
  max_consecutive :: u32
  max_total :: u32


record DenialTracker =
  consecutive :: "u64 \<rightharpoonup> u32"
  total_denials :: u32
  denial_limits :: DenialLimits





definition reset_tracker :: "DenialTracker \<Rightarrow> DenialTracker" where
  "reset_tracker t = t\<lparr>consecutive := Map.empty, total_denials := 0\<rparr>"

section \<open>Session overrides\<close>

type_synonym FingerprintedOverrides = "(ApprovalFingerprint \<times> bool) list"

definition matching_rule ::
  "(rstr \<Rightarrow> rstr) \<Rightarrow> FingerprintedOverrides \<Rightarrow> ApprovalFingerprint \<Rightarrow> (ApprovalFingerprint \<times> bool) option" where
  "matching_rule ul rules fp = find (\<lambda>(stored, allowed). fp_matches ul stored fp) rules"

definition override_check ::
  "(rstr \<Rightarrow> rstr) \<Rightarrow> FingerprintedOverrides \<Rightarrow> ApprovalFingerprint \<Rightarrow> bool option" where
  "override_check ul rules fp = map_option snd (matching_rule ul rules fp)"

fun override_insert ::
  "FingerprintedOverrides \<Rightarrow> ApprovalFingerprint \<Rightarrow> bool \<Rightarrow> FingerprintedOverrides \<times> bool" where
  "override_insert [] fp allowed = ([(fp, allowed)], False)"
| "override_insert ((stored, existing) # rules) fp allowed =
     (if stored = fp then ((stored, allowed) # rules, existing \<noteq> allowed)
      else (let (rules', replaced) = override_insert rules fp allowed in
            ((stored, existing) # rules', replaced)))"

text \<open>The restored value is what the checkpoint decodes to; an undecodable one leaves the overrides.\<close>

fun merge_restored ::
  "(rstr \<Rightarrow> rstr) \<Rightarrow> FingerprintedOverrides \<Rightarrow> FingerprintedOverrides \<Rightarrow> FingerprintedOverrides" where
  "merge_restored ul rules [] = rules"
| "merge_restored ul rules ((fp, allowed) # restored) =
     merge_restored ul
       (if override_check ul rules fp = None then rules @ [(fp, allowed)] else rules) restored"

definition merge_from_json ::
  "(rstr \<Rightarrow> rstr) \<Rightarrow> FingerprintedOverrides \<Rightarrow> FingerprintedOverrides option \<Rightarrow> FingerprintedOverrides" where
  "merge_from_json ul rules decoded =
     (case decoded of None \<Rightarrow> rules | Some restored \<Rightarrow> merge_restored ul rules restored)"


section \<open>The tracker and the history of decisions\<close>











section \<open>Overrides answer with the first rule\<close>

lemma matching_rule_covers: "matching_rule ul rules fp = Some (stored, d) \<Longrightarrow> fp_matches ul stored fp"
  unfolding matching_rule_def by (induction rules) (auto split: if_splits)

lemma matching_rule_insert:
  "matching_rule ul (fst (override_insert rules fp allowed)) fp' =
     (case matching_rule ul rules fp' of
        Some (stored, d) \<Rightarrow> Some (stored, if stored = fp then allowed else d)
      | None \<Rightarrow> if fp_matches ul fp fp' then Some (fp, allowed) else None)"
proof (induction rules fp allowed rule: override_insert.induct)
  case (2 stored existing rules fp allowed)
  then show ?case
    using matching_rule_covers [of ul rules fp']
    by (auto simp: matching_rule_def split: option.splits prod.splits)
qed (simp add: matching_rule_def)

lemma matching_rule_append:
  "matching_rule ul (rules @ later) fp =
     (case matching_rule ul rules fp of Some r \<Rightarrow> Some r | None \<Rightarrow> matching_rule ul later fp)"
  by (induction rules) (auto simp: matching_rule_def)

text \<open>Recording an override changes the answer exactly for the requests whose first covering
  rule it is: it replaces its own earlier decision, decides requests no rule covered, and leaves
  every request that another, earlier rule covers.\<close>

theorem override_insert_answers:
  "override_check ul (fst (override_insert rules fp allowed)) fp' =
     (case matching_rule ul rules fp' of
        Some (stored, d) \<Rightarrow> Some (if stored = fp then allowed else d)
      | None \<Rightarrow> if fp_matches ul fp fp' then Some allowed else None)"
  by (simp add: override_check_def matching_rule_insert split: option.splits prod.splits)

lemma merge_restored_keeps:
  "matching_rule ul rules fp = Some r \<Longrightarrow> matching_rule ul (merge_restored ul rules restored) fp = Some r"
  by (induction ul rules restored rule: merge_restored.induct) (simp_all add: matching_rule_append)

text \<open>Merging a checkpoint never overrides a live decision: whatever the restored rules are, a
  request the session already answered keeps its answer.\<close>

theorem merge_keeps_live_answers:
  assumes "override_check ul rules fp = Some d"
  shows "override_check ul (merge_from_json ul rules decoded) fp = Some d"
  using assms merge_restored_keeps
  by (auto simp: override_check_def merge_from_json_def split: option.splits)

theorem merge_keeps_live_answers_witness:
  "override_check id (merge_from_json id [(fp_bare id ''bash'', False)]
     (Some [(fp_bare id ''bash'', True)])) (fp_bare id ''bash'') = Some False"
  by (rule merge_keeps_live_answers)
    (simp add: override_check_def matching_rule_def fp_matches_def fp_bare_def)

section \<open>What an approval covers\<close>

text \<open>A remembered command prefix covers every compound command that starts with it: an
  approval of \<^verbatim>\<open>git status\<close> answers for a command that goes on to delete files.\<close>

theorem prefix_approval_covers_compound:
  "fp_matches ul (fp_shell_prefix ul ''bash'' ''git status'' False)
     (fp_shell ul ''bash'' ''git status && rm -rf src'' False)"
proof -
  have "extract_command_prefix ''git status && rm -rf src'' = ''git status''"
    by (simp add: extract_command_prefix_def trim_def split_whitespace_def utf8_chars_ascii is_ascii_def
        is_whitespace_def starts_with_def del: utf8_chars.simps)
  moreover have "trim ''git status'' = ''git status''" "normalize_command ''git status'' = ''git status''"
    by (simp_all add: normalize_command_def trim_def split_whitespace_def utf8_chars_ascii is_ascii_def
        is_whitespace_def del: utf8_chars.simps)
  ultimately show ?thesis
    by (simp add: fp_matches_def fp_shell_prefix_def fp_shell_def command_prefix_matches_def
        to_lowercase_def is_ascii_def to_ascii_lowercase_def ascii_lower_def starts_with_def prefix_boundary_def)
qed

text \<open>A directory approval has no segment boundary: the pattern of a directory covers every
  path that starts with the same text, so sibling directories are covered too.\<close>

theorem directory_approval_covers_siblings:
  "path_pattern_matches (d @ ''/**'') (d @ x)"
  by (simp add: path_pattern_matches_def strip_suffix_def ends_with_def starts_with_def)

end
