(* ===== verification/Tool_Category.thy ===== *)
theory Tool_Category
  imports Rust_Text Json_Value
begin

unbundle bit_operations_syntax

text \<open>
  What the program knows of its tools: the table of
  \<^verbatim>\<open>astra-turn-core/src/tool/categories/mod.rs\<close> with the queries on it and the classifier of one
  call, the idempotency classes of \<^verbatim>\<open>astra-turn-types/src/tool_idempotency.rs\<close>, the actions of the
  \<^verbatim>\<open>agent\<close> tools (\<^verbatim>\<open>agent_tool_contract.rs\<close>), the approval classes of
  \<^verbatim>\<open>cloud/approval_policy.rs\<close> and the policy of plan mode (\<^verbatim>\<open>plan_mode_policy.rs\<close>). Whether a
  shell command only reads (\<^verbatim>\<open>bash_command_is_read_only\<close>, an argument-vector classifier) is the
  parameter \<^verbatim>\<open>reads\<close> of the classifier.
\<close>

section \<open>Argument hints\<close>

definition json_as_str :: "json \<Rightarrow> rstr option" where
  "json_as_str v = (case v of JString s \<Rightarrow> Some s | _ \<Rightarrow> None)"

definition path_hint_from_args :: "json \<Rightarrow> rstr option" where
  "path_hint_from_args args = Option.bind (json_get args ''path'') json_as_str"

definition command_hint_from_args :: "json \<Rightarrow> rstr option" where
  "command_hint_from_args args = Option.bind (json_get args ''command'') json_as_str"

datatype CloudGatedToolKind = GatedExecute | GatedWrite

section \<open>Categories, flags and the table\<close>

datatype ToolCategory = CatReadOnly | CatConsultative | CatMutating | CatShell

definition category_is_read_only :: "ToolCategory \<Rightarrow> bool" where
  "category_is_read_only c = (c = CatReadOnly)"

definition category_is_parallelizable :: "ToolCategory \<Rightarrow> bool" where
  "category_is_parallelizable c = (c \<in> {CatReadOnly, CatConsultative})"

definition category_is_never_restrict :: "ToolCategory \<Rightarrow> bool" where
  "category_is_never_restrict c = (c = CatReadOnly)"

definition category_is_mutating :: "ToolCategory \<Rightarrow> bool" where
  "category_is_mutating c = (c \<in> {CatMutating, CatShell})"

definition category_is_shell :: "ToolCategory \<Rightarrow> bool" where
  "category_is_shell c = (c = CatShell)"

lemmas category_defs =
  category_is_read_only_def category_is_parallelizable_def category_is_never_restrict_def
  category_is_mutating_def category_is_shell_def

type_synonym ToolFlags = "16 word"

definition COMPACTABLE :: ToolFlags where "COMPACTABLE = 1"
definition APPROVAL_REQUIRED :: ToolFlags where "APPROVAL_REQUIRED = 2"
definition EXECUTE_COMMAND :: ToolFlags where "EXECUTE_COMMAND = 4"
definition CODE_INTEL :: ToolFlags where "CODE_INTEL = 8"
definition WEB :: ToolFlags where "WEB = 64"
definition MEMORY :: ToolFlags where "MEMORY = 128"
definition EXPLORATION :: ToolFlags where "EXPLORATION = 256"
definition MATRIXONE :: ToolFlags where "MATRIXONE = 512"
definition ORCHESTRATION :: ToolFlags where "ORCHESTRATION = 1024"
definition FILE_OP :: ToolFlags where "FILE_OP = 2048"
definition TASK_MGMT :: ToolFlags where "TASK_MGMT = 4096"

definition flags_empty :: ToolFlags where "flags_empty = 0"

definition flags_union :: "ToolFlags \<Rightarrow> ToolFlags \<Rightarrow> ToolFlags" where
  "flags_union a b = a OR b"

definition flags_contain :: "ToolFlags \<Rightarrow> ToolFlags \<Rightarrow> bool" where
  "flags_contain a b = (a AND b = b)"

definition flags_AE :: ToolFlags where "flags_AE = flags_union APPROVAL_REQUIRED EXECUTE_COMMAND"
definition flags_CI :: ToolFlags where "flags_CI = flags_union CODE_INTEL COMPACTABLE"
definition flags_WB :: ToolFlags where "flags_WB = flags_union WEB COMPACTABLE"

lemmas flag_defs =
  COMPACTABLE_def APPROVAL_REQUIRED_def EXECUTE_COMMAND_def CODE_INTEL_def WEB_def MEMORY_def
  EXPLORATION_def MATRIXONE_def ORCHESTRATION_def FILE_OP_def TASK_MGMT_def flags_empty_def
  flags_union_def flags_contain_def flags_AE_def flags_CI_def flags_WB_def

datatype ToolIdempotency = PureRead | IdempotentWrite | NonIdempotent

definition is_safe_to_retry :: "ToolIdempotency \<Rightarrow> bool" where
  "is_safe_to_retry i = (i \<in> {PureRead, IdempotentWrite})"

definition is_pure_read :: "ToolIdempotency \<Rightarrow> bool" where
  "is_pure_read i = (i = PureRead)"

record ToolMeta =
  tm_name :: rstr
  tm_category :: ToolCategory
  tm_flags :: ToolFlags
  tm_idempotency :: ToolIdempotency

definition tool_row :: "rstr \<Rightarrow> ToolCategory \<Rightarrow> ToolFlags \<Rightarrow> ToolMeta" where
  "tool_row name c fl =
     \<lparr>tm_name = name, tm_category = c, tm_flags = fl,
      tm_idempotency = (case c of CatReadOnly \<Rightarrow> PureRead | CatConsultative \<Rightarrow> PureRead | _ \<Rightarrow> NonIdempotent)\<rparr>"

definition tool_idem :: "rstr \<Rightarrow> ToolCategory \<Rightarrow> ToolFlags \<Rightarrow> ToolIdempotency \<Rightarrow> ToolMeta" where
  "tool_idem name c fl i =
     \<lparr>tm_name = name, tm_category = c, tm_flags = fl, tm_idempotency = i\<rparr>"

definition TOOL_TABLE :: "ToolMeta list" where
  "TOOL_TABLE =
     [tool_row ''read_file'' CatReadOnly (flags_union (flags_union COMPACTABLE EXPLORATION) FILE_OP),
      tool_row ''list_dir'' CatReadOnly (flags_union COMPACTABLE EXPLORATION),
      tool_row ''grep'' CatReadOnly (flags_union COMPACTABLE EXPLORATION),
      tool_row ''glob'' CatReadOnly (flags_union COMPACTABLE EXPLORATION),
      tool_row ''search'' CatReadOnly (flags_union COMPACTABLE EXPLORATION),
      tool_row ''find'' CatReadOnly (flags_union COMPACTABLE EXPLORATION),
      tool_row ''tool_search'' CatReadOnly COMPACTABLE,
      tool_row ''worktree'' CatMutating APPROVAL_REQUIRED,
      tool_row ''symbols'' CatReadOnly (flags_union flags_CI EXPLORATION),
      tool_row ''find_definition'' CatReadOnly (flags_union flags_CI EXPLORATION),
      tool_row ''find_references'' CatReadOnly (flags_union flags_CI EXPLORATION),
      tool_row ''symbol_search'' CatReadOnly (flags_union flags_CI EXPLORATION),
      tool_row ''hover_info'' CatReadOnly (flags_union flags_CI EXPLORATION),
      tool_row ''call_graph'' CatReadOnly (flags_union flags_CI EXPLORATION),
      tool_row ''type_hierarchy'' CatReadOnly flags_CI,
      tool_row ''dead_code'' CatReadOnly flags_CI,
      tool_row ''extract_members'' CatReadOnly flags_CI,
      tool_row ''lsp'' CatReadOnly (flags_union flags_CI EXPLORATION),
      tool_row ''web_fetch'' CatReadOnly flags_WB,
      tool_row ''web_search'' CatReadOnly flags_WB,
      tool_row ''memory_search'' CatReadOnly MEMORY,
      tool_row ''memory_retrieve'' CatReadOnly MEMORY,
      tool_row ''memory_profile'' CatReadOnly MEMORY,
      tool_row ''memory'' CatMutating MEMORY,
      tool_row ''mo_query'' CatReadOnly MATRIXONE,
      tool_row ''get_agent_info'' CatReadOnly COMPACTABLE,
      tool_row ''introspect'' CatReadOnly COMPACTABLE,
      tool_row ''model_catalog'' CatReadOnly COMPACTABLE,
      tool_row ''reflect'' CatReadOnly COMPACTABLE,
      tool_row ''inspect_work_plan'' CatReadOnly (flags_union COMPACTABLE ORCHESTRATION),
      tool_row ''inspect_work_criteria'' CatReadOnly (flags_union COMPACTABLE ORCHESTRATION),
      tool_row ''context_analysis'' CatReadOnly ORCHESTRATION,
      tool_row ''diagnose'' CatReadOnly ORCHESTRATION,
      tool_row ''skill'' CatConsultative flags_empty,
      tool_row ''discover_skills'' CatConsultative flags_empty,
      tool_idem ''ask_user'' CatConsultative ORCHESTRATION NonIdempotent,
      tool_idem ''sleep'' CatConsultative ORCHESTRATION NonIdempotent,
      tool_row ''brief'' CatConsultative ORCHESTRATION,
      tool_row ''query_context'' CatConsultative ORCHESTRATION,
      tool_idem ''write_file'' CatMutating (flags_union APPROVAL_REQUIRED FILE_OP) IdempotentWrite,
      tool_row ''publish_artifact'' CatMutating (flags_union APPROVAL_REQUIRED FILE_OP),
      tool_row ''str_replace'' CatMutating (flags_union APPROVAL_REQUIRED FILE_OP),
      tool_row ''multi_edit'' CatMutating (flags_union APPROVAL_REQUIRED FILE_OP),
      tool_row ''edit_file'' CatMutating (flags_union APPROVAL_REQUIRED FILE_OP),
      tool_row ''apply_patch'' CatMutating (flags_union APPROVAL_REQUIRED FILE_OP),
      tool_row ''create_file'' CatMutating (flags_union APPROVAL_REQUIRED FILE_OP),
      tool_row ''delete_file'' CatMutating (flags_union APPROVAL_REQUIRED FILE_OP),
      tool_row ''notebook_edit'' CatMutating ORCHESTRATION,
      tool_row ''rollback_file_edits'' CatMutating (flags_union APPROVAL_REQUIRED ORCHESTRATION),
      tool_row ''rollback_database_snapshots'' CatMutating (flags_union APPROVAL_REQUIRED ORCHESTRATION),
      tool_row ''rollback_session_state'' CatMutating ORCHESTRATION,
      tool_row ''rename_symbol'' CatMutating CODE_INTEL,
      tool_row ''agent'' CatMutating ORCHESTRATION,
      tool_row ''send_message'' CatMutating ORCHESTRATION,
      tool_row ''share_context'' CatMutating ORCHESTRATION,
      tool_row ''run_chain'' CatMutating ORCHESTRATION,
      tool_row ''config'' CatMutating ORCHESTRATION,
      tool_row ''adjust_config'' CatMutating ORCHESTRATION,
      tool_row ''compress_context'' CatMutating ORCHESTRATION,
      tool_row ''env'' CatMutating ORCHESTRATION,
      tool_idem ''start_work'' CatMutating (flags_union ORCHESTRATION TASK_MGMT) IdempotentWrite,
      tool_idem ''propose_work_plan'' CatMutating (flags_union ORCHESTRATION TASK_MGMT) IdempotentWrite,
      tool_idem ''propose_work_criteria'' CatMutating (flags_union ORCHESTRATION TASK_MGMT) IdempotentWrite,
      tool_row ''task_output'' CatReadOnly (flags_union ORCHESTRATION TASK_MGMT),
      tool_row ''task_list'' CatReadOnly (flags_union ORCHESTRATION TASK_MGMT),
      tool_row ''task_stop'' CatMutating (flags_union ORCHESTRATION TASK_MGMT),
      tool_row ''bash'' CatShell (flags_union flags_AE EXPLORATION),
      tool_row ''exec'' CatShell (flags_union flags_AE EXPLORATION),
      tool_row ''run_command'' CatShell (flags_union flags_AE EXPLORATION),
      tool_row ''shell'' CatShell (flags_union flags_AE EXPLORATION),
      tool_row ''powershell'' CatShell (flags_union flags_AE EXPLORATION)]"

section \<open>The registry\<close>

definition registry_new :: "rstr \<rightharpoonup> ToolMeta" where
  "registry_new = fold (\<lambda>m by_name. by_name(tm_name m \<mapsto> m)) TOOL_TABLE Map.empty"

definition registry_get :: "rstr \<Rightarrow> ToolMeta option" where
  "registry_get name = registry_new name"

definition registry_category :: "rstr \<Rightarrow> ToolCategory" where
  "registry_category name = (case registry_get name of Some m \<Rightarrow> tm_category m | None \<Rightarrow> CatMutating)"

definition registry_flags :: "rstr \<Rightarrow> ToolFlags" where
  "registry_flags name = (case registry_get name of Some m \<Rightarrow> tm_flags m | None \<Rightarrow> flags_empty)"

definition registry_idempotency :: "rstr \<Rightarrow> ToolIdempotency" where
  "registry_idempotency name =
     (case registry_get name of Some m \<Rightarrow> tm_idempotency m | None \<Rightarrow> NonIdempotent)"

definition registry_is_never_restrict :: "rstr \<Rightarrow> bool" where
  "registry_is_never_restrict name =
     (category_is_never_restrict (registry_category name) \<or> flags_contain (registry_flags name) TASK_MGMT)"

definition registry_is_compactable :: "rstr \<Rightarrow> bool" where
  "registry_is_compactable name = flags_contain (registry_flags name) COMPACTABLE"

definition registry_is_approval_required :: "rstr \<Rightarrow> bool" where
  "registry_is_approval_required name = flags_contain (registry_flags name) APPROVAL_REQUIRED"

definition registry_is_execute_command :: "rstr \<Rightarrow> bool" where
  "registry_is_execute_command name = flags_contain (registry_flags name) EXECUTE_COMMAND"

definition registry_is_exploration :: "rstr \<Rightarrow> bool" where
  "registry_is_exploration name = flags_contain (registry_flags name) EXPLORATION"

definition registry_is_consultative :: "rstr \<Rightarrow> bool" where
  "registry_is_consultative name = (registry_category name = CatConsultative)"

definition registry_is_exploration_or_consultative :: "rstr \<Rightarrow> bool" where
  "registry_is_exploration_or_consultative name =
     (registry_is_exploration name \<or> registry_is_consultative name)"

definition registry_is_code_intel :: "rstr \<Rightarrow> bool" where
  "registry_is_code_intel name = flags_contain (registry_flags name) CODE_INTEL"

definition registry_is_matrixone :: "rstr \<Rightarrow> bool" where
  "registry_is_matrixone name = flags_contain (registry_flags name) MATRIXONE"

definition registry_is_orchestration :: "rstr \<Rightarrow> bool" where
  "registry_is_orchestration name = flags_contain (registry_flags name) ORCHESTRATION"

definition registry_is_file_op :: "rstr \<Rightarrow> bool" where
  "registry_is_file_op name = flags_contain (registry_flags name) FILE_OP"

datatype ToolDisplayCategory =
  DisplayFile | DisplayShell | DisplaySearch | DisplayGit | DisplayCode | DisplayMo
  | DisplayMemory | DisplayUtility | DisplayOther

definition display_category :: "rstr \<Rightarrow> ToolDisplayCategory" where
  "display_category name =
     (let flags = registry_flags name in
      if starts_with name ''memoria_'' then DisplayMemory
      else if flags_contain flags CODE_INTEL then DisplayCode
      else if name = ''worktree'' then DisplayGit
      else if flags_contain flags MATRIXONE then DisplayMo
      else if flags_contain flags MEMORY then DisplayMemory
      else if category_is_shell (registry_category name) then DisplayShell
      else if flags_contain flags FILE_OP then DisplayFile
      else if flags_contain flags WEB
        \<or> name \<in> set [''search'', ''grep'', ''find'', ''glob'', ''list_dir'', ''tool_search''] then DisplaySearch
      else if registry_get name \<noteq> None then DisplayUtility
      else DisplayOther)"

definition read_only_names :: "rstr list" where
  "read_only_names = map tm_name (filter (\<lambda>m. category_is_read_only (tm_category m)) TOOL_TABLE)"

definition compactable_names :: "rstr list" where
  "compactable_names = map tm_name (filter (\<lambda>m. flags_contain (tm_flags m) COMPACTABLE) TOOL_TABLE)"

definition approval_required_names :: "rstr list" where
  "approval_required_names =
     map tm_name (filter (\<lambda>m. flags_contain (tm_flags m) APPROVAL_REQUIRED) TOOL_TABLE)"

definition execute_command_names :: "rstr list" where
  "execute_command_names =
     map tm_name (filter (\<lambda>m. flags_contain (tm_flags m) EXECUTE_COMMAND) TOOL_TABLE)"

definition shell_names :: "rstr list" where
  "shell_names = map tm_name (filter (\<lambda>m. category_is_shell (tm_category m)) TOOL_TABLE)"

definition exploration_names :: "rstr list" where
  "exploration_names = map tm_name (filter (\<lambda>m. flags_contain (tm_flags m) EXPLORATION) TOOL_TABLE)"

definition canonical_names :: "rstr list" where
  "canonical_names = map tm_name TOOL_TABLE"

definition headless_read_only_names :: "rstr list" where
  "headless_read_only_names =
     map tm_name (filter (\<lambda>m. category_is_read_only (tm_category m)
       \<and> \<not> flags_contain (tm_flags m) WEB \<and> \<not> flags_contain (tm_flags m) MEMORY
       \<and> \<not> flags_contain (tm_flags m) MATRIXONE \<and> \<not> flags_contain (tm_flags m) ORCHESTRATION) TOOL_TABLE)"

definition is_file_mutation_tool :: "rstr \<Rightarrow> bool" where
  "is_file_mutation_tool name =
     (name = ''notebook_edit''
      \<or> category_is_mutating (registry_category name) \<and> flags_contain (registry_flags name) FILE_OP)"

section \<open>The actions of the agent tools\<close>

datatype AgentAction = Spawn | ListAgents | GetResult | Wait | RunChain | SendMessage

datatype AgentFanoutAction = StartGroup | GetResults | StopSlot | StopGroup

text \<open>The error messages are display text; which of them is returned is kept.\<close>

datatype AgentActionError =
    MalformedArguments rstr
  | UnknownAction rstr
  | SpawnWrapper
  | AgentsPayload
  | MissingAction
  | ActionType

definition has_malformed_tool_args :: "json \<Rightarrow> bool" where
  "has_malformed_tool_args args = (json_get args ''_parse_error'' \<noteq> None)"

definition reject_malformed_tool_args :: "rstr \<Rightarrow> json \<Rightarrow> (AgentActionError, unit) result" where
  "reject_malformed_tool_args name args =
     (if \<not> has_malformed_tool_args args then Inr () else Inl (MalformedArguments name))"

definition missing_agent_action :: "json \<Rightarrow> AgentActionError" where
  "missing_agent_action args =
     (if json_get args ''spawn'' \<noteq> None then SpawnWrapper
      else if json_get args ''agents'' \<noteq> None then AgentsPayload
      else MissingAction)"

definition agent_action_from_args :: "json \<Rightarrow> (AgentActionError, AgentAction) result" where
  "agent_action_from_args args = try_bind (reject_malformed_tool_args ''agent'' args) (\<lambda>_.
     case json_get args ''action'' of
       Some (JString action) \<Rightarrow>
         if trim action \<noteq> [] then
           if action = ''spawn'' then Inr Spawn
           else if action = ''list'' then Inr ListAgents
           else if action = ''get_result'' then Inr GetResult
           else if action = ''wait'' then Inr Wait
           else if action = ''run_chain'' then Inr RunChain
           else if action = ''send_message'' then Inr SendMessage
           else Inl (UnknownAction action)
         else Inl (missing_agent_action args)
     | None \<Rightarrow> Inl (missing_agent_action args)
     | Some _ \<Rightarrow> Inl ActionType)"

definition agent_fanout_action_from_args :: "json \<Rightarrow> (AgentActionError, AgentFanoutAction) result" where
  "agent_fanout_action_from_args args = try_bind (reject_malformed_tool_args ''agent_fanout'' args) (\<lambda>_.
     case json_get args ''action'' of
       Some (JString action) \<Rightarrow>
         if trim action \<noteq> [] then
           if action = ''start'' then Inr StartGroup
           else if action = ''get_results'' then Inr GetResults
           else if action = ''stop_slot'' then Inr StopSlot
           else if action = ''stop_group'' then Inr StopGroup
           else Inl (UnknownAction action)
         else Inl MissingAction
     | None \<Rightarrow> Inl MissingAction
     | Some _ \<Rightarrow> Inl ActionType)"

definition is_run_observation :: "AgentAction \<Rightarrow> bool" where
  "is_run_observation a = (a = ListAgents)"

record AgentInvocationSemantics =
  run_observation :: bool
  receive_inbox :: bool

definition agent_invocation_semantics ::
  "rstr \<Rightarrow> json \<Rightarrow> (AgentActionError, AgentInvocationSemantics option) result" where
  "agent_invocation_semantics name args =
     (if name = ''agent'' then
        try_bind (agent_action_from_args args) (\<lambda>action.
          Inr (Some \<lparr>run_observation = is_run_observation action, receive_inbox = \<not> is_run_observation action\<rparr>))
      else if name = ''agent_fanout'' then
        try_bind (agent_fanout_action_from_args args) (\<lambda>_.
          Inr (Some \<lparr>run_observation = False, receive_inbox = True\<rparr>))
      else Inr None)"

definition observes_run :: "rstr \<Rightarrow> json option \<Rightarrow> bool" where
  "observes_run name args =
     (case args of None \<Rightarrow> False
      | Some v \<Rightarrow> (case agent_invocation_semantics name v of
          Inr (Some semantics) \<Rightarrow> run_observation semantics | _ \<Rightarrow> False))"

definition action_arg :: "json option \<Rightarrow> rstr option" where
  "action_arg args = Option.bind (Option.bind args (\<lambda>a. json_get a ''action'')) json_as_str"

section \<open>Idempotency\<close>

definition pure_read_tools :: "rstr list" where
  "pure_read_tools =
     [''read_file'', ''grep'', ''glob'', ''list_dir'', ''task_output'', ''task_list'',
      ''symbols'', ''find_definition'', ''find_references'', ''symbol_search'',
      ''hover_info'', ''call_graph'', ''type_hierarchy'', ''dead_code'', ''extract_members'',
      ''web_fetch'', ''web_search'', ''memory_search'', ''memory_retrieve'',
      ''memory_profile'', ''inspect_work_plan'', ''inspect_work_criteria'', ''mo_query'',
      ''get_agent_info'', ''introspect'', ''model_catalog'', ''reflect'',
      ''context_analysis'', ''diagnose'', ''search'', ''find'', ''tool_search'', ''lsp'',
      ''skill'', ''discover_skills'', ''brief'', ''query_context'']"

definition idempotent_write_tools :: "rstr list" where
  "idempotent_write_tools = [''write_file'', ''start_work'', ''propose_work_plan'', ''propose_work_criteria'']"

definition classify_tool_idempotency :: "rstr \<Rightarrow> json option \<Rightarrow> ToolIdempotency" where
  "classify_tool_idempotency name args =
     (if observes_run name args then PureRead
      else if name = ''memory'' then
        (if action_arg args \<in> Some ` set [''recall'', ''expand'', ''profile''] then PureRead else NonIdempotent)
      else if name = ''worktree'' then NonIdempotent
      else if name = ''task_board'' then
        (if action_arg args \<in> Some ` set [''list'', ''get'', ''list_user''] then PureRead else NonIdempotent)
      else if name \<in> set pure_read_tools then PureRead
      else if name \<in> set [''ask_user'', ''sleep''] then NonIdempotent
      else if name \<in> set idempotent_write_tools then IdempotentWrite
      else NonIdempotent)"

section \<open>The classifier of one call\<close>

record ToolClassification =
  cl_category :: ToolCategory
  cl_flags :: ToolFlags
  cl_parallelizable :: bool
  cl_approval_required :: bool
  cl_compactable :: bool
  cl_never_restrict :: bool
  cl_exploration :: bool
  cl_idempotency :: ToolIdempotency

definition meta_category :: "rstr \<Rightarrow> json option \<Rightarrow> ToolCategory" where
  "meta_category name args =
     (if observes_run name args then CatReadOnly
      else if name = ''memory'' then
        (if action_arg args \<in> Some ` set [''recall'', ''expand'', ''profile''] then CatReadOnly else CatMutating)
      else registry_category name)"

definition meta_flags :: "rstr \<Rightarrow> ToolFlags" where
  "meta_flags name = (if name = ''memory'' then MEMORY else registry_flags name)"

definition shell_read_only :: "(rstr \<Rightarrow> bool) \<Rightarrow> rstr \<Rightarrow> json option \<Rightarrow> bool" where
  "shell_read_only reads name args =
     (category_is_shell (meta_category name args)
      \<and> (case Option.bind args command_hint_from_args of Some command \<Rightarrow> reads command | None \<Rightarrow> False))"

definition classify :: "(rstr \<Rightarrow> bool) \<Rightarrow> rstr \<Rightarrow> json option \<Rightarrow> ToolClassification" where
  "classify reads name args =
     (let c = meta_category name args; fl = meta_flags name; ro = shell_read_only reads name args in
      \<lparr>cl_category = (if ro then CatReadOnly else c),
       cl_flags = fl,
       cl_parallelizable = (ro \<or> category_is_parallelizable c),
       cl_approval_required = (\<not> ro \<and> flags_contain fl APPROVAL_REQUIRED),
       cl_compactable = (ro \<or> flags_contain fl COMPACTABLE),
       cl_never_restrict = category_is_never_restrict c,
       cl_exploration = (ro \<or> flags_contain fl EXPLORATION \<or> c = CatConsultative),
       cl_idempotency =
         (if ro \<or> name \<in> set [''task_output'', ''task_list''] then PureRead
          else classify_tool_idempotency name args)\<rparr>)"

definition classify_name :: "(rstr \<Rightarrow> bool) \<Rightarrow> rstr \<Rightarrow> ToolClassification" where
  "classify_name reads name = classify reads name None"

definition registry_category_for :: "(rstr \<Rightarrow> bool) \<Rightarrow> rstr \<Rightarrow> json option \<Rightarrow> ToolCategory" where
  "registry_category_for reads name args =
     (if name \<in> set [''memory'', ''agent'', ''agent_fanout''] then cl_category (classify reads name args)
      else registry_category name)"

definition is_read_only_for_recovery :: "(rstr \<Rightarrow> bool) \<Rightarrow> rstr \<Rightarrow> json option \<Rightarrow> bool" where
  "is_read_only_for_recovery reads name args =
     (category_is_read_only (cl_category (classify reads name args))
      \<and> \<not> flags_contain (registry_flags name) MATRIXONE \<and> name \<noteq> ''lsp'')"

definition is_read_only_tool_with_args :: "(rstr \<Rightarrow> bool) \<Rightarrow> rstr \<Rightarrow> json option \<Rightarrow> bool" where
  "is_read_only_tool_with_args reads name args = cl_parallelizable (classify reads name args)"

section \<open>Approval classes\<close>

definition cloud_gated_tool_kind_with_args ::
  "(rstr \<Rightarrow> bool) \<Rightarrow> rstr \<Rightarrow> json option \<Rightarrow> CloudGatedToolKind option" where
  "cloud_gated_tool_kind_with_args reads name args =
     (if starts_with name ''mcp_'' then Some GatedExecute
      else let classification = classify reads name args in
        if \<not> cl_approval_required classification then None
        else if category_is_shell (cl_category classification) then Some GatedExecute
        else Some GatedWrite)"

definition cloud_gated_tool_kind :: "(rstr \<Rightarrow> bool) \<Rightarrow> rstr \<Rightarrow> CloudGatedToolKind option" where
  "cloud_gated_tool_kind reads name = cloud_gated_tool_kind_with_args reads name None"

definition edge_tool_requires_cloud_approval_with_args :: "(rstr \<Rightarrow> bool) \<Rightarrow> rstr \<Rightarrow> json option \<Rightarrow> bool" where
  "edge_tool_requires_cloud_approval_with_args reads name args =
     (cloud_gated_tool_kind_with_args reads name args \<noteq> None)"

section \<open>Plan mode\<close>

definition PLAN_MODE_REQUIRED_TOOLS :: "rstr list" where
  "PLAN_MODE_REQUIRED_TOOLS = [''enter_plan_mode'', ''exit_plan_mode'']"

definition is_plan_control_tool :: "rstr \<Rightarrow> bool" where
  "is_plan_control_tool name = (name \<in> set PLAN_MODE_REQUIRED_TOOLS)"

definition is_plan_internal_authoring_tool :: "rstr \<Rightarrow> json \<Rightarrow> bool" where
  "is_plan_internal_authoring_tool name args =
     (is_plan_control_tool name
      \<or> name = ''memory''
        \<and> action_arg (Some args) \<in> Some ` set [''recall'', ''expand'', ''profile'', ''remember'', ''update'']
      \<or> name \<in> set [''task_output'', ''task_list'', ''start_work'', ''propose_work_plan'',
           ''inspect_work_criteria'', ''propose_work_criteria''])"

definition is_persistent_execution_surface :: "rstr \<Rightarrow> bool" where
  "is_persistent_execution_surface name = (name = ''background_shell'')"

fun split_once_text :: "rstr \<Rightarrow> rstr \<Rightarrow> (rstr \<times> rstr) option" where
  "split_once_text sep [] = (if sep = [] then Some ([], []) else None)"
| "split_once_text sep (c # s) =
     (if starts_with (c # s) sep then Some ([], drop (length sep) (c # s))
      else map_option (apfst (Cons c)) (split_once_text sep s))"

definition plan_command :: "rstr \<Rightarrow> rstr" where
  "plan_command command =
     (case strip_prefix ''cd '' command of
        None \<Rightarrow> command
      | Some rest \<Rightarrow> (case split_once_text ''&&'' rest of Some (_, tail) \<Rightarrow> trim tail | None \<Rightarrow> rest))"

definition is_plan_read_only_bash :: "json \<Rightarrow> bool" where
  "is_plan_read_only_bash args =
     (case map_option trim (command_hint_from_args args) of
        None \<Rightarrow> False
      | Some trimmed \<Rightarrow>
          let command = plan_command trimmed in
          (case split_whitespace command of
             [] \<Rightarrow> False
           | first # _ \<Rightarrow> first \<in> set [''ls'', ''pwd'', ''grep'', ''find'', ''rg'', ''cat'', ''head'', ''tail'', ''wc''])
          \<or> list_ex (starts_with command)
              [''git status'', ''git diff'', ''git log'', ''git show'', ''git blame'',
               ''cargo check'', ''cargo test'', ''make check'', ''make test''])"

definition is_plan_mode_blocked_tool :: "(rstr \<Rightarrow> bool) \<Rightarrow> rstr \<Rightarrow> json \<Rightarrow> bool" where
  "is_plan_mode_blocked_tool reads name args =
     (if is_plan_internal_authoring_tool name args then False
      else if is_persistent_execution_surface name then True
      else if name = ''bash'' then \<not> is_plan_read_only_bash args
      else category_is_mutating (cl_category (classify reads name (Some args))))"

section \<open>The table\<close>

text \<open>Every fact on a table row is checked row by row, by evaluation.\<close>

lemmas table_defs = TOOL_TABLE_def tool_row_def tool_idem_def

lemma canonical_names_distinct: "distinct canonical_names"
  unfolding canonical_names_def TOOL_TABLE_def by code_simp

lemma fold_insert_map_of:
  "distinct (map key ms) \<Longrightarrow>
     fold (\<lambda>m f. f(key m \<mapsto> m)) ms f0 = f0 ++ map_of (map (\<lambda>m. (key m, m)) ms)"
proof (induction ms arbitrary: f0)
  case (Cons m ms)
  then have "key m \<notin> dom (map_of (map (\<lambda>m. (key m, m)) ms))"
    by (simp add: dom_map_of_conv_image_fst image_image)
  with Cons show ?case
    by (auto simp: fun_eq_iff map_add_def dom_def split: option.splits)
qed simp

lemma registry_get_map_of: "registry_get name = map_of (map (\<lambda>m. (tm_name m, m)) TOOL_TABLE) name"
  using canonical_names_distinct
  by (simp add: registry_get_def registry_new_def fold_insert_map_of canonical_names_def)

lemma registry_get_SomeD: "registry_get name = Some m \<Longrightarrow> m \<in> set TOOL_TABLE \<and> tm_name m = name"
  by (auto simp: registry_get_map_of dest!: map_of_SomeD)

lemma registry_get_row: "m \<in> set TOOL_TABLE \<Longrightarrow> registry_get (tm_name m) = Some m"
  using canonical_names_distinct
  by (auto simp: registry_get_map_of canonical_names_def comp_def intro!: map_of_is_SomeI)

lemma registry_get_None: "registry_get name = None \<longleftrightarrow> name \<notin> set canonical_names"
  by (auto simp: registry_get_map_of canonical_names_def map_of_eq_None_iff image_image)

text \<open>What holds of every row and of an unregistered name holds of every name.\<close>

lemma registry_cases:
  assumes "list_all P TOOL_TABLE" and "registry_get name = Some m"
  shows "P m"
  using assms by (auto simp: list_all_iff dest: registry_get_SomeD)

lemma registered_pure_reads: "list_all (\<lambda>n. n \<in> set canonical_names) pure_read_tools"
  unfolding canonical_names_def TOOL_TABLE_def pure_read_tools_def by code_simp

lemma row_idempotency:
  "list_all (\<lambda>m. tm_idempotency m = classify_tool_idempotency (tm_name m) None) TOOL_TABLE"
  unfolding TOOL_TABLE_def by code_simp

lemma row_parallel_unapproved:
  "list_all (\<lambda>m. category_is_parallelizable (tm_category m)
     \<longrightarrow> \<not> flags_contain (tm_flags m) APPROVAL_REQUIRED) TOOL_TABLE"
  unfolding TOOL_TABLE_def by code_simp

lemma row_shell_executes:
  "list_all (\<lambda>m. (category_is_shell (tm_category m) \<longleftrightarrow> flags_contain (tm_flags m) EXECUTE_COMMAND)
     \<and> (flags_contain (tm_flags m) EXECUTE_COMMAND \<longrightarrow> flags_contain (tm_flags m) APPROVAL_REQUIRED)) TOOL_TABLE"
  unfolding TOOL_TABLE_def by code_simp

lemma row_not_mcp: "list_all (\<lambda>m. \<not> starts_with (tm_name m) ''mcp_'') TOOL_TABLE"
  unfolding TOOL_TABLE_def by code_simp

lemma observes_run_agent: "observes_run name args \<Longrightarrow> name = ''agent''"
  by (auto simp: observes_run_def agent_invocation_semantics_def try_bind_def
      split: option.splits sum.splits if_splits)

text \<open>
  The two sources of a tool's idempotency class agree: for every name, registered or not, the
  class in the tool table is the class \<^verbatim>\<open>classify_tool_idempotency\<close> gives the name when no
  arguments are known.
\<close>

theorem table_idempotency_agrees: "registry_idempotency name = classify_tool_idempotency name None"
proof (cases "registry_get name")
  case None
  then have new: "name \<notin> set canonical_names"
    by (simp add: registry_get_None)
  have "list_all (\<lambda>n. n \<in> set canonical_names) idempotent_write_tools"
    unfolding canonical_names_def TOOL_TABLE_def idempotent_write_tools_def by code_simp
  with new registered_pure_reads have "name \<notin> set pure_read_tools" "name \<notin> set idempotent_write_tools"
    by (metis list_all_iff)+
  with None show ?thesis
    by (simp add: registry_idempotency_def classify_tool_idempotency_def observes_run_def action_arg_def
        image_def)
next
  case (Some m)
  from registry_cases [OF row_idempotency Some] registry_get_SomeD [OF Some] Some show ?thesis
    by (simp add: registry_idempotency_def)
qed

lemma flags_of_parallel:
  assumes "category_is_parallelizable (registry_category name)"
  shows "\<not> flags_contain (registry_flags name) APPROVAL_REQUIRED"
proof (cases "registry_get name")
  case (Some m)
  with registry_cases [OF row_parallel_unapproved Some] assms show ?thesis
    by (simp add: registry_category_def registry_flags_def)
qed (use assms in \<open>simp add: registry_category_def category_defs\<close>)

lemma registry_agent: "registry_flags ''agent'' = ORCHESTRATION"
  unfolding registry_flags_def registry_get_map_of table_defs by simp

lemma memory_unapproved: "\<not> flags_contain MEMORY APPROVAL_REQUIRED"
  "\<not> flags_contain ORCHESTRATION APPROVAL_REQUIRED"
  by (simp_all add: flag_defs)

lemma mcp_unregistered: "starts_with name ''mcp_'' \<Longrightarrow> registry_get name = None"
  using registry_cases [OF row_not_mcp] registry_get_SomeD by (cases "registry_get name") auto

lemma mcp_category: "starts_with name ''mcp_'' \<Longrightarrow> meta_category name args = CatMutating"
  using observes_run_agent [of name args]
  by (auto simp: meta_category_def registry_category_def mcp_unregistered starts_with_def)

text \<open>
  C27. The scheduler and the approval gate never disagree on a call: a call the classifier lets run
  in parallel with others, as a read, is not gated for approval, whatever the tool, the arguments
  and the judgement of shell commands.
\<close>

theorem parallel_call_ungated:
  "is_read_only_tool_with_args reads name args \<Longrightarrow>
     cloud_gated_tool_kind_with_args reads name args = None"
proof -
  assume par: "is_read_only_tool_with_args reads name args"
  have mcp: "\<not> starts_with name ''mcp_''"
    using par mcp_category [of name args]
    by (auto simp: is_read_only_tool_with_args_def classify_def Let_def shell_read_only_def category_defs)
  have "shell_read_only reads name args \<or> \<not> flags_contain (meta_flags name) APPROVAL_REQUIRED"
    using par flags_of_parallel [of name] observes_run_agent [of name args]
    by (auto simp: is_read_only_tool_with_args_def classify_def Let_def meta_flags_def meta_category_def
        registry_agent memory_unapproved split: if_splits)
  with mcp show ?thesis
    by (auto simp: cloud_gated_tool_kind_with_args_def classify_def Let_def)
qed

theorem parallel_call_ungated_witness:
  "cloud_gated_tool_kind_with_args (\<lambda>c. c = ''git status'') ''bash''
     (Some (JObject [(''command'', JString ''git status'')])) = None
   \<and> cloud_gated_tool_kind_with_args (\<lambda>c. c = ''git status'') ''bash''
     (Some (JObject [(''command'', JString ''rm x'')])) = Some GatedExecute"
  by (intro conjI parallel_call_ungated) code_simp+

lemma execute_shell:
  assumes "registry_is_execute_command name"
  shows "meta_category name args = CatShell" "flags_contain (meta_flags name) APPROVAL_REQUIRED"
    "\<not> starts_with name ''mcp_''"
proof -
  from assms obtain m where m: "registry_get name = Some m"
    by (cases "registry_get name")
      (simp_all add: registry_is_execute_command_def registry_flags_def flag_defs)
  have shell: "registry_category name = CatShell" "flags_contain (registry_flags name) APPROVAL_REQUIRED"
    using assms registry_cases [OF row_shell_executes m] m
    by (simp_all add: registry_is_execute_command_def registry_flags_def registry_category_def category_defs)
  have "name \<noteq> ''agent''" "name \<noteq> ''memory''" "\<not> starts_with name ''mcp_''"
    using shell mcp_unregistered [of name] m registry_agent memory_unapproved
      registry_get_row [of "tool_row ''memory'' CatMutating MEMORY"]
    by (auto simp: registry_category_def tool_row_def TOOL_TABLE_def)
  then show "meta_category name args = CatShell" "flags_contain (meta_flags name) APPROVAL_REQUIRED"
    "\<not> starts_with name ''mcp_''"
    using shell observes_run_agent [of name args] by (auto simp: meta_category_def meta_flags_def)
qed

lemma execute_gate:
  assumes "registry_is_execute_command name"
  shows "cloud_gated_tool_kind_with_args reads name args =
       (case Option.bind args command_hint_from_args of
          Some command \<Rightarrow> if reads command then None else Some GatedExecute
        | None \<Rightarrow> Some GatedExecute)"
  using execute_shell [OF assms]
  by (auto simp: cloud_gated_tool_kind_with_args_def classify_def Let_def shell_read_only_def
      category_defs split: option.splits)

lemma execute_reads:
  assumes "registry_is_execute_command name"
  shows "is_read_only_tool_with_args reads name args =
       (case Option.bind args command_hint_from_args of Some command \<Rightarrow> reads command | None \<Rightarrow> False)"
  using execute_shell [OF assms]
  by (simp add: is_read_only_tool_with_args_def classify_def Let_def shell_read_only_def category_defs)

lemma execute_registered: "registry_is_execute_command ''bash''" "registry_is_execute_command ''powershell''"
  by (simp_all add: registry_is_execute_command_def registry_flags_def registry_get_map_of table_defs flag_defs)

text \<open>
  C40. Every tool that runs commands is gated, and for nothing but its own reads: a call of a tool
  with the execute flag needs an execute approval exactly when its command text is missing or is
  not judged a read.
\<close>

theorem execute_gate_exact:
  "registry_is_execute_command name \<Longrightarrow>
     cloud_gated_tool_kind_with_args reads name args =
       (case Option.bind args command_hint_from_args of
          Some command \<Rightarrow> if reads command then None else Some GatedExecute
        | None \<Rightarrow> Some GatedExecute)"
  by (rule execute_gate)

theorem execute_gate_exact_witness:
  "cloud_gated_tool_kind_with_args (\<lambda>_. False) ''powershell'' None = Some GatedExecute"
  using execute_gate_exact [of "''powershell''" "\<lambda>_. False" None]
  by (simp add: registry_is_execute_command_def registry_flags_def registry_get_map_of table_defs flag_defs)

text \<open>
  The registry and the classifier answer one question differently: \<^verbatim>\<open>start_work\<close> is a tool the
  registry never restricts, and the classification of the same name says it may be restricted.
\<close>

theorem never_restrict_disagrees:
  "registry_is_never_restrict ''start_work'' \<and> \<not> cl_never_restrict (classify_name reads ''start_work'')"
proof -
  have "registry_get ''start_work'' = Some (tool_idem ''start_work'' CatMutating (flags_union ORCHESTRATION TASK_MGMT) IdempotentWrite)"
    using registry_get_row [of "tool_idem ''start_work'' CatMutating (flags_union ORCHESTRATION TASK_MGMT) IdempotentWrite"]
    by (simp add: TOOL_TABLE_def tool_idem_def)
  then show ?thesis
    by (simp add: registry_is_never_restrict_def registry_flags_def registry_category_def tool_idem_def
        classify_name_def classify_def Let_def meta_category_def observes_run_def category_defs flag_defs)
qed

end
