(* ===== verification/Permission_Rule.thy ===== *)
theory Permission_Rule
  imports Path_Glob Rule_Grammar Approval_Fingerprint Tool_Category
begin

text \<open>
  Permission modes (\<^verbatim>\<open>astra-turn-types/src/permission_mode.rs\<close>), the argument hints
  (\<^verbatim>\<open>tool/args/hints.rs\<close>) and permission rules with their matching (\<^verbatim>\<open>permission/types.rs\<close>). The
  judgement of shell commands, the file system and the Unicode tables are fields of a parameter record. A
  \<^verbatim>\<open>std::path::Path\<close> is the list of its components, which is how the standard library compares paths.
\<close>

section \<open>Permission modes\<close>

datatype PermissionMode = ModeAuto | ModeBypass | ModePlan | ModeAcceptEdits | ModePrompt | ModeDeny

datatype ManualApprovalPolicy = ManualPlan | ManualAcceptEdits | ManualPrompt | ManualDeny

datatype ChildPermissionMode = ChildAuto | ChildPlan | ChildAcceptEdits | ChildPrompt | ChildDeny

fun mode_of_child :: "ChildPermissionMode \<Rightarrow> PermissionMode" where
  "mode_of_child ChildAuto = ModeAuto"
| "mode_of_child ChildPlan = ModePlan"
| "mode_of_child ChildAcceptEdits = ModeAcceptEdits"
| "mode_of_child ChildPrompt = ModePrompt"
| "mode_of_child ChildDeny = ModeDeny"

definition auto_resolves_approval_prompts :: "PermissionMode \<Rightarrow> bool" where
  "auto_resolves_approval_prompts m = (m \<in> {ModeAuto, ModeBypass})"

definition skips_human_approval_prompts :: "PermissionMode \<Rightarrow> bool" where
  "skips_human_approval_prompts m = (m = ModeBypass)"

definition relaxes_soft_shell_obfuscation :: "PermissionMode \<Rightarrow> bool" where
  "relaxes_soft_shell_obfuscation m = (m \<in> {ModeAuto, ModeBypass})"

definition auto_allows_soft_git_policy :: "PermissionMode \<Rightarrow> bool" where
  "auto_allows_soft_git_policy m = (m = ModeAuto)"

fun child_inherited_mode :: "PermissionMode \<Rightarrow> ChildPermissionMode" where
  "child_inherited_mode ModeBypass = ChildAuto"
| "child_inherited_mode ModeAuto = ChildAuto"
| "child_inherited_mode ModePlan = ChildPlan"
| "child_inherited_mode ModeAcceptEdits = ChildAcceptEdits"
| "child_inherited_mode ModePrompt = ChildPrompt"
| "child_inherited_mode ModeDeny = ChildDeny"

fun manual_approval_policy :: "PermissionMode \<Rightarrow> ManualApprovalPolicy option" where
  "manual_approval_policy ModeAuto = None"
| "manual_approval_policy ModeBypass = None"
| "manual_approval_policy ModePlan = Some ManualPlan"
| "manual_approval_policy ModeAcceptEdits = Some ManualAcceptEdits"
| "manual_approval_policy ModePrompt = Some ManualPrompt"
| "manual_approval_policy ModeDeny = Some ManualDeny"

fun mirror_code :: "PermissionMode \<Rightarrow> 8 word" where
  "mirror_code ModePrompt = 0"
| "mirror_code ModeAuto = 1"
| "mirror_code ModePlan = 2"
| "mirror_code ModeAcceptEdits = 3"
| "mirror_code ModeDeny = 4"
| "mirror_code ModeBypass = 5"

definition from_mirror_code :: "8 word \<Rightarrow> PermissionMode" where
  "from_mirror_code v =
     (if v = 1 then ModeAuto else if v = 2 then ModePlan else if v = 3 then ModeAcceptEdits
      else if v = 4 then ModeDeny else if v = 5 then ModeBypass else ModePrompt)"

fun chip_text :: "PermissionMode \<Rightarrow> rstr" where
  "chip_text ModeAuto = ''Auto''"
| "chip_text ModeBypass = ''Bypass''"
| "chip_text ModePlan = ''Read-only''"
| "chip_text ModeAcceptEdits = ''Edits''"
| "chip_text ModePrompt = ''Ask''"
| "chip_text ModeDeny = ''Deny''"

fun mode_text :: "PermissionMode \<Rightarrow> rstr" where
  "mode_text ModeAuto = ''auto''"
| "mode_text ModeBypass = ''bypass''"
| "mode_text ModePlan = ''plan''"
| "mode_text ModeAcceptEdits = ''accept_edits''"
| "mode_text ModePrompt = ''prompt''"
| "mode_text ModeDeny = ''deny''"

definition mode_from_text :: "rstr \<Rightarrow> (rstr, PermissionMode) result" where
  "mode_from_text s =
     (if s = ''auto'' then Inr ModeAuto else if s = ''bypass'' then Inr ModeBypass
      else if s = ''plan'' then Inr ModePlan else if s = ''accept_edits'' then Inr ModeAcceptEdits
      else if s = ''prompt'' then Inr ModePrompt else if s = ''deny'' then Inr ModeDeny
      else Inl (''invalid permission mode '' @ [CHR 0x27] @ s @ [CHR 0x27]
        @ '': expected auto, bypass, plan, accept_edits, prompt, or deny''))"

definition result_ok :: "('e, 'a) result \<Rightarrow> 'a option" where
  "result_ok r = (case r of Inl _ \<Rightarrow> None | Inr x \<Rightarrow> Some x)"

interpretation mode_codec: text_codec mode_text "\<lambda>s. result_ok (mode_from_text s)"
proof
  show "result_ok (mode_from_text (mode_text m)) = Some m" for m
    by (cases m) (simp_all add: mode_from_text_def result_ok_def)
  show "result_ok (mode_from_text s) = Some m \<Longrightarrow> mode_text m = s" for s m
    by (auto simp: mode_from_text_def result_ok_def split: if_splits)
qed

lemma mirror_roundtrip: "from_mirror_code (mirror_code m) = m"
  by (cases m) (simp_all add: from_mirror_code_def)

lemma child_mode_not_bypass: "mode_of_child (child_inherited_mode m) \<noteq> ModeBypass"
  by (cases m) simp_all

lemma child_mode_idem:
  "child_inherited_mode (mode_of_child (child_inherited_mode m)) = child_inherited_mode m"
  by (cases m) simp_all

section \<open>Paths\<close>

datatype path_component = RootDir | CurDir | ParentDir | Normal rstr

type_synonym rpath = "path_component list"

definition path_components :: "rstr \<Rightarrow> rpath" where
  "path_components s =
     (let parts = split_byte (CHR ''/'') s in
      (if starts_with s ''/'' then [RootDir] else if hd parts = ''.'' then [CurDir] else [])
      @ map (\<lambda>p. if p = ''..'' then ParentDir else Normal p) (filter (\<lambda>p. p \<noteq> [] \<and> p \<noteq> ''.'') parts))"

definition is_absolute :: "rpath \<Rightarrow> bool" where
  "is_absolute p = (p \<noteq> [] \<and> hd p = RootDir)"

fun component_text :: "path_component \<Rightarrow> rstr" where
  "component_text RootDir = []"
| "component_text CurDir = ''.''"
| "component_text ParentDir = ''..''"
| "component_text (Normal n) = n"

text \<open>The text of a path built from its components.\<close>

definition path_text :: "rpath \<Rightarrow> rstr" where
  "path_text p = (if p = [RootDir] then ''/'' else join_with ''/'' (map component_text p))"

definition path_parent :: "rpath \<Rightarrow> rpath option" where
  "path_parent p = (if p = [] \<or> last p = RootDir then None else Some (butlast p))"

function path_ancestors :: "rpath \<Rightarrow> rpath list" where
  "path_ancestors p = p # (case path_parent p of None \<Rightarrow> [] | Some q \<Rightarrow> path_ancestors q)"
  by pat_completeness auto
termination
  by (relation "measure length") (auto simp: path_parent_def split: if_splits)

declare path_ancestors.simps [simp del]

definition path_starts_with :: "rpath \<Rightarrow> rpath \<Rightarrow> bool" where
  "path_starts_with p q = (take (length q) p = q)"

definition path_join :: "rpath \<Rightarrow> rpath \<Rightarrow> rpath" where
  "path_join p q = (if is_absolute q then q else p @ dropWhile (\<lambda>c. c = CurDir \<and> p \<noteq> []) q)"

definition path_pop :: "rpath \<Rightarrow> rpath" where
  "path_pop p = (case path_parent p of None \<Rightarrow> p | Some q \<Rightarrow> q)"

fun normalize_step :: "rpath \<Rightarrow> path_component \<Rightarrow> rpath" where
  "normalize_step acc CurDir = acc"
| "normalize_step acc ParentDir = path_pop acc"
| "normalize_step acc RootDir = [RootDir]"
| "normalize_step acc (Normal n) = acc @ [Normal n]"

definition normalize_path_components :: "rpath \<Rightarrow> rpath" where
  "normalize_path_components p = foldl normalize_step [] p"

section \<open>The environment\<close>

record permission_env =
  unicode_lower :: "rstr \<Rightarrow> rstr"
  shell_reads :: "rstr \<Rightarrow> bool"
  current_dir :: "rpath option"
  fs_exists :: "rpath \<Rightarrow> bool"
  fs_is_dir :: "rpath \<Rightarrow> bool"
  fs_read :: "rpath \<Rightarrow> rstr option"
  fs_canonicalize :: "rpath \<Rightarrow> rpath option"

definition gated_kind :: "'x permission_env_scheme \<Rightarrow> rstr \<Rightarrow> json option \<Rightarrow> CloudGatedToolKind option" where
  "gated_kind env = cloud_gated_tool_kind_with_args (shell_reads env)"

definition lower :: "'x permission_env_scheme \<Rightarrow> rstr \<Rightarrow> rstr" where
  "lower env s = to_lowercase (unicode_lower env) s"

text \<open>The ancestors of a path with the components below them, the path itself first.\<close>

definition canonicalize_candidates :: "rpath \<Rightarrow> (rpath \<times> rpath) list" where
  "canonicalize_candidates p = map (\<lambda>q. (q, drop (length q) p)) (path_ancestors p)"

definition canonicalize_path_best_effort :: "'x permission_env_scheme \<Rightarrow> rpath \<Rightarrow> rpath" where
  "canonicalize_path_best_effort env p =
     (case find (\<lambda>(candidate, suffix). fs_exists env candidate) (canonicalize_candidates p) of
        None \<Rightarrow> normalize_path_components p
      | Some (candidate, suffix) \<Rightarrow>
          (let canonical = (case fs_canonicalize env candidate of
                              None \<Rightarrow> normalize_path_components candidate | Some c \<Rightarrow> c) in
           if candidate = p then canonical
           else normalize_path_components (path_join canonical suffix)))"

definition resolve_write_path_from_cwd ::
  "'x permission_env_scheme \<Rightarrow> rpath \<Rightarrow> rstr \<Rightarrow> rpath option" where
  "resolve_write_path_from_cwd env cwd path =
     (let trimmed = trim path in
      if trimmed = [] then None
      else
        (let p = path_components trimmed in
         Some (canonicalize_path_best_effort env (if is_absolute p then p else path_join cwd p))))"

definition resolved_write_path :: "'x permission_env_scheme \<Rightarrow> rstr \<Rightarrow> rstr option" where
  "resolved_write_path env path =
     (case current_dir env of
        None \<Rightarrow> None
      | Some cwd \<Rightarrow> map_option path_text (resolve_write_path_from_cwd env cwd path))"

definition current_workspace_root :: "'x permission_env_scheme \<Rightarrow> rpath option" where
  "current_workspace_root env = map_option (canonicalize_path_best_effort env) (current_dir env)"

definition workspace_write_prefix :: "'x permission_env_scheme \<Rightarrow> rstr \<Rightarrow> rstr option" where
  "workspace_write_prefix env path =
     (case (current_dir env, current_workspace_root env) of
        (Some cwd, Some root) \<Rightarrow>
          (case resolve_write_path_from_cwd env cwd path of
             None \<Rightarrow> None
           | Some candidate \<Rightarrow>
               if path_starts_with candidate root then Some (path_text root) else None)
      | _ \<Rightarrow> None)"

definition current_git_branch :: "'x permission_env_scheme \<Rightarrow> rpath \<Rightarrow> rstr option" where
  "current_git_branch env cwd =
     (case find (fs_exists env) (map (\<lambda>d. path_join d [Normal ''.git'']) (path_ancestors cwd)) of
        None \<Rightarrow> None
      | Some git_entry \<Rightarrow>
          (let git_dir =
             (if fs_is_dir env git_entry then Some git_entry
              else
                (case fs_read env git_entry of
                   None \<Rightarrow> None
                 | Some content \<Rightarrow>
                     (case strip_prefix ''gitdir:'' content of
                        None \<Rightarrow> None
                      | Some rest \<Rightarrow>
                          (let p = path_components (trim rest) in
                           if is_absolute p then Some p
                           else map_option (\<lambda>parent. path_join parent p) (path_parent git_entry)))))
           in (case git_dir of
                 None \<Rightarrow> None
               | Some dir \<Rightarrow>
                   (case fs_read env (path_join dir [Normal ''HEAD'']) of
                      None \<Rightarrow> None
                    | Some head \<Rightarrow> strip_prefix ''ref: refs/heads/'' (trim head)))))"

section \<open>Argument hints\<close>

definition split_once_byte :: "char \<Rightarrow> rstr \<Rightarrow> (rstr \<times> rstr) option" where
  "split_once_byte c s = map_option (\<lambda>k. (take k s, drop (Suc k) s)) (find_byte c s)"

definition is_unsafe_shell_prefix_token :: "rstr \<Rightarrow> bool" where
  "is_unsafe_shell_prefix_token token =
     (to_ascii_lowercase token \<in> set
        [''sh'', ''bash'', ''zsh'', ''fish'', ''csh'', ''tcsh'', ''ksh'', ''dash'', ''ash'', ''cmd'',
         ''powershell'', ''pwsh'', ''python'', ''python2'', ''python3'', ''node'', ''nodejs'', ''deno'',
         ''bun'', ''ruby'', ''perl'', ''php'', ''lua'', ''env'', ''xargs'', ''nice'', ''stdbuf'',
         ''nohup'', ''timeout'', ''time'', ''exec'', ''busybox'', ''sudo'', ''doas'', ''pkexec''])"

definition is_ascii_lowercase :: "char \<Rightarrow> bool" where
  "is_ascii_lowercase c = (97 \<le> (of_char c :: nat) \<and> (of_char c :: nat) \<le> 122)"

definition looks_like_subcommand :: "rstr \<Rightarrow> bool" where
  "looks_like_subcommand token =
     (case token of
        [] \<Rightarrow> False
      | c # cs \<Rightarrow> (is_ascii_lowercase c \<or> is_ascii_digit c)
          \<and> list_all (\<lambda>c. is_ascii_lowercase c \<or> is_ascii_digit c \<or> c = CHR ''-'' \<or> c = CHR ''_'') cs)"

definition looks_like_env_assignment :: "rstr \<Rightarrow> bool" where
  "looks_like_env_assignment token =
     (case split_once_byte (CHR ''='') token of
        None \<Rightarrow> False
      | Some (key, val) \<Rightarrow>
          key \<noteq> [] \<and> val \<noteq> [] \<and> list_all (\<lambda>c. c = CHR ''_'' \<or> is_ascii_alphanumeric c) key
          \<and> (hd key = CHR ''_'' \<or> (is_ascii_alphanumeric (hd key) \<and> \<not> is_ascii_digit (hd key))))"

definition is_safe_env_prefix :: "rstr \<Rightarrow> bool" where
  "is_safe_env_prefix key =
     (key \<in> set
        [''GOEXPERIMENT'', ''GOOS'', ''GOARCH'', ''CGO_ENABLED'', ''GO111MODULE'', ''RUST_BACKTRACE'',
         ''RUST_LOG'', ''NODE_ENV'', ''CI'', ''PYTHONUNBUFFERED'', ''PYTHONDONTWRITEBYTECODE'',
         ''PYTEST_DISABLE_PLUGIN_AUTOLOAD'', ''PYTEST_DEBUG'', ''LANG'', ''LANGUAGE'', ''LC_ALL'',
         ''LC_CTYPE'', ''LC_TIME'', ''CHARSET'', ''TERM'', ''COLORTERM'', ''NO_COLOR'', ''FORCE_COLOR'', ''TZ''])"

text \<open>The token loop: \<open>None\<close> is the early return of an empty prefix.\<close>

fun argv_prefix_tokens :: "rstr list \<Rightarrow> rstr list \<Rightarrow> rstr list option" where
  "argv_prefix_tokens tokens [] = Some tokens"
| "argv_prefix_tokens tokens (raw # rest) =
     (if raw \<in> set [''|'', '';'', ''&&'', ''||'', ''>'', ''<'', ''>>'', ''<<'', ''&''] then Some tokens
      else if starts_with raw ''-'' then Some tokens
      else if tokens = [] \<and> looks_like_env_assignment raw then
        (case split_once_byte (CHR ''='') raw of
           None \<Rightarrow> None
         | Some (key, _) \<Rightarrow> if is_safe_env_prefix key then argv_prefix_tokens tokens rest else None)
      else if 2 \<le> length (tokens @ [raw]) then Some (tokens @ [raw])
      else argv_prefix_tokens (tokens @ [raw]) rest)"

definition strip_cd_wrapper :: "rstr \<Rightarrow> rstr" where
  "strip_cd_wrapper cmd =
     (case split_and_and [] cmd of
        head # p # ps \<Rightarrow>
          if starts_with (trim_start head) ''cd '' then trim (join_with ''&&'' (p # ps)) else cmd
      | _ \<Rightarrow> cmd)"

definition normalized_argv_prefix :: "rstr \<Rightarrow> rstr" where
  "normalized_argv_prefix cmd =
     (case argv_prefix_tokens [] (split_whitespace (strip_cd_wrapper (trim cmd))) of
        Some [command, subcommand] \<Rightarrow>
          if is_unsafe_shell_prefix_token command \<or> \<not> looks_like_subcommand subcommand then []
          else command @ '' '' @ subcommand
      | _ \<Rightarrow> [])"

section \<open>Rules\<close>

datatype PermissionPatternMatch = PatternPrefix | PatternExact | PatternPathPrefix

record PermissionRule =
  pr_tool :: rstr
  pr_pattern :: "rstr option"
  pr_pattern_match :: PermissionPatternMatch
  pr_op :: "rstr option"
  pr_cwd_root :: "rstr option"
  pr_git_branch :: "rstr option"
  pr_domain :: "rstr option"
  pr_capability :: "rstr option"

record RuleMatchContext =
  mc_command :: "rstr option"
  mc_path :: "rstr option"
  mc_op :: "rstr option"
  mc_cwd :: "rpath option"
  mc_git_branch :: "rstr option"
  mc_domain :: "rstr option"
  mc_capability :: "rstr option"

definition rule_for_tool :: "rstr \<Rightarrow> PermissionRule" where
  "rule_for_tool t =
     \<lparr>pr_tool = t, pr_pattern = None, pr_pattern_match = PatternPrefix, pr_op = None,
      pr_cwd_root = None, pr_git_branch = None, pr_domain = None, pr_capability = None\<rparr>"

definition rule_tool :: "'x permission_env_scheme \<Rightarrow> rstr \<Rightarrow> PermissionRule" where
  "rule_tool env name = rule_for_tool (lower env name)"

definition rule_with_pattern :: "'x permission_env_scheme \<Rightarrow> rstr \<Rightarrow> rstr \<Rightarrow> PermissionRule" where
  "rule_with_pattern env name pat = (rule_for_tool (lower env name))\<lparr>pr_pattern := Some pat\<rparr>"

definition opt_or :: "'a option \<Rightarrow> 'a option \<Rightarrow> 'a option" where
  "opt_or x y = (case x of None \<Rightarrow> y | Some _ \<Rightarrow> x)"

definition from_rule_spec :: "'x permission_env_scheme \<Rightarrow> PermissionRuleSpec \<Rightarrow> PermissionRule" where
  "from_rule_spec env rule =
     (let lower_family = lower env (rs_tool rule);
          t = (if lower_family = ''network'' \<or> lower_family = ''mcp'' then
                 lower env (case bt_get (rs_extra rule) ''tool'' of None \<Rightarrow> lower_family | Some x \<Rightarrow> x)
               else lower_family);
          (pat, kind) =
            (if lower_family = ''bash'' then
               (case rs_argv_exact rule of
                  Some exact \<Rightarrow> (Some exact, PatternExact)
                | None \<Rightarrow> (rs_argv_prefix rule, PatternPrefix))
             else
               (opt_or (rs_argv_exact rule) (opt_or (rs_argv_prefix rule) (opt_or (rs_path_prefix rule)
                  (opt_or (rs_path_glob rule) (bt_get (rs_extra rule) ''pattern'')))),
                if rs_argv_exact rule \<noteq> None then PatternExact
                else if rs_path_prefix rule \<noteq> None then PatternPathPrefix
                else PatternPrefix)) in
      \<lparr>pr_tool = t, pr_pattern = pat, pr_pattern_match = kind, pr_op = rs_op rule,
       pr_cwd_root = rs_cwd_root rule, pr_git_branch = rs_git_branch rule,
       pr_domain = rs_domain rule, pr_capability = rs_capability rule\<rparr>)"

definition rule_try_parse ::
  "'x permission_env_scheme \<Rightarrow> rstr \<Rightarrow> (RuleParseError, PermissionRule) result" where
  "rule_try_parse env s = try_bind (parse_rule s) (\<lambda>spec. Inr (from_rule_spec env spec))"

definition invalid_rule :: PermissionRule where
  "invalid_rule = rule_for_tool ''__invalid_permission_rule__''"

definition rule_parse :: "'x permission_env_scheme \<Rightarrow> rstr \<Rightarrow> PermissionRule" where
  "rule_parse env s = (case rule_try_parse env s of Inl _ \<Rightarrow> invalid_rule | Inr r \<Rightarrow> r)"

definition rule_to_string :: "PermissionRule \<Rightarrow> rstr" where
  "rule_to_string r =
     (let spec = (empty_rule_spec (pr_tool r))
            \<lparr>rs_op := pr_op r, rs_cwd_root := pr_cwd_root r, rs_git_branch := pr_git_branch r,
             rs_domain := pr_domain r, rs_capability := pr_capability r\<rparr> in
      serialize_rule
        (if pr_tool r = ''bash'' then
           (if pr_pattern_match r = PatternExact then spec\<lparr>rs_argv_exact := pr_pattern r\<rparr>
            else spec\<lparr>rs_argv_prefix := pr_pattern r\<rparr>)
         else if pr_pattern_match r = PatternPathPrefix then spec\<lparr>rs_path_prefix := pr_pattern r\<rparr>
         else spec\<lparr>rs_path_glob := pr_pattern r\<rparr>))"

definition is_dangerous_bash_allow_shape :: "PermissionRule \<Rightarrow> bool" where
  "is_dangerous_bash_allow_shape r =
     (if pr_tool r \<noteq> ''bash'' \<or> pr_pattern_match r = PatternExact then False
      else
        (case pr_pattern r of
           None \<Rightarrow> True
         | Some pat \<Rightarrow>
             (let pat = trim pat in
              if pat = [] \<or> pat = ''*'' then True
              else is_unsafe_shell_prefix_token
                (case split_whitespace pat of [] \<Rightarrow> [] | first # _ \<Rightarrow> first))))"

section \<open>Matching\<close>

definition file_write_family_matches ::
  "'x permission_env_scheme \<Rightarrow> rstr \<Rightarrow> rstr \<Rightarrow> RuleMatchContext \<Rightarrow> bool" where
  "file_write_family_matches env rt tool_name ctx =
     (rt = ''file_write'' \<and> gated_kind env tool_name None = Some GatedWrite
      \<and> (case mc_op ctx of None \<Rightarrow> False | Some op' \<Rightarrow> eq_ignore_ascii_case op' ''write'')
      \<and> mc_path ctx \<noteq> None \<and> registry_is_file_op tool_name)"

definition trim_end_dots :: "rstr \<Rightarrow> rstr" where
  "trim_end_dots s = rev (dropWhile (\<lambda>c. c = CHR ''.'') (rev s))"

definition domain_matches :: "'x permission_env_scheme \<Rightarrow> rstr \<Rightarrow> rstr \<Rightarrow> bool" where
  "domain_matches env expected0 actual0 =
     (let expected = lower env (trim_end_dots (trim expected0));
          actual = lower env (trim_end_dots (trim actual0)) in
      actual = expected \<or> ends_with actual (''.'' @ expected))"

definition capability_matches :: "rstr \<Rightarrow> RuleMatchContext \<Rightarrow> bool" where
  "capability_matches expected ctx =
     (case mc_capability ctx of
        None \<Rightarrow> False
      | Some actual \<Rightarrow>
          actual = expected
          \<or> (case (split_once_byte (CHR ''='') expected, split_once_byte (CHR ''='') actual) of
               (Some (key, val), Some (akey, aval)) \<Rightarrow> akey = key \<and> eq_ignore_ascii_case aval val
             | _ \<Rightarrow> False))"

definition path_ends_with :: "rpath \<Rightarrow> rpath \<Rightarrow> bool" where
  "path_ends_with p suffix =
     (length suffix \<le> length p \<and> drop (length p - length suffix) p = suffix)"

definition cwd_matches_root :: "'x permission_env_scheme \<Rightarrow> rpath \<Rightarrow> rstr \<Rightarrow> bool" where
  "cwd_matches_root env cwd expected_root0 =
     (let expected_root = trim expected_root0 in
      if expected_root = [] \<or> expected_root = ''.'' then True
      else
        (let expected = path_components expected_root in
         if is_absolute expected then
           path_starts_with (case fs_canonicalize env cwd of None \<Rightarrow> cwd | Some c \<Rightarrow> c)
             (case fs_canonicalize env expected of None \<Rightarrow> expected | Some c \<Rightarrow> c)
         else list_ex (\<lambda>a. path_ends_with a expected) (path_ancestors cwd)))"

definition pattern_contains_glob_metachars :: "rstr \<Rightarrow> bool" where
  "pattern_contains_glob_metachars pat =
     (CHR ''*'' \<in> set pat \<or> CHR ''?'' \<in> set pat \<or> CHR ''{'' \<in> set pat)"

text \<open>The constraints of a rule other than its pattern: each must be met when it is set.\<close>

definition constraints_match ::
  "'x permission_env_scheme \<Rightarrow> PermissionRule \<Rightarrow> rstr \<Rightarrow> RuleMatchContext \<Rightarrow> bool" where
  "constraints_match env r tool_name ctx =
     ((pr_tool r = lower env tool_name \<or> file_write_family_matches env (pr_tool r) tool_name ctx)
      \<and> (case pr_op r of None \<Rightarrow> True | Some e \<Rightarrow>
           (case mc_op ctx of None \<Rightarrow> False | Some a \<Rightarrow> eq_ignore_ascii_case a e))
      \<and> (case pr_cwd_root r of None \<Rightarrow> True | Some e \<Rightarrow>
           (case mc_cwd ctx of None \<Rightarrow> False | Some cwd \<Rightarrow> cwd_matches_root env cwd e))
      \<and> (case pr_git_branch r of None \<Rightarrow> True | Some e \<Rightarrow> mc_git_branch ctx = Some e)
      \<and> (case pr_domain r of None \<Rightarrow> True | Some e \<Rightarrow>
           (case mc_domain ctx of None \<Rightarrow> False | Some a \<Rightarrow> domain_matches env e a))
      \<and> (case pr_capability r of None \<Rightarrow> True | Some e \<Rightarrow> capability_matches e ctx))"

definition target_is_constrained_path :: "PermissionRule \<Rightarrow> RuleMatchContext \<Rightarrow> bool" where
  "target_is_constrained_path r ctx =
     (pr_tool r \<noteq> ''bash'' \<and> mc_path ctx \<noteq> None \<and> pr_op r \<noteq> None)"

definition match_target ::
  "'x permission_env_scheme \<Rightarrow> PermissionRule \<Rightarrow> RuleMatchContext \<Rightarrow> rstr option" where
  "match_target env r ctx =
     (let resolved =
            (if target_is_constrained_path r ctx \<and> pr_cwd_root r \<noteq> None then
               (case (mc_path ctx, mc_cwd ctx) of
                  (Some path, Some cwd) \<Rightarrow>
                    map_option path_text (resolve_write_path_from_cwd env cwd path)
                | _ \<Rightarrow> None)
             else None) in
      if pr_tool r = ''bash'' then mc_command ctx
      else opt_or resolved (opt_or (mc_path ctx) (mc_command ctx)))"

definition prefix_pattern_matches :: "'x permission_env_scheme \<Rightarrow> rstr \<Rightarrow> rstr \<Rightarrow> bool" where
  "prefix_pattern_matches env pat cmd =
     (let lower_cmd = lower env cmd; lower_prefix = lower env pat in
      starts_with lower_cmd lower_prefix \<and> prefix_boundary (drop (length lower_prefix) lower_cmd))"

definition pattern_matches ::
  "'x permission_env_scheme \<Rightarrow> PermissionRule \<Rightarrow> RuleMatchContext \<Rightarrow> rstr \<Rightarrow> rstr \<Rightarrow> bool" where
  "pattern_matches env r ctx pat cmd =
     (if pr_pattern_match r = PatternExact then pat = cmd
      else if target_is_constrained_path r ctx then
        (if pr_pattern_match r = PatternPathPrefix then starts_with cmd pat
         else if pattern_contains_glob_metachars pat then glob_match pat cmd
         else pat = cmd)
      else if pr_pattern_match r = PatternPathPrefix then starts_with cmd pat
      else if pattern_contains_glob_metachars pat then glob_match pat (lower env cmd)
      else prefix_pattern_matches env pat cmd)"

definition matches_with_context ::
  "'x permission_env_scheme \<Rightarrow> PermissionRule \<Rightarrow> rstr \<Rightarrow> RuleMatchContext \<Rightarrow> bool" where
  "matches_with_context env r tool_name ctx =
     (constraints_match env r tool_name ctx
      \<and> (case (pr_pattern r, match_target env r ctx) of
           (None, _) \<Rightarrow> True
         | (Some pat, Some cmd) \<Rightarrow> pattern_matches env r ctx pat cmd
         | (Some _, None) \<Rightarrow> False))"

definition context_from_command_hint :: "rstr option \<Rightarrow> RuleMatchContext" where
  "context_from_command_hint command =
     \<lparr>mc_command = command, mc_path = command, mc_op = None, mc_cwd = None, mc_git_branch = None,
      mc_domain = None, mc_capability = None\<rparr>"

definition rule_matches :: "'x permission_env_scheme \<Rightarrow> PermissionRule \<Rightarrow> rstr \<Rightarrow> rstr option \<Rightarrow> bool" where
  "rule_matches env r tool_name command =
     matches_with_context env r tool_name (context_from_command_hint command)"

section \<open>Contexts from tool arguments\<close>

definition string_arg :: "json \<Rightarrow> rstr \<Rightarrow> rstr option" where
  "string_arg args key =
     (case Option.bind (json_get args key) json_as_str of
        None \<Rightarrow> None | Some s \<Rightarrow> if s = [] then None else Some s)"

definition bool_text :: "bool \<Rightarrow> rstr" where
  "bool_text b = (if b then ''true'' else ''false'')"

fun capability_from_keys :: "json \<Rightarrow> rstr list \<Rightarrow> rstr option" where
  "capability_from_keys args [] = None"
| "capability_from_keys args (key # keys) =
     (case json_get args key of
        None \<Rightarrow> capability_from_keys args keys
      | Some (JBool b) \<Rightarrow> Some (key @ ''='' @ bool_text b)
      | Some (JString s) \<Rightarrow> Some (key @ ''='' @ s)
      | Some _ \<Rightarrow> None)"

definition capability_from_args :: "json \<Rightarrow> rstr option" where
  "capability_from_args args = capability_from_keys args [''destructive'', ''read_only'', ''open_world'']"

fun split_once_scheme :: "rstr \<Rightarrow> rstr option" where
  "split_once_scheme [] = None"
| "split_once_scheme (c # s) =
     (if starts_with (c # s) ''://'' then Some (drop 3 (c # s)) else split_once_scheme s)"

definition domain_from_urlish :: "'x permission_env_scheme \<Rightarrow> rstr \<Rightarrow> rstr option" where
  "domain_from_urlish env val =
     (let trimmed = trim val in
      if trimmed = [] then None
      else
        (let without_scheme = (case split_once_scheme trimmed of None \<Rightarrow> trimmed | Some r \<Rightarrow> r);
             authority = trim (takeWhile (\<lambda>c. c \<notin> set ''/?#'') without_scheme);
             host = (case rfind_byte (CHR ''@'') authority of
                       None \<Rightarrow> authority | Some k \<Rightarrow> drop (Suc k) authority);
             bracketed = (case strip_prefix ''['' host of
                            None \<Rightarrow> None | Some s \<Rightarrow> map_option fst (split_once_byte (CHR '']'') s));
             host = (case bracketed of Some h \<Rightarrow> h | None \<Rightarrow> takeWhile (\<lambda>c. c \<noteq> CHR '':'') host);
             host = trim_end_dots (trim host) in
         if host = [] then None else Some (lower env host)))"

definition context_from_tool_args ::
  "'x permission_env_scheme \<Rightarrow> rstr \<Rightarrow> json \<Rightarrow> RuleMatchContext" where
  "context_from_tool_args env tool_name args =
     \<lparr>mc_command = command_hint_from_args args,
      mc_path = path_hint_from_args args,
      mc_op = Some (case gated_kind env tool_name None of
                Some GatedExecute \<Rightarrow> ''execute'' | Some GatedWrite \<Rightarrow> ''write'' | None \<Rightarrow> ''read''),
      mc_cwd = current_dir env,
      mc_git_branch = Option.bind (current_dir env) (current_git_branch env),
      mc_domain =
        opt_or (string_arg args ''domain'') (opt_or (string_arg args ''host'')
          (opt_or (Option.bind (string_arg args ''url'') (domain_from_urlish env))
            (Option.bind (string_arg args ''uri'') (domain_from_urlish env)))),
      mc_capability = opt_or (string_arg args ''capability'') (capability_from_args args)\<rparr>"

text \<open>An environment for concrete runs: no registered tool, no file.\<close>

definition bare_env :: permission_env where
  "bare_env = \<lparr>unicode_lower = (\<lambda>s. s), shell_reads = (\<lambda>_. False),
     current_dir = None, fs_exists = (\<lambda>_. False), fs_is_dir = (\<lambda>_. False), fs_read = (\<lambda>_. None),
     fs_canonicalize = (\<lambda>_. None)\<rparr>"

section \<open>Words\<close>

text \<open>A word: at least one character, none of them whitespace.\<close>

definition is_word :: "rstr \<Rightarrow> bool" where
  "is_word w = (w \<noteq> [] \<and> list_all (\<lambda>c. \<not> is_whitespace c) (utf8_chars w))"

lemma split_whitespace_loop_words:
  assumes "char_parts (cur_cs @ cs)" and "list_all (\<lambda>c. \<not> is_whitespace c) cur_cs"
  shows "list_all is_word (split_whitespace_loop (concat cur_cs) cs)"
  using assms
proof (induction cs arbitrary: cur_cs)
  case Nil
  then show ?case by (simp add: is_word_def utf8_chars_concat)
next
  case (Cons c cs)
  have word: "concat cur_cs \<noteq> [] \<Longrightarrow> is_word (concat cur_cs)"
    using Cons.prems char_parts_append [of cur_cs "c # cs"] by (simp add: is_word_def utf8_chars_concat)
  have parts: "char_parts ([] @ cs)" "char_parts ((cur_cs @ [c]) @ cs)"
    using Cons.prems(1) char_parts_append [of cur_cs "c # cs"] by simp_all
  show ?case
  proof (cases "is_whitespace c")
    case True
    then show ?thesis using Cons.IH [OF parts(1)] word by simp
  next
    case False
    then show ?thesis using Cons.IH [OF parts(2)] Cons.prems(2) by simp
  qed
qed

lemma split_whitespace_words: "list_all is_word (split_whitespace s)"
  unfolding split_whitespace_def
  using split_whitespace_loop_words [of "[]" "utf8_chars s"] by (simp add: char_parts_utf8_chars)

lemma split_whitespace_loop_word:
  "list_all (\<lambda>c. \<not> is_whitespace c) cs \<Longrightarrow>
     split_whitespace_loop cur (cs @ rest) = split_whitespace_loop (cur @ concat cs) rest"
  by (induction cs arbitrary: cur) simp_all

lemma split_two_words:
  assumes "is_word a" and "is_word b" and "\<not> is_cont_byte (hd b)"
  shows "split_whitespace (a @ '' '' @ b) = [a, b]"
proof -
  have "utf8_chars (a @ '' '' @ b) = utf8_chars a @ '' '' # utf8_chars b"
    using utf8_chars_append [of "'' '' @ b" a] utf8_chars_append [of b "'' ''"] assms
    by (simp add: is_cont_byte_def)
  moreover have "split_whitespace_loop [] (utf8_chars a @ '' '' # utf8_chars b) =
      split_whitespace_loop a ('' '' # utf8_chars b)"
    using split_whitespace_loop_word [of "utf8_chars a" "[]"] assms(1) by (simp add: is_word_def)
  moreover have "split_whitespace_loop [] (utf8_chars b) = [b]"
    using split_whitespace_loop_word [of "utf8_chars b" "[]" "[]"] assms(2) by (simp add: is_word_def)
  ultimately show ?thesis
    using assms(1) by (simp add: split_whitespace_def is_word_def is_whitespace_def)
qed

section \<open>Remembered prefixes\<close>

lemma argv_prefix_tokens_words:
  "argv_prefix_tokens tokens ws = Some ts \<Longrightarrow> set ts \<subseteq> set tokens \<union> set ws"
  by (induction tokens ws rule: argv_prefix_tokens.induct)
    (fastforce split: if_splits option.splits prod.splits)+

lemma normalized_argv_prefix_form:
  assumes "normalized_argv_prefix cmd \<noteq> []"
  obtains a b where "normalized_argv_prefix cmd = a @ '' '' @ b" "is_word a" "is_word b"
    "\<not> is_unsafe_shell_prefix_token a" "looks_like_subcommand b"
proof -
  let ?ws = "split_whitespace (strip_cd_wrapper (trim cmd))"
  obtain a b where ab: "argv_prefix_tokens [] ?ws = Some [a, b]" "\<not> is_unsafe_shell_prefix_token a"
      "looks_like_subcommand b" "normalized_argv_prefix cmd = a @ '' '' @ b"
    using assms by (auto simp: normalized_argv_prefix_def split: option.splits list.splits if_splits)
  moreover have "is_word a" "is_word b"
    using argv_prefix_tokens_words [OF ab(1)] split_whitespace_words [of "strip_cd_wrapper (trim cmd)"]
    by (auto simp: list_all_iff)
  ultimately show thesis using that by blast
qed

lemma subcommand_ascii: "looks_like_subcommand b \<Longrightarrow> list_all is_ascii b \<and> b \<noteq> []"
  by (auto simp: looks_like_subcommand_def is_ascii_lowercase_def is_ascii_digit_def is_ascii_def list_all_iff
      split: list.splits)

lemma trim_two_words:
  assumes "is_word a" and "is_word b" and "list_all is_ascii b"
  shows "trim (a @ '' '' @ b) = a @ '' '' @ b"
proof -
  obtain b' c where b: "b = b' @ [c]" using assms(2) by (cases b rule: rev_cases) (auto simp: is_word_def)
  have c: "is_ascii c" "\<not> is_whitespace [c]"
    using assms(2,3) b by (auto simp: is_word_def utf8_chars_ascii simp del: utf8_chars.simps)
  obtain x m where a: "utf8_chars a = x # m" "\<not> is_whitespace x"
    using assms(1) by (cases a) (auto simp: is_word_def)
  have "utf8_chars (a @ '' '' @ b) = utf8_chars a @ '' '' # map (\<lambda>c. [c]) b"
    using utf8_chars_append [of "'' '' @ b" a] utf8_chars_ascii [of "'' '' @ b"] assms(3)
    by (simp add: is_cont_byte_def is_ascii_def del: utf8_chars.simps)
  then show ?thesis using a c b by (intro trim_fixed [of _ x "m @ '' '' # map (\<lambda>c. [c]) b"]) simp_all
qed

text \<open>C39. A remembered command prefix never anchors a dangerous rule: when the prefix extractor
  returns a prefix, the bash allow rule built from it does not start with a shell, an interpreter
  or a wrapper.\<close>

theorem remembered_prefix_not_dangerous:
  assumes "normalized_argv_prefix cmd \<noteq> []"
  shows "\<not> is_dangerous_bash_allow_shape (rule_with_pattern env ''bash'' (normalized_argv_prefix cmd))"
proof -
  obtain a b where ab: "normalized_argv_prefix cmd = a @ '' '' @ b" "is_word a" "is_word b"
      "\<not> is_unsafe_shell_prefix_token a" "looks_like_subcommand b"
    using normalized_argv_prefix_form [OF assms] by blast
  have "list_all is_ascii b" "b \<noteq> []" using subcommand_ascii ab(5) by auto
  then have "\<not> is_cont_byte (hd b)" by (cases b) (auto simp: not_cont_ascii)
  then have "split_whitespace (a @ '' '' @ b) = [a, b]" using ab by (intro split_two_words)
  moreover have "trim (a @ '' '' @ b) = a @ '' '' @ b"
    using ab \<open>list_all is_ascii b\<close> by (intro trim_two_words)
  moreover have "a @ '' '' @ b \<noteq> ''*''" using \<open>b \<noteq> []\<close> by (cases a) (auto simp: Cons_eq_append_conv)
  ultimately show ?thesis
    using ab by (simp add: is_dangerous_bash_allow_shape_def rule_with_pattern_def rule_for_tool_def)
qed

theorem remembered_prefix_not_dangerous_witness:
  "normalized_argv_prefix ''cargo test --release'' = ''cargo test''
   \<and> \<not> is_dangerous_bash_allow_shape (rule_with_pattern bare_env ''bash'' ''cargo test'')"
proof -
  have p: "normalized_argv_prefix ''cargo test --release'' = ''cargo test''"
    by (simp add: normalized_argv_prefix_def strip_cd_wrapper_def trim_def split_whitespace_def
        utf8_chars_ascii is_ascii_def is_whitespace_def starts_with_def looks_like_env_assignment_def
        split_once_byte_def is_unsafe_shell_prefix_token_def to_ascii_lowercase_def ascii_lower_def
        looks_like_subcommand_def is_ascii_lowercase_def del: utf8_chars.simps)
  show ?thesis
    using p remembered_prefix_not_dangerous [of "''cargo test --release''" bare_env] by simp
qed

text \<open>An unparsable rule fails closed: the rule that stands for it matches no tool except one
  that has the name of the sentinel.\<close>

theorem unparsable_rule_matches_nothing:
  assumes "rule_try_parse env s = Inl e"
  shows "matches_with_context env (rule_parse env s) tool_name ctx \<longleftrightarrow>
    lower env tool_name = ''__invalid_permission_rule__''"
  using assms
  by (auto simp: rule_parse_def matches_with_context_def constraints_match_def invalid_rule_def
      rule_for_tool_def file_write_family_matches_def)

theorem unparsable_rule_matches_nothing_witness:
  "rule_try_parse bare_env ''Bash'' = Inl (MissingArgumentList ''Bash'')
    \<and> \<not> matches_with_context bare_env (rule_parse bare_env ''Bash'') ''bash'' (context_from_command_hint None)"
proof -
  have "trim ''Bash'' = ''Bash''"
    by (simp add: trim_def utf8_chars_ascii is_ascii_def is_whitespace_def del: utf8_chars.simps)
  then have e: "rule_try_parse bare_env ''Bash'' = Inl (MissingArgumentList ''Bash'')"
    by (simp add: rule_try_parse_def parse_rule_def)
  show ?thesis
    using e unparsable_rule_matches_nothing [OF e, of "''bash''"]
    by (simp add: lower_def to_lowercase_def is_ascii_def to_ascii_lowercase_def ascii_lower_def)
qed

section \<open>Prefix rules\<close>

lemma lower_ascii: "list_all is_ascii s \<Longrightarrow> lower env s = to_ascii_lowercase s"
  by (simp add: lower_def to_lowercase_def)

lemma bash_hint_match:
  "rule_matches env (rule_with_pattern env ''bash'' p) ''bash'' (Some cmd) \<longleftrightarrow>
     (if pattern_contains_glob_metachars p then glob_match p (lower env cmd)
      else prefix_pattern_matches env p cmd)"
proof -
  have "lower env ''bash'' = ''bash''"
    by (simp add: lower_def to_lowercase_def is_ascii_def to_ascii_lowercase_def ascii_lower_def)
  then show ?thesis
    by (simp add: rule_matches_def matches_with_context_def constraints_match_def rule_with_pattern_def
        rule_for_tool_def match_target_def context_from_command_hint_def pattern_matches_def
        target_is_constrained_path_def)
qed

lemma is_ascii_to_lower: "list_all is_ascii s \<Longrightarrow> list_all is_ascii (to_ascii_lowercase s)"
  by (simp add: to_ascii_lowercase_def list_all_iff is_ascii_lower)

lemma ascii_lower_same: "\<not> (65 \<le> (of_char c :: nat) \<and> (of_char c :: nat) \<le> 90) \<Longrightarrow> ascii_lower c = c"
  by (auto simp: ascii_lower_def)

definition boundary_char :: "char \<Rightarrow> bool" where
  "boundary_char c = (is_whitespace [c] \<or> c \<in> set ''-=;|&><'')"

lemma prefix_boundary_ascii:
  "list_all is_ascii s \<Longrightarrow> prefix_boundary s \<longleftrightarrow> s = [] \<or> boundary_char (hd s)"
  by (cases s)
    (auto simp: prefix_boundary_def starts_with_whitespace_def boundary_char_def utf8_chars_ascii
      simp del: utf8_chars.simps)

lemma boundary_char_lower: "boundary_char (ascii_lower c) \<longleftrightarrow> boundary_char c"
proof (cases "65 \<le> (of_char c :: nat) \<and> (of_char c :: nat) \<le> 90")
  case True
  let ?n = "of_char c :: nat"
  have lower: "of_char (ascii_lower c) = ?n + 32" using True by (simp add: ascii_lower_def)
  have big: "\<not> boundary_char d" if "65 \<le> (of_char d :: nat)" "(of_char d :: nat) \<le> 122" for d
    using that by (auto simp: boundary_char_def is_whitespace_def)
  show ?thesis using big [of c] big [of "ascii_lower c"] lower True by auto
next
  case False
  then show ?thesis by (simp add: ascii_lower_same)
qed

text \<open>A plain bash rule is a case-insensitive prefix with a boundary after it, and a command
  separator is a boundary: an allow rule for a command matches that command followed by a
  separator and anything else.\<close>

theorem prefix_rule_exact:
  assumes "list_all is_ascii p" and "list_all is_ascii cmd" and "\<not> pattern_contains_glob_metachars p"
  shows "rule_matches env (rule_with_pattern env ''bash'' p) ''bash'' (Some cmd) \<longleftrightarrow>
    (\<exists>q rest. cmd = q @ rest \<and> eq_ignore_ascii_case q p \<and> (rest = [] \<or> boundary_char (hd rest)))"
proof -
  let ?L = to_ascii_lowercase
  have "rule_matches env (rule_with_pattern env ''bash'' p) ''bash'' (Some cmd) \<longleftrightarrow>
      (\<exists>t. ?L cmd = ?L p @ t \<and> (t = [] \<or> boundary_char (hd t)))"
    unfolding bash_hint_match prefix_pattern_matches_def
    using assms is_ascii_to_lower [OF assms(2)]
    by (auto simp: Let_def lower_ascii starts_with_iff prefix_boundary_ascii)
  also have "\<dots> \<longleftrightarrow> (\<exists>q rest. cmd = q @ rest \<and> ?L q = ?L p \<and> (rest = [] \<or> boundary_char (hd rest)))"
  proof
    assume "\<exists>t. ?L cmd = ?L p @ t \<and> (t = [] \<or> boundary_char (hd t))"
    then obtain t where t: "?L cmd = ?L p @ t" "t = [] \<or> boundary_char (hd t)" by blast
    have "map ascii_lower cmd = ?L p @ t" using t(1) by (simp add: to_ascii_lowercase_def)
    then obtain q rest where "cmd = q @ rest" "?L p = map ascii_lower q" "t = map ascii_lower rest"
      unfolding map_eq_append_conv by blast
    then have q: "cmd = q @ rest" "?L q = ?L p" "?L rest = t" by (simp_all add: to_ascii_lowercase_def)
    have "rest = [] \<or> boundary_char (hd rest)"
      using t(2) q(3) by (cases rest) (auto simp: to_ascii_lowercase_def boundary_char_lower)
    with q(1,2) show "\<exists>q rest. cmd = q @ rest \<and> ?L q = ?L p \<and> (rest = [] \<or> boundary_char (hd rest))"
      by (intro exI [of _ q] exI [of _ rest]) simp
  next
    assume "\<exists>q rest. cmd = q @ rest \<and> ?L q = ?L p \<and> (rest = [] \<or> boundary_char (hd rest))"
    then obtain q rest where "cmd = q @ rest" "?L q = ?L p" "rest = [] \<or> boundary_char (hd rest)" by blast
    then show "\<exists>t. ?L cmd = ?L p @ t \<and> (t = [] \<or> boundary_char (hd t))"
      by (intro exI [of _ "?L rest"]) (cases rest; simp add: to_ascii_lowercase_def boundary_char_lower)
  qed
  finally show ?thesis unfolding eq_ignore_ascii_case_def .
qed

theorem prefix_rule_exact_witness:
  "rule_matches bare_env (rule_with_pattern bare_env ''bash'' ''npm test'') ''bash''
     (Some (''npm test; rm -rf src''))"
  by (subst prefix_rule_exact)
    (simp_all add: is_ascii_def pattern_contains_glob_metachars_def eq_ignore_ascii_case_def
      boundary_char_def exI [of _ "''npm test''"])

text \<open>A glob rule is compared with the lower-cased command although the pattern keeps its
  case: a pattern whose literal start contains an upper-case letter matches no command, so a deny
  rule of that shape never fires.\<close>

theorem uppercase_glob_never_matches:
  assumes "list_all is_ascii (l @ r)" and "literal_pattern (utf8_chars l)"
    and "\<exists>c \<in> set l. 65 \<le> (of_char c :: nat) \<and> (of_char c :: nat) \<le> 90"
    and "pattern_contains_glob_metachars r" and "list_all is_ascii cmd"
  shows "\<not> rule_matches env (rule_with_pattern env ''bash'' (l @ r)) ''bash'' (Some cmd)"
proof
  assume m: "rule_matches env (rule_with_pattern env ''bash'' (l @ r)) ''bash'' (Some cmd)"
  have "pattern_contains_glob_metachars (l @ r)" using assms(4) by (auto simp: pattern_contains_glob_metachars_def)
  then have "glob_match_chars (utf8_chars l @ utf8_chars r) (utf8_chars (to_ascii_lowercase cmd))"
    using m assms utf8_chars_ascii [of "l @ r"] utf8_chars_ascii [of l] utf8_chars_ascii [of r]
    by (simp add: bash_hint_match glob_match_def lower_ascii del: utf8_chars.simps)
  then obtain t where "utf8_chars (to_ascii_lowercase cmd) = utf8_chars l @ t"
    unfolding glob_literal_append [OF assms(2)] by blast
  then have "map (\<lambda>c. [c]) (to_ascii_lowercase cmd) = map (\<lambda>c. [c]) l @ t"
    using assms(1,5) is_ascii_to_lower by (simp add: utf8_chars_ascii del: utf8_chars.simps)
  then have "concat (map (\<lambda>c. [c]) (to_ascii_lowercase cmd)) = concat (map (\<lambda>c. [c]) l @ t)" by simp
  then have "to_ascii_lowercase cmd = l @ concat t" by simp
  then have "set l \<subseteq> set (to_ascii_lowercase cmd)" by simp
  moreover have "\<not> (65 \<le> (of_char c :: nat) \<and> (of_char c :: nat) \<le> 90)"
    if "c \<in> set (to_ascii_lowercase cmd)" for c
    using that by (auto simp: to_ascii_lowercase_def ascii_lower_def)
  ultimately show False using assms(3) by blast
qed

theorem uppercase_glob_never_matches_witness:
  "\<not> rule_matches bare_env (rule_with_pattern bare_env ''bash'' (''git push origin HEAD'' @ ''*'')) ''bash''
     (Some ''git push origin HEAD'')"
  by (rule uppercase_glob_never_matches)
    (simp_all add: is_ascii_def literal_pattern_def utf8_chars_ascii pattern_contains_glob_metachars_def
      del: utf8_chars.simps)

end
