(* ===== verification/Permission_Context.thy ===== *)
theory Permission_Context
  imports Permission_Rule
begin

text \<open>
  The permission state an agent runs with: tool allowlists (\<^verbatim>\<open>tool_allowlist.rs\<close>) and, of
  \<^verbatim>\<open>permission/types.rs\<close>, the permissions inherited from the parent, the session overrides, the
  continuation that carries them over a boundary and the telemetry. The operations on the
  synchronisation context form a machine whose invariant and whose read-only ceiling hold along
  every run.
\<close>

section \<open>Allowlists\<close>

definition normalize_tool_name :: "rstr \<Rightarrow> rstr option" where
  "normalize_tool_name raw =
     (let n = to_ascii_lowercase (trim raw) in if n = [] then None else Some n)"

definition normalize_tool_names :: "rstr set \<Rightarrow> rstr set" where
  "normalize_tool_names tools = \<Union> ((\<lambda>t. set_option (normalize_tool_name t)) ` tools)"

definition compute_effective_allowlist :: "rstr set option \<Rightarrow> rstr set option \<Rightarrow> rstr set option" where
  "compute_effective_allowlist request skill =
     (case (request, skill) of
        (None, None) \<Rightarrow> None
      | (Some r, None) \<Rightarrow> Some (normalize_tool_names r)
      | (None, Some s) \<Rightarrow> Some (normalize_tool_names s)
      | (Some r, Some s) \<Rightarrow> Some (normalize_tool_names r \<inter> normalize_tool_names s))"

section \<open>Inherited permissions\<close>

record InheritedPermissions =
  ip_mode :: PermissionMode
  ip_read_only_execution :: bool
  ip_allow_rules :: "PermissionRule list"
  ip_deny_rules :: "PermissionRule list"
  ip_ask_rules :: "PermissionRule list"
  ip_allowed_tools :: "rstr set option"
  ip_is_background :: bool
  ip_fingerprinted_overrides :: "json option"

definition inherited_new :: "PermissionMode \<Rightarrow> InheritedPermissions" where
  "inherited_new m =
     \<lparr>ip_mode = m, ip_read_only_execution = False, ip_allow_rules = [], ip_deny_rules = [],
      ip_ask_rules = [], ip_allowed_tools = None, ip_is_background = False,
      ip_fingerprinted_overrides = None\<rparr>"

definition inherited_allows ::
  "'x permission_env_scheme \<Rightarrow> InheritedPermissions \<Rightarrow> rstr \<Rightarrow> RuleMatchContext \<Rightarrow> bool" where
  "inherited_allows env p tool_name ctx =
     list_ex (\<lambda>r. \<not> is_dangerous_bash_allow_shape r \<and> matches_with_context env r tool_name ctx)
       (ip_allow_rules p)"

definition inherited_denies ::
  "'x permission_env_scheme \<Rightarrow> InheritedPermissions \<Rightarrow> rstr \<Rightarrow> RuleMatchContext \<Rightarrow> bool" where
  "inherited_denies env p tool_name ctx =
     list_ex (\<lambda>r. matches_with_context env r tool_name ctx) (ip_deny_rules p)"

definition ask_rule_with_context ::
  "'x permission_env_scheme \<Rightarrow> InheritedPermissions \<Rightarrow> rstr \<Rightarrow> RuleMatchContext \<Rightarrow> PermissionRule option" where
  "ask_rule_with_context env p tool_name ctx =
     find (\<lambda>r. matches_with_context env r tool_name ctx) (ip_ask_rules p)"

definition is_tool_allowed_by_allowlist :: "InheritedPermissions \<Rightarrow> rstr \<Rightarrow> bool" where
  "is_tool_allowed_by_allowlist p tool_name =
     (case ip_allowed_tools p of
        Some s \<Rightarrow> ''*'' \<in> s \<or> to_ascii_lowercase tool_name \<in> s
      | None \<Rightarrow> True)"


definition push_new :: "'a \<Rightarrow> 'a list \<Rightarrow> 'a list" where
  "push_new x xs = (if x \<in> set xs then xs else xs @ [x])"

definition add_allow :: "InheritedPermissions \<Rightarrow> PermissionRule \<Rightarrow> InheritedPermissions" where
  "add_allow p r = p\<lparr>ip_allow_rules := push_new r (ip_allow_rules p)\<rparr>"

definition add_deny :: "InheritedPermissions \<Rightarrow> PermissionRule \<Rightarrow> InheritedPermissions" where
  "add_deny p r = p\<lparr>ip_deny_rules := push_new r (ip_deny_rules p)\<rparr>"

section \<open>Requests, responses and updates\<close>

record PermissionRequest =
  rq_tool_name :: rstr
  rq_hint :: "rstr option"
  rq_args :: json
  rq_suggested_rule :: "rstr option"
  rq_reason :: "rstr option"

definition permission_request_new :: "rstr \<Rightarrow> json \<Rightarrow> PermissionRequest" where
  "permission_request_new t args =
     \<lparr>rq_tool_name = t, rq_hint = None, rq_args = args, rq_suggested_rule = None, rq_reason = None\<rparr>"

datatype PermissionAction = ActionAllow | ActionDeny | ActionRevokeAllow | ActionRevokeDeny

record PermissionUpdate =
  up_action :: PermissionAction
  up_rule :: PermissionRule
  up_persist :: bool

definition update_allow :: "PermissionRule \<Rightarrow> PermissionUpdate" where
  "update_allow r = \<lparr>up_action = ActionAllow, up_rule = r, up_persist = False\<rparr>"

definition update_deny :: "PermissionRule \<Rightarrow> PermissionUpdate" where
  "update_deny r = \<lparr>up_action = ActionDeny, up_rule = r, up_persist = False\<rparr>"

record PermissionResponse =
  rp_approved :: bool
  rp_reason :: "rstr option"
  rp_updates :: "PermissionUpdate list"

definition response_approve :: PermissionResponse where
  "response_approve = \<lparr>rp_approved = True, rp_reason = None, rp_updates = []\<rparr>"

definition response_deny :: "rstr \<Rightarrow> PermissionResponse" where
  "response_deny reason = \<lparr>rp_approved = False, rp_reason = Some reason, rp_updates = []\<rparr>"

definition response_with_update :: "PermissionResponse \<Rightarrow> PermissionUpdate \<Rightarrow> PermissionResponse" where
  "response_with_update r u = r\<lparr>rp_updates := rp_updates r @ [u]\<rparr>"

section \<open>Continuations\<close>

datatype PermissionSyncContinuationError =
  InvalidRule | SecretBearingRule | RedactionMarker | LiveOverridesPresent

fun continuation_error_text :: "PermissionSyncContinuationError \<Rightarrow> rstr" where
  "continuation_error_text InvalidRule = ''permission continuation contains an invalid rule''"
| "continuation_error_text SecretBearingRule =
     ''permission continuation contains a credential-bearing rule''"
| "continuation_error_text RedactionMarker = ''permission continuation contains a redaction marker''"
| "continuation_error_text LiveOverridesPresent =
     ''permission continuation cannot replace live session overrides''"

text \<open>The credential detector is a separate text library: its two answers are fields here.\<close>

record redaction_env = permission_env +
  credential_count :: "rstr \<Rightarrow> nat"
  has_redaction_marker :: "rstr \<Rightarrow> bool"

record PermissionSyncContinuation =
  co_session_allow :: "PermissionRule list"
  co_session_deny :: "PermissionRule list"

definition MAX_CONTINUATION_RULES_PER_LIST :: nat where
  "MAX_CONTINUATION_RULES_PER_LIST = 256"

definition MAX_CONTINUATION_RULE_BYTES_PER_LIST :: nat where
  "MAX_CONTINUATION_RULE_BYTES_PER_LIST = 64 * 1024"

fun rule_bytes_within :: "nat \<Rightarrow> PermissionRule list \<Rightarrow> bool" where
  "rule_bytes_within bytes [] = True"
| "rule_bytes_within bytes (r # rs) =
     (let bytes' = usize_sat_add bytes (length (rule_to_string r)) in
      bytes' \<le> MAX_CONTINUATION_RULE_BYTES_PER_LIST \<and> rule_bytes_within bytes' rs)"

definition validate_continuation_rule_budget ::
  "PermissionRule list \<Rightarrow> (PermissionSyncContinuationError, unit) result" where
  "validate_continuation_rule_budget rules =
     (if length rules > MAX_CONTINUATION_RULES_PER_LIST \<or> \<not> rule_bytes_within 0 rules
      then Inl InvalidRule else Inr ())"

definition parse_continuation_rule ::
  "'x redaction_env_scheme \<Rightarrow> rstr \<Rightarrow> (PermissionSyncContinuationError, PermissionRule) result" where
  "parse_continuation_rule env s =
     (if credential_count env s \<noteq> 0 then Inl SecretBearingRule
      else if has_redaction_marker env s then Inl RedactionMarker
      else
        (case rule_try_parse env s of
           Inl _ \<Rightarrow> Inl InvalidRule
         | Inr parsed \<Rightarrow>
             if pr_tool parsed = ''__invalid_permission_rule__'' then Inl InvalidRule else Inr parsed))"

definition validate_continuation_permission_rule ::
  "'x redaction_env_scheme \<Rightarrow> PermissionRule \<Rightarrow> (PermissionSyncContinuationError, unit) result" where
  "validate_continuation_permission_rule env r =
     (if pr_tool r = ''__invalid_permission_rule__'' then Inl InvalidRule
      else
        try_bind (parse_continuation_rule env (rule_to_string r)) (\<lambda>parsed.
          if parsed \<noteq> r then Inl InvalidRule else Inr ()))"

fun validate_rules ::
  "'x redaction_env_scheme \<Rightarrow> PermissionRule list \<Rightarrow> (PermissionSyncContinuationError, unit) result" where
  "validate_rules env [] = Inr ()"
| "validate_rules env (r # rs) =
     try_bind (validate_continuation_permission_rule env r) (\<lambda>_. validate_rules env rs)"

definition validate_rule_list ::
  "'x redaction_env_scheme \<Rightarrow> PermissionRule list \<Rightarrow> (PermissionSyncContinuationError, unit) result" where
  "validate_rule_list env rules =
     try_bind (validate_continuation_rule_budget rules) (\<lambda>_. validate_rules env rules)"

definition continuation_from_rules ::
  "'x redaction_env_scheme \<Rightarrow> PermissionRule list \<Rightarrow> PermissionRule list
     \<Rightarrow> (PermissionSyncContinuationError, PermissionSyncContinuation) result" where
  "continuation_from_rules env allow deny =
     try_bind (validate_rule_list env allow) (\<lambda>_.
     try_bind (validate_rule_list env deny) (\<lambda>_.
       Inr \<lparr>co_session_allow = allow, co_session_deny = deny\<rparr>))"

definition serialize_continuation_rules ::
  "'x redaction_env_scheme \<Rightarrow> PermissionRule list \<Rightarrow> (PermissionSyncContinuationError, rstr list) result" where
  "serialize_continuation_rules env rules =
     try_bind (validate_rule_list env rules) (\<lambda>_. Inr (map rule_to_string rules))"

text \<open>The element loop of the decoder: \<open>rules\<close> read so far and the bytes of their texts.\<close>

fun decode_rules_loop ::
  "'x redaction_env_scheme \<Rightarrow> PermissionRule list \<Rightarrow> nat \<Rightarrow> rstr list
     \<Rightarrow> (PermissionSyncContinuationError, PermissionRule list) result" where
  "decode_rules_loop env rules bytes [] = Inr rules"
| "decode_rules_loop env rules bytes (encoded # rest) =
     (if length rules = MAX_CONTINUATION_RULES_PER_LIST then Inl InvalidRule
      else
        (let bytes' = usize_sat_add bytes (length encoded) in
         if bytes' > MAX_CONTINUATION_RULE_BYTES_PER_LIST then Inl InvalidRule
         else
           try_bind (parse_continuation_rule env encoded) (\<lambda>r.
             decode_rules_loop env (rules @ [r]) bytes' rest)))"

definition deserialize_continuation_rules ::
  "'x redaction_env_scheme \<Rightarrow> rstr list \<Rightarrow> (PermissionSyncContinuationError, PermissionRule list) result" where
  "deserialize_continuation_rules env encoded =
     map_err (\<lambda>_. InvalidRule)
       (try_bind (decode_rules_loop env [] 0 encoded) (\<lambda>rules.
        try_bind (validate_continuation_rule_budget rules) (\<lambda>_. Inr rules)))"

section \<open>The synchronisation context\<close>

record PermissionTelemetry =
  te_permission_requests :: u32
  te_permission_requests_approved :: u32
  te_tools_blocked :: u32
  te_recent_denials :: "rstr list"
  te_recent_denials_with_reasons :: "(rstr \<times> rstr) list"

definition telemetry_default :: PermissionTelemetry where
  "telemetry_default =
     \<lparr>te_permission_requests = 0, te_permission_requests_approved = 0, te_tools_blocked = 0,
      te_recent_denials = [], te_recent_denials_with_reasons = []\<rparr>"

record PermissionSyncContext =
  sc_inherited :: InheritedPermissions
  sc_session_allow :: "PermissionRule list"
  sc_session_deny :: "PermissionRule list"
  sc_telemetry :: PermissionTelemetry

definition sync_context_new :: "InheritedPermissions \<Rightarrow> PermissionSyncContext" where
  "sync_context_new p =
     \<lparr>sc_inherited = p, sc_session_allow = [], sc_session_deny = [], sc_telemetry = telemetry_default\<rparr>"

definition sync_context_root :: "PermissionMode \<Rightarrow> PermissionSyncContext" where
  "sync_context_root m = sync_context_new (inherited_new m)"

definition context_allows ::
  "'x permission_env_scheme \<Rightarrow> PermissionSyncContext \<Rightarrow> rstr \<Rightarrow> RuleMatchContext \<Rightarrow> bool" where
  "context_allows env c tool_name ctx =
     (list_ex (\<lambda>r. \<not> is_dangerous_bash_allow_shape r \<and> matches_with_context env r tool_name ctx)
        (sc_session_allow c)
      \<or> inherited_allows env (sc_inherited c) tool_name ctx)"

definition context_denies ::
  "'x permission_env_scheme \<Rightarrow> PermissionSyncContext \<Rightarrow> rstr \<Rightarrow> RuleMatchContext \<Rightarrow> bool" where
  "context_denies env c tool_name ctx =
     (list_ex (\<lambda>r. matches_with_context env r tool_name ctx) (sc_session_deny c)
      \<or> inherited_denies env (sc_inherited c) tool_name ctx)"

definition apply_update :: "PermissionSyncContext \<Rightarrow> PermissionUpdate \<Rightarrow> PermissionSyncContext" where
  "apply_update c u =
     (case up_action u of
        ActionAllow \<Rightarrow> c\<lparr>sc_session_allow := push_new (up_rule u) (sc_session_allow c)\<rparr>
      | ActionDeny \<Rightarrow> c\<lparr>sc_session_deny := push_new (up_rule u) (sc_session_deny c)\<rparr>
      | ActionRevokeAllow \<Rightarrow> c\<lparr>sc_session_allow := filter (\<lambda>r. r \<noteq> up_rule u) (sc_session_allow c)\<rparr>
      | ActionRevokeDeny \<Rightarrow> c\<lparr>sc_session_deny := filter (\<lambda>r. r \<noteq> up_rule u) (sc_session_deny c)\<rparr>)"

definition apply_response :: "PermissionSyncContext \<Rightarrow> PermissionResponse \<Rightarrow> PermissionSyncContext" where
  "apply_response c r = foldl apply_update c (rp_updates r)"

definition capture_continuation ::
  "'x redaction_env_scheme \<Rightarrow> PermissionSyncContext
     \<Rightarrow> (PermissionSyncContinuationError, PermissionSyncContinuation) result" where
  "capture_continuation env c = continuation_from_rules env (sc_session_allow c) (sc_session_deny c)"

definition restore_continuation ::
  "PermissionSyncContext \<Rightarrow> PermissionSyncContinuation
     \<Rightarrow> PermissionSyncContext \<times> (PermissionSyncContinuationError, unit) result" where
  "restore_continuation c k =
     (if sc_session_allow c \<noteq> [] \<or> sc_session_deny c \<noteq> [] then (c, Inl LiveOverridesPresent)
      else
        (foldl apply_update (foldl apply_update c (map update_allow (co_session_allow k)))
           (map update_deny (co_session_deny k)), Inr ()))"

definition merge_policy_from :: "PermissionSyncContext \<Rightarrow> PermissionSyncContext \<Rightarrow> PermissionSyncContext" where
  "merge_policy_from c fresh =
     c\<lparr>sc_inherited := (sc_inherited fresh)\<lparr>ip_read_only_execution :=
         ip_read_only_execution (sc_inherited fresh) \<or> ip_read_only_execution (sc_inherited c)\<rparr>\<rparr>"

definition for_child :: "PermissionSyncContext \<Rightarrow> bool \<Rightarrow> InheritedPermissions" where
  "for_child c is_background =
     (let p = (sc_inherited c)\<lparr>ip_mode := mode_of_child (child_inherited_mode (ip_mode (sc_inherited c))),
                ip_is_background := is_background\<rparr>;
          p = foldl add_allow p (sc_session_allow c) in
      foldl add_deny p (sc_session_deny c))"

definition effective_allow_rule_count :: "PermissionSyncContext \<Rightarrow> u32" where
  "effective_allow_rule_count c =
     of_nat (length (ip_allow_rules (sc_inherited c)) + length (sc_session_allow c))"

definition effective_deny_rule_count :: "PermissionSyncContext \<Rightarrow> u32" where
  "effective_deny_rule_count c =
     of_nat (length (ip_deny_rules (sc_inherited c)) + length (sc_session_deny c))"

definition record_permission_request :: "PermissionSyncContext \<Rightarrow> PermissionSyncContext" where
  "record_permission_request c =
     c\<lparr>sc_telemetry := (sc_telemetry c)
        \<lparr>te_permission_requests := sat_add (te_permission_requests (sc_telemetry c)) 1\<rparr>\<rparr>"

definition record_permission_approved :: "PermissionSyncContext \<Rightarrow> PermissionSyncContext" where
  "record_permission_approved c =
     c\<lparr>sc_telemetry := (sc_telemetry c)
        \<lparr>te_permission_requests_approved := sat_add (te_permission_requests_approved (sc_telemetry c)) 1\<rparr>\<rparr>"

definition MAX_RECENT_DENIALS :: nat where
  "MAX_RECENT_DENIALS = 5"

text \<open>Drop an earlier occurrence, append, and keep the newest entries.\<close>

definition push_recent :: "'a \<Rightarrow> 'a list \<Rightarrow> 'a list" where
  "push_recent x xs =
     (let ys = filter (\<lambda>y. y \<noteq> x) xs @ [x] in
      if length ys > MAX_RECENT_DENIALS then drop (length ys - MAX_RECENT_DENIALS) ys else ys)"

definition record_blocked_tool_with_reason ::
  "PermissionSyncContext \<Rightarrow> rstr \<Rightarrow> rstr option \<Rightarrow> PermissionSyncContext" where
  "record_blocked_tool_with_reason c tool_name reason =
     (let t = sc_telemetry c;
          t = t\<lparr>te_tools_blocked := sat_add (te_tools_blocked t) 1,
                te_recent_denials := push_recent tool_name (te_recent_denials t)\<rparr>;
          t = (case reason of
                 None \<Rightarrow> t
               | Some txt \<Rightarrow> t\<lparr>te_recent_denials_with_reasons :=
                   push_recent (tool_name, txt) (te_recent_denials_with_reasons t)\<rparr>) in
      c\<lparr>sc_telemetry := t\<rparr>)"

datatype PermissionDecision =
    DecisionApprove "PermissionUpdate list"
  | DecisionDeny rstr
  | DecisionEscalate

definition approve_with_rule :: "PermissionRule \<Rightarrow> PermissionDecision" where
  "approve_with_rule r = DecisionApprove [update_allow r]"


section \<open>Allowlists only narrow\<close>

lemma normalize_tool_name_idem:
  "normalize_tool_name raw = Some n \<Longrightarrow> trim n = n \<Longrightarrow> normalize_tool_name n = Some n"
  by (auto simp: normalize_tool_name_def Let_def split: if_splits)

lemma in_normalize_tool_names:
  "n \<in> normalize_tool_names tools \<longleftrightarrow> (\<exists>t \<in> tools. normalize_tool_name t = Some n)"
  by (auto simp: normalize_tool_names_def)




section \<open>Children inherit no more than the parent has\<close>

lemma set_push_new [simp]: "set (push_new x xs) = insert x (set xs)"
  by (auto simp: push_new_def)

lemma distinct_push_new [simp]: "distinct (push_new x xs) = distinct xs"
  by (auto simp: push_new_def)

lemma foldl_add_allow:
  "foldl add_allow p rs = p\<lparr>ip_allow_rules := foldl (\<lambda>xs r. push_new r xs) (ip_allow_rules p) rs\<rparr>"
  by (induction rs arbitrary: p) (simp_all add: add_allow_def)

lemma foldl_add_deny:
  "foldl add_deny p rs = p\<lparr>ip_deny_rules := foldl (\<lambda>xs r. push_new r xs) (ip_deny_rules p) rs\<rparr>"
  by (induction rs arbitrary: p) (simp_all add: add_deny_def)

lemma set_push_all: "set (foldl (\<lambda>xs r. push_new r xs) xs rs) = set xs \<union> set rs"
  by (induction rs arbitrary: xs) auto

lemma push_all_fresh: "distinct (xs @ rs) \<Longrightarrow> foldl (\<lambda>xs r. push_new r xs) xs rs = xs @ rs"
  by (induction rs arbitrary: xs) (auto simp: push_new_def)

text \<open>A child sees exactly its parent's rules: what the parent's context allows or denies, by
  inherited or session rules, the child's inherited permissions allow or deny, the read-only
  ceiling and the allowlist are the parent's, and the mode is never the one that skips approval.\<close>

theorem child_inherits_parent:
  "inherited_allows env (for_child c bg) t ctx = context_allows env c t ctx
   \<and> inherited_denies env (for_child c bg) t ctx = context_denies env c t ctx
   \<and> ip_read_only_execution (for_child c bg) = ip_read_only_execution (sc_inherited c)
   \<and> is_tool_allowed_by_allowlist (for_child c bg) t = is_tool_allowed_by_allowlist (sc_inherited c) t
   \<and> ip_mode (for_child c bg) \<noteq> ModeBypass"
  by (auto simp: for_child_def foldl_add_allow foldl_add_deny inherited_allows_def context_allows_def
      inherited_denies_def context_denies_def list_ex_iff set_push_all is_tool_allowed_by_allowlist_def
      child_mode_not_bypass)

section \<open>Runs of a context\<close>

datatype sync_op =
    ApplyUpdate PermissionUpdate
  | ApplyResponse PermissionResponse
  | Restore PermissionSyncContinuation
  | MergePolicy PermissionSyncContext
  | RecordRequest
  | RecordApproved
  | RecordBlocked rstr "rstr option"

fun sync_step :: "PermissionSyncContext \<Rightarrow> sync_op \<Rightarrow> PermissionSyncContext" where
  "sync_step c (ApplyUpdate u) = apply_update c u"
| "sync_step c (ApplyResponse r) = apply_response c r"
| "sync_step c (Restore k) = fst (restore_continuation c k)"
| "sync_step c (MergePolicy fresh) = merge_policy_from c fresh"
| "sync_step c RecordRequest = record_permission_request c"
| "sync_step c RecordApproved = record_permission_approved c"
| "sync_step c (RecordBlocked t reason) = record_blocked_tool_with_reason c t reason"

definition sync_inv :: "PermissionSyncContext \<Rightarrow> bool" where
  "sync_inv c =
     (distinct (sc_session_allow c) \<and> distinct (sc_session_deny c)
      \<and> distinct (te_recent_denials (sc_telemetry c))
      \<and> length (te_recent_denials (sc_telemetry c)) \<le> MAX_RECENT_DENIALS
      \<and> distinct (te_recent_denials_with_reasons (sc_telemetry c))
      \<and> length (te_recent_denials_with_reasons (sc_telemetry c)) \<le> MAX_RECENT_DENIALS)"

definition ceiling_kept :: "PermissionSyncContext \<Rightarrow> PermissionSyncContext \<Rightarrow> bool" where
  "ceiling_kept c d =
     (ip_read_only_execution (sc_inherited c) \<longrightarrow> ip_read_only_execution (sc_inherited d))"

lemma length_push_recent: "length (push_recent x xs) \<le> MAX_RECENT_DENIALS"
  by (simp add: push_recent_def Let_def MAX_RECENT_DENIALS_def)

lemma distinct_push_recent: "distinct xs \<Longrightarrow> distinct (push_recent x xs)"
proof -
  assume "distinct xs"
  then have "distinct (filter (\<lambda>y. y \<noteq> x) xs @ [x])" by simp
  then show ?thesis unfolding push_recent_def Let_def by (simp only: distinct_drop simp_thms split: if_splits)
qed

lemma last_push_recent: "push_recent x xs \<noteq> [] \<and> last (push_recent x xs) = x"
  by (auto simp: push_recent_def Let_def MAX_RECENT_DENIALS_def last_drop)

lemma apply_update_inherited [simp]:
  "sc_inherited (apply_update c u) = sc_inherited c"
  "sc_telemetry (apply_update c u) = sc_telemetry c"
  by (simp_all add: apply_update_def split: PermissionAction.splits)

lemma apply_updates_inherited [simp]:
  "sc_inherited (foldl apply_update c us) = sc_inherited c"
  "sc_telemetry (foldl apply_update c us) = sc_telemetry c"
  by (induction us arbitrary: c) simp_all

lemma apply_update_distinct:
  "distinct (sc_session_allow c) \<and> distinct (sc_session_deny c) \<Longrightarrow>
     distinct (sc_session_allow (apply_update c u)) \<and> distinct (sc_session_deny (apply_update c u))"
  by (simp add: apply_update_def split: PermissionAction.splits)

lemma apply_updates_distinct:
  "distinct (sc_session_allow c) \<and> distinct (sc_session_deny c) \<Longrightarrow>
     distinct (sc_session_allow (foldl apply_update c us)) \<and> distinct (sc_session_deny (foldl apply_update c us))"
  by (induction us arbitrary: c) (simp_all add: apply_update_distinct)

lemma sync_step_inv: "sync_inv c \<Longrightarrow> sync_inv (sync_step c a)"
proof (cases a)
  case (Restore k)
  assume "sync_inv c"
  then show ?thesis using Restore
    apply_updates_distinct [of "foldl apply_update c (map update_allow (co_session_allow k))" "map update_deny (co_session_deny k)"]
    apply_updates_distinct [of c "map update_allow (co_session_allow k)"]
    by (simp add: sync_inv_def restore_continuation_def)
next
  case (RecordBlocked t reason)
  assume "sync_inv c"
  then show ?thesis using RecordBlocked
    by (auto simp: sync_inv_def record_blocked_tool_with_reason_def Let_def length_push_recent
        distinct_push_recent split: option.splits)
qed (auto simp: sync_inv_def apply_update_distinct apply_updates_distinct apply_response_def merge_policy_from_def
    record_permission_request_def record_permission_approved_def)

lemma sync_step_ceiling: "ceiling_kept c (sync_step c a)"
  by (cases a)
    (auto simp: ceiling_kept_def apply_response_def restore_continuation_def merge_policy_from_def
      record_permission_request_def record_permission_approved_def record_blocked_tool_with_reason_def Let_def)

interpretation sync_machine: climbing_machine sync_step "\<lambda>_. True" sync_inv ceiling_kept
  by unfold_locales (auto simp: sync_step_inv sync_step_ceiling, auto simp: ceiling_kept_def)

lemma all_ops_ok: "list_all (\<lambda>_. True) ops"
  by (induction ops) simp_all

text \<open>Along every run of a context the session rules have no duplicates and the two lists of
  recent denials have no duplicates and at most five entries.\<close>

theorem sync_run_invariant: "sync_inv (foldl sync_step (sync_context_new p) ops)"
  by (rule sync_machine.run_inv [OF _ all_ops_ok])
    (simp add: sync_inv_def sync_context_new_def telemetry_default_def)

text \<open>The read-only ceiling is never lifted: whatever updates, restored continuations and policy
  refreshes a context goes through, and however fresh policies are configured, a read-only
  execution stays read-only, and so do its children.\<close>

theorem read_only_ceiling_kept:
  assumes "ip_read_only_execution p"
  shows "ip_read_only_execution (for_child (foldl sync_step (sync_context_new p) ops) bg)"
proof -
  have inv: "sync_inv (sync_context_new p)"
    by (simp add: sync_inv_def sync_context_new_def telemetry_default_def)
  have "ceiling_kept (sync_context_new p) (foldl sync_step (sync_context_new p) ops)"
    by (rule sync_machine.run_below [OF inv all_ops_ok])
  then show ?thesis
    using assms by (simp add: ceiling_kept_def sync_context_new_def for_child_def foldl_add_allow foldl_add_deny)
qed

theorem read_only_ceiling_kept_witness:
  "ip_read_only_execution (for_child (foldl sync_step
     (sync_context_new ((inherited_new ModePrompt)\<lparr>ip_read_only_execution := True\<rparr>))
     [MergePolicy (sync_context_root ModeBypass)]) False)"
  by (rule read_only_ceiling_kept) simp

section \<open>Continuations round trip\<close>

text \<open>Rules that the text form can express: a bash rule has no path prefix, any other rule no exact
  pattern, and the family names of the grammar are not tool names.\<close>

definition displayable_rule :: "'x permission_env_scheme \<Rightarrow> PermissionRule \<Rightarrow> bool" where
  "displayable_rule env r =
     (lower env (pr_tool r) = pr_tool r \<and> trim (pr_tool r) = pr_tool r \<and> pr_tool r \<noteq> []
      \<and> CHR ''('' \<notin> set (pr_tool r)
      \<and> to_ascii_lowercase (pr_tool r) \<notin> {''edit'', ''read''} \<and> pr_tool r \<notin> {''network'', ''mcp''}
      \<and> (if pr_tool r = ''bash'' then
           pr_pattern_match r = (if pr_pattern_match r = PatternExact \<and> pr_pattern r \<noteq> None
                                 then PatternExact else PatternPrefix)
         else pr_pattern_match r = (if pr_pattern_match r = PatternPathPrefix \<and> pr_pattern r \<noteq> None
                                    then PatternPathPrefix else PatternPrefix)))"

lemma rule_display_roundtrip:
  assumes "displayable_rule env r"
  shows "rule_try_parse env (rule_to_string r) = Inr r"
proof -
  let ?base = "(empty_rule_spec (pr_tool r))
            \<lparr>rs_op := pr_op r, rs_cwd_root := pr_cwd_root r, rs_git_branch := pr_git_branch r,
             rs_domain := pr_domain r, rs_capability := pr_capability r\<rparr>"
  let ?spec = "if pr_tool r = ''bash'' then
           (if pr_pattern_match r = PatternExact then ?base\<lparr>rs_argv_exact := pr_pattern r\<rparr>
            else ?base\<lparr>rs_argv_prefix := pr_pattern r\<rparr>)
         else if pr_pattern_match r = PatternPathPrefix then ?base\<lparr>rs_path_prefix := pr_pattern r\<rparr>
         else ?base\<lparr>rs_path_glob := pr_pattern r\<rparr>"
  have "accepted_rule ?spec"
    using assms by (auto simp: accepted_rule_def displayable_rule_def empty_rule_spec_def family_slot_def)
  then have "parse_rule (rule_to_string r) = Inr ?spec"
    unfolding rule_to_string_def Let_def by (rule parse_serialize_accepted)
  moreover have "from_rule_spec env ?spec = r"
    using assms
    by (cases r; cases "pr_pattern r")
      (auto simp: displayable_rule_def from_rule_spec_def empty_rule_spec_def opt_or_def Let_def split: if_splits)
  ultimately show ?thesis by (simp add: rule_try_parse_def)
qed

lemma validate_rules_iff:
  "validate_rules env rs = Inr () \<longleftrightarrow> (\<forall>r \<in> set rs. validate_continuation_permission_rule env r = Inr ())"
  by (induction rs) auto

lemma validated_rule_parses:
  "validate_continuation_permission_rule env r = Inr () \<Longrightarrow>
     parse_continuation_rule env (rule_to_string r) = Inr r"
  by (auto simp: validate_continuation_permission_rule_def split: if_splits)

lemma decode_encoded:
  assumes "\<forall>r \<in> set rs. validate_continuation_permission_rule env r = Inr ()"
    and "rule_bytes_within bytes rs" and "length done_rules + length rs \<le> MAX_CONTINUATION_RULES_PER_LIST"
  shows "decode_rules_loop env done_rules bytes (map rule_to_string rs) = Inr (done_rules @ rs)"
  using assms
  by (induction rs arbitrary: done_rules bytes) (auto simp: Let_def validated_rule_parses)

text \<open>C28. A captured continuation survives its text form: decoding the encoded session rules returns
  the rules that were captured, with their meaning unchanged.\<close>

theorem continuation_roundtrip:
  assumes "capture_continuation env c = Inr k"
  shows "try_bind (serialize_continuation_rules env (co_session_allow k))
      (deserialize_continuation_rules env) = Inr (sc_session_allow c)
    \<and> try_bind (serialize_continuation_rules env (co_session_deny k))
      (deserialize_continuation_rules env) = Inr (sc_session_deny c)"
proof -
  have roundtrip: "try_bind (serialize_continuation_rules env rs) (deserialize_continuation_rules env) = Inr rs"
    if "validate_rule_list env rs = Inr ()" for rs
  proof -
    have "rule_bytes_within 0 rs" "length rs \<le> MAX_CONTINUATION_RULES_PER_LIST"
        "\<forall>r \<in> set rs. validate_continuation_permission_rule env r = Inr ()"
      using that
      by (auto simp: validate_rule_list_def validate_continuation_rule_budget_def validate_rules_iff split: if_splits)
    then show ?thesis
      using that decode_encoded [of rs env 0 "[]"]
      by (simp add: serialize_continuation_rules_def deserialize_continuation_rules_def
          validate_continuation_rule_budget_def)
  qed
  show ?thesis
    using assms roundtrip by (auto simp: capture_continuation_def continuation_from_rules_def)
qed

definition plain_redaction_env :: redaction_env where
  "plain_redaction_env = permission_env.extend bare_env
     \<lparr>credential_count = (\<lambda>_. 0), has_redaction_marker = (\<lambda>_. False)\<rparr>"

theorem continuation_roundtrip_witness:
  "try_bind (serialize_continuation_rules plain_redaction_env [rule_for_tool ''write_file''])
     (deserialize_continuation_rules plain_redaction_env) = Inr [rule_for_tool ''write_file'']"
proof -
  let ?r = "rule_for_tool ''write_file''" and ?env = plain_redaction_env
  have "trim ''write_file'' = ''write_file''"
    by (simp add: trim_def utf8_chars_ascii is_ascii_def is_whitespace_def del: utf8_chars.simps)
  then have "displayable_rule ?env ?r"
    by (simp add: displayable_rule_def rule_for_tool_def lower_def to_lowercase_def is_ascii_def
        to_ascii_lowercase_def ascii_lower_def)
  then have parse: "rule_try_parse ?env (rule_to_string ?r) = Inr ?r" by (rule rule_display_roundtrip)
  have "rule_to_string ?r = ''write_file()''"
    by (simp add: rule_to_string_def rule_for_tool_def serialize_rule_def rule_fields_def empty_rule_spec_def opt_field_def)
  then have "validate_rule_list ?env [?r] = Inr ()" "validate_rule_list ?env [] = Inr ()"
    using parse
    by (simp_all add: validate_rule_list_def validate_continuation_rule_budget_def MAX_CONTINUATION_RULES_PER_LIST_def
        MAX_CONTINUATION_RULE_BYTES_PER_LIST_def usize_sat_add_def validate_continuation_permission_rule_def
        parse_continuation_rule_def rule_for_tool_def plain_redaction_env_def permission_env.defs bare_env_def)
  then have "capture_continuation ?env ((sync_context_root ModePrompt)\<lparr>sc_session_allow := [?r]\<rparr>) =
      Inr \<lparr>co_session_allow = [?r], co_session_deny = []\<rparr>"
    by (simp add: capture_continuation_def continuation_from_rules_def sync_context_root_def sync_context_new_def)
  from continuation_roundtrip [OF this] show ?thesis by simp
qed

text \<open>Restoring is an initialization: onto a context without session overrides it installs exactly
  the captured rules and leaves the inherited policy and the telemetry; a context with overrides
  of its own refuses it and does not change.\<close>

theorem restore_exact:
  assumes "distinct (co_session_allow k)" and "distinct (co_session_deny k)"
  shows "restore_continuation c k =
    (if sc_session_allow c = [] \<and> sc_session_deny c = []
     then (c\<lparr>sc_session_allow := co_session_allow k, sc_session_deny := co_session_deny k\<rparr>, Inr ())
     else (c, Inl LiveOverridesPresent))"
proof -
  have allow: "foldl apply_update c (map update_allow rs) =
      c\<lparr>sc_session_allow := foldl (\<lambda>xs r. push_new r xs) (sc_session_allow c) rs\<rparr>" for c rs
    by (induction rs arbitrary: c) (simp_all add: apply_update_def update_allow_def)
  have deny: "foldl apply_update c (map update_deny rs) =
      c\<lparr>sc_session_deny := foldl (\<lambda>xs r. push_new r xs) (sc_session_deny c) rs\<rparr>" for c rs
    by (induction rs arbitrary: c) (simp_all add: apply_update_def update_deny_def)
  show ?thesis
    using assms push_all_fresh [of "[]" "co_session_allow k"] push_all_fresh [of "[]" "co_session_deny k"]
    by (auto simp: restore_continuation_def allow deny)
qed


theorem restore_exact_witness:
  "restore_continuation (sync_context_root ModePrompt)
     \<lparr>co_session_allow = [rule_for_tool ''bash''], co_session_deny = []\<rparr> =
   ((sync_context_root ModePrompt)\<lparr>sc_session_allow := [rule_for_tool ''bash''], sc_session_deny := []\<rparr>, Inr ())"
  by (subst restore_exact) (simp_all add: sync_context_root_def sync_context_new_def)

end
