(* ===== verification/Compound_Command.thy ===== *)
theory Compound_Command
  imports Rust_Text
begin

text \<open>
  The tokenizer of compound shell commands, \<^verbatim>\<open>permission/compound_command.rs\<close>. The byte loop carries
  the quote flags and the nesting depths; where the source records the positions of a separator
  and slices the command afterwards, the model collects the slice before each separator. The
  tokenizer is shown to lose nothing of the command and to return steps that do not split
  further.
\<close>

section \<open>The tokenizer\<close>

datatype CompoundSeparator = Sequential | AndThen | OrElse | Pipe

record CompoundStep =
  step_command :: rstr
  trailing_separator :: "CompoundSeparator option"

record CompoundCommand =
  command_steps :: "CompoundStep list"
  has_dynamic_eval :: bool
  is_atomic_fallback :: bool

record scan_state =
  in_single :: bool
  in_double :: bool
  in_backtick :: bool
  paren_depth :: u32
  brace_depth :: u32

definition scan_start :: scan_state where
  "scan_start = \<lparr>in_single = False, in_double = False, in_backtick = False,
     paren_depth = 0, brace_depth = 0\<rparr>"

definition u32_sat_dec :: "u32 \<Rightarrow> u32" where
  "u32_sat_dec d = (if d = 0 then 0 else d - 1)"

definition quoted :: "scan_state \<Rightarrow> bool" where
  "quoted st = (in_single st \<or> in_double st \<or> in_backtick st)"

text \<open>The branches of the loop that advance by one byte without recording a separator.\<close>

definition scan_byte :: "scan_state \<Rightarrow> char \<Rightarrow> scan_state" where
  "scan_byte st b =
     (if \<not> in_double st \<and> \<not> in_backtick st \<and> b = CHR 0x27 then st\<lparr>in_single := \<not> in_single st\<rparr>
      else if \<not> in_single st \<and> \<not> in_backtick st \<and> b = CHR 0x22 then st\<lparr>in_double := \<not> in_double st\<rparr>
      else if \<not> in_single st \<and> \<not> in_double st \<and> b = CHR 0x60 then st\<lparr>in_backtick := \<not> in_backtick st\<rparr>
      else if quoted st then st
      else if b = CHR ''('' then st\<lparr>paren_depth := sat_add (paren_depth st) 1\<rparr>
      else if b = CHR '')'' then st\<lparr>paren_depth := u32_sat_dec (paren_depth st)\<rparr>
      else if b = CHR ''{'' then st\<lparr>brace_depth := sat_add (brace_depth st) 1\<rparr>
      else if b = CHR ''}'' then st\<lparr>brace_depth := u32_sat_dec (brace_depth st)\<rparr>
      else st)"

text \<open>The operator at the current byte, if it is one at the top level, with its width.\<close>

definition top_operator :: "scan_state \<Rightarrow> char \<Rightarrow> rstr \<Rightarrow> (CompoundSeparator \<times> nat) option" where
  "top_operator st b rest =
     (if quoted st \<or> paren_depth st > 0 \<or> brace_depth st > 0 then None
      else if b = CHR ''&'' \<and> rest \<noteq> [] \<and> hd rest = CHR ''&'' then Some (AndThen, 2)
      else if b = CHR ''|'' \<and> rest \<noteq> [] \<and> hd rest = CHR ''|'' then Some (OrElse, 2)
      else if b = CHR ''|'' then Some (Pipe, 1)
      else if b = CHR '';'' then Some (Sequential, 1)
      else None)"

definition escapes :: "scan_state \<Rightarrow> char \<Rightarrow> rstr \<Rightarrow> bool" where
  "escapes st b rest = (b = CHR 0x5C \<and> rest \<noteq> [] \<and> \<not> in_single st)"

function scan_command ::
  "scan_state \<Rightarrow> rstr \<Rightarrow> rstr \<Rightarrow> (rstr \<times> CompoundSeparator) list \<times> rstr \<times> scan_state" where
  "scan_command st cur [] = ([], cur, st)"
| "scan_command st cur (b # rest) =
     (if escapes st b rest then
        scan_command st (cur @ [b, hd rest]) (tl rest)
      else
        (case top_operator st b rest of
           Some (sep, n) \<Rightarrow>
             (let (ps, lst, st') = scan_command st [] (drop (n - 1) rest) in ((cur, sep) # ps, lst, st'))
         | None \<Rightarrow> scan_command (scan_byte st b) (cur @ [b]) rest))"
  by pat_completeness auto
termination
  by (relation "measure (\<lambda>(st, cur, s). length s)") (auto simp: neq_Nil_conv escapes_def)

declare scan_command.simps(2) [simp del]

fun detect_eval_loop :: "bool \<Rightarrow> rstr \<Rightarrow> bool" where
  "detect_eval_loop single [] = False"
| "detect_eval_loop single [b] = (b \<noteq> CHR 0x27 \<and> \<not> single \<and> b = CHR 0x60)"
| "detect_eval_loop single (b # c # rest) =
     (if b = CHR 0x5C \<and> \<not> single then detect_eval_loop single rest
      else if b = CHR 0x27 then detect_eval_loop (\<not> single) (c # rest)
      else if \<not> single \<and> b = CHR ''$'' \<and> c = CHR ''('' then True
      else if \<not> single \<and> b = CHR 0x60 then True
      else detect_eval_loop single (c # rest))"

definition detect_dynamic_eval :: "rstr \<Rightarrow> bool" where
  "detect_dynamic_eval input = detect_eval_loop False input"

definition unclosed :: "scan_state \<Rightarrow> bool" where
  "unclosed st = (quoted st \<or> paren_depth st \<noteq> 0 \<or> brace_depth st \<noteq> 0)"

definition raw_steps :: "(rstr \<times> CompoundSeparator) list \<Rightarrow> rstr \<Rightarrow> CompoundStep list" where
  "raw_steps ps lst =
     map (\<lambda>(p, sep). \<lparr>step_command = trim p, trailing_separator = Some sep\<rparr>) ps
     @ [\<lparr>step_command = trim lst, trailing_separator = None\<rparr>]"

definition tokenize_compound_command :: "rstr \<Rightarrow> CompoundCommand" where
  "tokenize_compound_command input =
     (let trimmed = trim input;
          whole = [\<lparr>step_command = trimmed, trailing_separator = None\<rparr>] in
      if trimmed = [] then
        \<lparr>command_steps = whole, has_dynamic_eval = False, is_atomic_fallback = True\<rparr>
      else
        (let dyn = detect_dynamic_eval trimmed;
             (ps, lst, st) = scan_command scan_start [] trimmed in
         if unclosed st then
           \<lparr>command_steps = whole, has_dynamic_eval = dyn, is_atomic_fallback = True\<rparr>
         else if ps = [] then
           \<lparr>command_steps = whole, has_dynamic_eval = dyn, is_atomic_fallback = False\<rparr>
         else
           (let steps = filter (\<lambda>s. step_command s \<noteq> []) (raw_steps ps lst) in
            \<lparr>command_steps = (if steps = [] then whole else steps),
             has_dynamic_eval = dyn, is_atomic_fallback = False\<rparr>)))"

definition is_cd_wrapper_single_command :: "CompoundCommand \<Rightarrow> bool" where
  "is_cd_wrapper_single_command compound =
     (case command_steps compound of
        [s, _] \<Rightarrow> trailing_separator s = Some AndThen
          \<and> starts_with (trim_start (step_command s)) ''cd ''
      | _ \<Rightarrow> False)"

section \<open>Nothing of the command is lost\<close>

lemma escapes_rest [simp]: "escapes st b rest \<Longrightarrow> hd rest # tl rest = rest"
  by (simp add: escapes_def)

fun separator_text :: "CompoundSeparator \<Rightarrow> rstr" where
  "separator_text Sequential = '';''"
| "separator_text AndThen = ''&&''"
| "separator_text OrElse = ''||''"
| "separator_text Pipe = ''|''"

lemma top_operator_text:
  "top_operator st b rest = Some (sep, n) \<Longrightarrow> b # rest = separator_text sep @ drop (n - 1) rest \<and> 0 < n"
  by (cases rest) (auto simp: top_operator_def split: if_splits)

lemma top_operator_start: "top_operator st b rest = Some x \<Longrightarrow> st = scan_start"
  by (cases st) (auto simp: top_operator_def scan_start_def quoted_def word_gt_0 split: if_splits)

lemma closed_start: "\<not> unclosed st \<Longrightarrow> st = scan_start"
  by (cases st) (auto simp: unclosed_def scan_start_def quoted_def)

lemma scan_command_text:
  "scan_command st cur s = (ps, lst, st') \<Longrightarrow>
     cur @ s = concat (map (\<lambda>(p, sep). p @ separator_text sep) ps) @ lst"
proof (induction st cur s arbitrary: ps lst st' rule: scan_command.induct)
  case (2 st cur b rest)
  show ?case
  proof (cases "escapes st b rest")
    case True
    then show ?thesis
      using "2.IH"(1) [OF True, of ps lst st'] "2.prems" by (simp add: scan_command.simps(2))
  next
    case esc: False
    show ?thesis
    proof (cases "top_operator st b rest")
      case None
      then show ?thesis
        using "2.IH"(2) [OF esc None, of ps lst st'] "2.prems" esc by (simp add: scan_command.simps(2))
    next
      case (Some x)
      obtain sep n where x: "x = (sep, n)" by (cases x)
      obtain ps' where ps': "scan_command st [] (drop (n - 1) rest) = (ps', lst, st')" "ps = (cur, sep) # ps'"
        using "2.prems" esc Some x
        by (simp add: scan_command.simps(2) split: prod.splits if_splits)
      have "drop (n - 1) rest = concat (map (\<lambda>(p, sep). p @ separator_text sep) ps') @ lst"
        using "2.IH"(3) [OF esc Some x [symmetric], of ps' lst st'] ps' by simp
      then show ?thesis using top_operator_text [of st b rest sep n] Some x ps' by simp
    qed
  qed
qed simp


section \<open>Steps do not split further\<close>

text \<open>
  A text scans quietly when the loop records no separator in it and ends in the state it would
  end in; this does not depend on the text collected before it.
\<close>

definition quiet :: "scan_state \<Rightarrow> rstr \<Rightarrow> scan_state \<Rightarrow> bool" where
  "quiet st s st' = (scan_command st [] s = ([], s, st'))"

lemma scan_escape:
  "escapes st b rest \<Longrightarrow>
     scan_command st cur (b # rest) = scan_command st (cur @ [b, hd rest]) (tl rest)"
  by (simp add: scan_command.simps(2))

lemma scan_plain:
  "\<not> escapes st b rest \<Longrightarrow> top_operator st b rest = None \<Longrightarrow>
     scan_command st cur (b # rest) = scan_command (scan_byte st b) (cur @ [b]) rest"
  by (simp add: scan_command.simps(2))

lemma scan_operator:
  "\<not> escapes st b rest \<Longrightarrow> top_operator st b rest = Some (sep, n) \<Longrightarrow>
     scan_command st cur (b # rest) =
       (let (ps, lst, st') = scan_command st [] (drop (n - 1) rest) in ((cur, sep) # ps, lst, st'))"
  by (simp add: scan_command.simps(2))

lemma scan_command_cur:
  "scan_command st (c @ cur) s =
     (case scan_command st cur s of
        ([], lst, st') \<Rightarrow> ([], c @ lst, st')
      | ((p, sep) # ps, lst, st') \<Rightarrow> ((c @ p, sep) # ps, lst, st'))"
proof (induction st cur s rule: scan_command.induct)
  case (2 st cur b rest)
  show ?case
  proof (cases "escapes st b rest")
    case True
    with "2.IH"(1) [OF True] show ?thesis by (simp add: scan_command.simps(2))
  next
    case esc: False
    show ?thesis
    proof (cases "top_operator st b rest")
      case None
      with "2.IH"(2) [OF esc None] show ?thesis by (simp add: scan_plain [OF esc None])
    next
      case (Some x)
      then show ?thesis
        by (cases x) (simp add: scan_operator [OF esc] Let_def split: prod.split)
    qed
  qed
qed simp

lemma quiet_cur: "quiet st s st' \<Longrightarrow> scan_command st cur s = ([], cur @ s, st')"
  using scan_command_cur [of st cur "[]" s] by (simp add: quiet_def)

lemma scan_quiet: "scan_command st cur s = ([], lst, st') \<Longrightarrow> quiet st s st'"
  using scan_command_cur [of st cur "[]" s] scan_command_text [of st "[]" s]
  unfolding quiet_def by (cases "scan_command st [] s") (auto split: list.splits)

lemma quiet_Nil [simp]: "quiet st [] st' \<longleftrightarrow> st' = st"
  by (auto simp: quiet_def)

lemma quiet_iff: "quiet st s st' \<longleftrightarrow> (\<exists>lst. scan_command st cur s = ([], lst, st'))"
  using quiet_cur scan_quiet by blast

lemma quiet_escape:
  "escapes st b s \<Longrightarrow> quiet st (b # s) st' \<longleftrightarrow> quiet st (tl s) st'"
  unfolding quiet_iff [of st "b # s" st' "[]"] quiet_iff [of st "tl s" st' "[b, hd s]"]
  by (simp add: scan_escape)

lemma quiet_plain:
  "\<not> escapes st b s \<Longrightarrow>
     quiet st (b # s) st' \<longleftrightarrow> top_operator st b s = None \<and> quiet (scan_byte st b) s st'"
  unfolding quiet_iff [of st "b # s" st' "[]"] quiet_iff [of "scan_byte st b" s st' "[b]"]
  by (cases "top_operator st b s") (auto simp: scan_plain scan_operator split: prod.splits)


lemma top_operator_prefix: "top_operator st b (q @ w) = None \<Longrightarrow> top_operator st b q = None"
  by (cases q) (auto simp: top_operator_def split: if_splits)

text \<open>The text before a separator scans quietly back to the start of the loop.\<close>

lemma scan_command_first:
  "scan_command st cur s = ((p, sep) # ps, lst, st') \<Longrightarrow>
     \<exists>q rest. p = cur @ q \<and> s = q @ separator_text sep @ rest \<and> quiet st q scan_start
       \<and> scan_command scan_start [] rest = (ps, lst, st')"
proof (induction st cur s rule: scan_command.induct)
  case (2 st cur b rest)
  show ?case
  proof (cases "escapes st b rest")
    case True
    then obtain q r where q: "p = (cur @ [b, hd rest]) @ q" "tl rest = q @ separator_text sep @ r"
        "quiet st q scan_start" "scan_command scan_start [] r = (ps, lst, st')"
      using "2.IH"(1) [OF True] "2.prems" by (auto simp: scan_escape)
    have "escapes st b (hd rest # q)" using True by (simp add: escapes_def)
    then have "quiet st (b # hd rest # q) scan_start" using q(3) by (simp add: quiet_escape)
    moreover have "rest = hd rest # tl rest" using True by simp
    ultimately show ?thesis using q
      by (intro exI [of _ "b # hd rest # q"] exI [of _ r]) simp
  next
    case esc: False
    show ?thesis
    proof (cases "top_operator st b rest")
      case None
      then obtain q r where q: "p = (cur @ [b]) @ q" "rest = q @ separator_text sep @ r"
          "quiet (scan_byte st b) q scan_start" "scan_command scan_start [] r = (ps, lst, st')"
        using "2.IH"(2) [OF esc None] "2.prems" by (auto simp: scan_plain [OF esc None])
      have "\<not> escapes st b q" using esc q(2) by (auto simp: escapes_def)
      then have "quiet st (b # q) scan_start"
        using q None by (auto simp: quiet_plain dest: top_operator_prefix)
      then show ?thesis using q by (intro exI [of _ "b # q"] exI [of _ r]) simp
    next
      case (Some x)
      obtain sep' n where x: "x = (sep', n)" by (cases x)
      have st: "st = scan_start" using Some by (rule top_operator_start)
      have "scan_command st [] (drop (n - 1) rest) = (ps, lst, st')" "p = cur" "sep' = sep"
        using "2.prems" scan_operator [OF esc, of sep' n cur] Some x by (auto split: prod.splits)
      moreover have "b # rest = separator_text sep @ drop (n - 1) rest"
        using top_operator_text [of st b rest sep' n] Some x calculation by simp
      ultimately show ?thesis using st
        by (intro exI [of _ "[]"] exI [of _ "drop (n - 1) rest"]) simp
    qed
  qed
qed simp

lemma scan_command_quiet:
  "scan_command scan_start [] s = (ps, lst, st') \<Longrightarrow>
     list_all (\<lambda>(p, sep). quiet scan_start p scan_start) ps \<and> quiet scan_start lst st'"
proof (induction ps arbitrary: s)
  case Nil
  then show ?case using scan_quiet scan_command_text by fastforce
next
  case (Cons x ps)
  obtain p sep where x: "x = (p, sep)" by (cases x)
  then show ?case using scan_command_first [of scan_start "[]" s p sep ps lst st'] Cons by auto
qed

text \<open>Whitespace never changes the state of the loop.\<close>

definition plain_byte :: "char \<Rightarrow> bool" where
  "plain_byte b = (b \<notin> {CHR 0x5C, CHR 0x27, CHR 0x22, CHR 0x60, CHR ''('', CHR '')'',
     CHR ''{'', CHR ''}'', CHR ''&'', CHR ''|'', CHR '';''})"

lemma plain_whitespace: "is_whitespace c \<Longrightarrow> list_all plain_byte c"
  by (auto simp: is_whitespace_def plain_byte_def)

lemma quiet_plain_byte [simp]: "plain_byte b \<Longrightarrow> quiet st (b # s) st' \<longleftrightarrow> quiet st s st'"
  by (subst quiet_plain) (auto simp: plain_byte_def escapes_def top_operator_def scan_byte_def)

lemma quiet_plain_prefix: "list_all plain_byte w \<Longrightarrow> quiet st (w @ s) st' \<longleftrightarrow> quiet st s st'"
  by (induction w) simp_all

lemma quiet_plain_suffix:
  "list_all plain_byte w \<Longrightarrow> quiet st (q @ w) st' \<Longrightarrow> quiet st q st'"
proof (induction q arbitrary: st rule: length_induct)
  case (1 q)
  show ?case
  proof (cases q)
    case Nil
    then show ?thesis using 1 quiet_plain_prefix [of w st "[]" st'] by simp
  next
    case (Cons b q')
    show ?thesis
    proof (cases "escapes st b (q' @ w)")
      case True
      show ?thesis
      proof (cases q')
        case Nil
        then have "st' = st"
          using "1.prems" True Cons quiet_plain_prefix [of "tl w" st "[]" st']
          by (cases w) (simp_all add: quiet_escape)
        moreover have "quiet st [b] st"
          using True by (subst quiet_plain) (auto simp: escapes_def top_operator_def scan_byte_def)
        ultimately show ?thesis using Cons Nil by simp
      next
        case (Cons c q2)
        with True have "escapes st b q'" by (simp add: escapes_def)
        then show ?thesis using 1 True Cons \<open>q = b # q'\<close> by (simp add: quiet_escape)
      qed
    next
      case False
      then have "\<not> escapes st b q'" by (auto simp: escapes_def)
      then show ?thesis using 1 False Cons
        by (auto simp: quiet_plain dest: top_operator_prefix)
    qed
  qed
qed

lemma quiet_trim: "quiet st s st' \<Longrightarrow> quiet st (trim s) st'"
proof -
  assume q: "quiet st s st'"
  obtain a b where s: "s = concat a @ trim s @ concat b" "list_all is_whitespace a" "list_all is_whitespace b"
    using trim_decomp by blast
  then have "list_all plain_byte (concat a)" "list_all plain_byte (concat b)"
    using plain_whitespace by (fastforce simp: list_all_iff)+
  then show ?thesis
    using q s(1) quiet_plain_prefix quiet_plain_suffix by metis
qed


section \<open>Properties of the tokenizer\<close>


lemma command_in_raw_steps:
  "s \<in> set (raw_steps ps lst) \<Longrightarrow> \<exists>p \<in> set (map fst ps @ [lst]). step_command s = trim p"
  by (auto simp: raw_steps_def) force+

lemma tokenize_quiet:
  assumes "trim c = c" and "c \<noteq> []" and "quiet scan_start c scan_start"
  shows "tokenize_compound_command c =
    \<lparr>command_steps = [\<lparr>step_command = c, trailing_separator = None\<rparr>],
     has_dynamic_eval = detect_dynamic_eval c, is_atomic_fallback = False\<rparr>"
  using assms
  by (simp add: tokenize_compound_command_def quiet_def unclosed_def quoted_def scan_start_def)

lemma tokenize_cases:
  obtains (whole) "command_steps (tokenize_compound_command input) =
      [\<lparr>step_command = trim input, trailing_separator = None\<rparr>]"
  | (split) ps lst where "scan_command scan_start [] (trim input) = (ps, lst, scan_start)"
      "ps \<noteq> []" "command_steps (tokenize_compound_command input) =
        filter (\<lambda>s. step_command s \<noteq> []) (raw_steps ps lst)"
      "is_atomic_fallback (tokenize_compound_command input) = False"
proof -
  obtain ps lst st where sc: "scan_command scan_start [] (trim input) = (ps, lst, st)"
    by (cases "scan_command scan_start [] (trim input)")
  show thesis
  proof (cases "trim input = [] \<or> unclosed st \<or> ps = []
      \<or> filter (\<lambda>s. step_command s \<noteq> []) (raw_steps ps lst) = []")
    case True
    then show thesis using sc by (intro whole) (auto simp: tokenize_compound_command_def Let_def)
  next
    case False
    moreover from this have "st = scan_start" using closed_start by blast
    ultimately show thesis using sc
      by (intro split [of ps lst]) (simp_all add: tokenize_compound_command_def Let_def)
  qed
qed



text \<open>C23. Every step is atomic: tokenizing the command of a step returns that step alone, so the
  card never hides a separator inside a step.\<close>

theorem tokenize_steps_atomic:
  "list_all (\<lambda>s. command_steps (tokenize_compound_command (step_command s)) =
       [\<lparr>step_command = step_command s, trailing_separator = None\<rparr>])
     (command_steps (tokenize_compound_command input))"
proof (cases rule: tokenize_cases [of input, case_names whole split])
  case whole
  then show ?thesis by (simp add: tokenize_compound_command_def)
next
  case (split ps lst)
  have "quiet scan_start p scan_start" if "p \<in> set (map fst ps @ [lst])" for p
    using scan_command_quiet [OF split(1)] that by (auto simp: list_all_iff)
  then have "quiet scan_start (step_command s) scan_start" "trim (step_command s) = step_command s"
    if "s \<in> set (raw_steps ps lst)" for s
    using command_in_raw_steps [OF that] quiet_trim by (metis trim_idem)+
  then show ?thesis unfolding split(3) list_all_iff by (auto simp: tokenize_quiet)
qed

lemma detect_eval_exact:
  "CHR 0x27 \<notin> set s \<Longrightarrow> CHR 0x5C \<notin> set s \<Longrightarrow>
     detect_eval_loop False s \<longleftrightarrow> contains s ''$('' \<or> CHR 0x60 \<in> set s"
  by (induction False s rule: detect_eval_loop.induct) (auto simp: starts_with_def)

lemma has_dynamic_eval_tokenize:
  "has_dynamic_eval (tokenize_compound_command input) =
     (trim input \<noteq> [] \<and> detect_dynamic_eval (trim input))"
  by (auto simp: tokenize_compound_command_def Let_def split: prod.splits)

text \<open>Without single quotes and backslashes the dynamic evaluation flag is exact: it is set
  iff the command contains a command substitution or a backtick.\<close>

theorem dynamic_eval_exact:
  assumes "CHR 0x27 \<notin> set input" and "CHR 0x5C \<notin> set input"
  shows "has_dynamic_eval (tokenize_compound_command input) \<longleftrightarrow>
    contains (trim input) ''$('' \<or> CHR 0x60 \<in> set (trim input)"
proof -
  have "set (trim input) \<subseteq> set input" using trim_decomp [of input] by (metis set_append sup_ge1 sup_ge2 order_trans)
  then show ?thesis
    using detect_eval_exact [of "trim input"] assms
    by (auto simp: has_dynamic_eval_tokenize detect_dynamic_eval_def)
qed

theorem dynamic_eval_exact_witness:
  "has_dynamic_eval (tokenize_compound_command ''echo $(id)'')"
proof -
  have "trim ''echo $(id)'' = ''echo $(id)''"
    by (simp add: trim_def utf8_chars_ascii is_ascii_def is_whitespace_def del: utf8_chars.simps)
  then show ?thesis
    using dynamic_eval_exact [of "''echo $(id)''"] by (simp add: starts_with_def)
qed

text \<open>A single quote inside double quotes hides a command substitution from the flag: the
  tokenizer sees a closed double-quoted text, the shell would run the substitution, and the
  command is reported to evaluate nothing.\<close>

theorem dynamic_eval_missed:
  "has_dynamic_eval (tokenize_compound_command (''echo '' @ [CHR 0x22] @ ''it'' @ [CHR 0x27] @ ''s $(id)'' @ [CHR 0x22])) = False
   \<and> is_atomic_fallback (tokenize_compound_command (''echo '' @ [CHR 0x22] @ ''it'' @ [CHR 0x27] @ ''s $(id)'' @ [CHR 0x22])) = False"
proof -
  let ?c = "''echo '' @ [CHR 0x22] @ ''it'' @ [CHR 0x27] @ ''s $(id)'' @ [CHR 0x22]"
  have t: "trim ?c = ?c"
    by (simp add: trim_def utf8_chars_ascii is_ascii_def is_whitespace_def del: utf8_chars.simps)
  have "detect_dynamic_eval ?c = False" by (simp add: detect_dynamic_eval_def)
  moreover have "scan_command scan_start [] ?c = ([], ?c, scan_start)"
    by (simp add: scan_command.simps(2) escapes_def top_operator_def scan_byte_def scan_start_def quoted_def)
  moreover have "\<not> unclosed scan_start" by (simp add: unclosed_def scan_start_def quoted_def)
  ultimately show ?thesis
    unfolding tokenize_compound_command_def t by simp
qed

text \<open>The last step keeps its separator when the command ends with one, although a final
  step is documented to have none.\<close>

theorem final_separator_kept:
  "command_steps (tokenize_compound_command ''ls;'') =
     [\<lparr>step_command = ''ls'', trailing_separator = Some Sequential\<rparr>]"
proof -
  have t: "trim ''ls;'' = ''ls;''" "trim ''ls'' = ''ls''"
    by (simp_all add: trim_def utf8_chars_ascii is_ascii_def is_whitespace_def del: utf8_chars.simps)
  have "scan_command scan_start [] ''ls;'' = ([(''ls'', Sequential)], [], scan_start)"
    by (simp add: scan_command.simps(2) escapes_def top_operator_def scan_byte_def scan_start_def quoted_def)
  moreover have "\<not> unclosed scan_start" by (simp add: unclosed_def scan_start_def quoted_def)
  ultimately show ?thesis
    unfolding tokenize_compound_command_def t by (simp add: raw_steps_def t)
qed

end
