(* ===== verification/Permission_Scope.thy ===== *)
theory Permission_Scope
  imports Permission_Rule Compound_Command
begin

text \<open>
  What an approval is remembered as, and for how long: sensitive paths and the approval card
  (\<^verbatim>\<open>permission/redact.rs\<close>), the shape under which a request is remembered
  (\<^verbatim>\<open>memory_profile.rs\<close>, \<^verbatim>\<open>match_target.rs\<close>) and the scopes a request may be granted for
  (\<^verbatim>\<open>scope.rs\<close>), with the risk tags of \<^verbatim>\<open>engine.rs\<close> they depend on. The checks of git commands
  (\<^verbatim>\<open>astra_sandbox\<close>), the credential patterns and the Unicode case tables are parameters.
\<close>

section \<open>Parameters\<close>

text \<open>A git violation is its message and whether it is a soft one.\<close>

record scope_env = permission_env +
  git_violations :: "rstr \<Rightarrow> (rstr \<times> bool) list"
  unicode_upper :: "uchar \<Rightarrow> rstr"

section \<open>Sensitive paths and the approval card\<close>

definition SENSITIVE_PATH_PATTERNS :: "rstr list" where
  "SENSITIVE_PATH_PATTERNS =
     [''**/.env'', ''**/.env.*'', ''**/*.pem'', ''**/*.key'', ''**/id_rsa'', ''**/id_dsa'',
      ''**/id_ecdsa'', ''**/id_ed25519'', ''**/.ssh/**'', ''**/.aws/credentials'', ''**/.aws/config'',
      ''**/.npmrc'', ''**/.pypirc'', ''**/credentials.json'', ''**/secrets.toml'', ''**/secrets.yaml'',
      ''**/secrets.yml'']"

definition matches_sensitive_path :: "rstr \<Rightarrow> bool" where
  "matches_sensitive_path path = list_ex (\<lambda>p. glob_match p path) SENSITIVE_PATH_PATTERNS"

record RedactedDetail =
  rd_display :: rstr
  rd_redacted :: bool
  rd_sensitive_path :: bool

definition redact_for_approval_display ::
  "(rstr \<Rightarrow> rstr \<times> nat) \<Rightarrow> rstr \<Rightarrow> rstr option \<Rightarrow> RedactedDetail" where
  "redact_for_approval_display redact_credentials_in_text content path =
     (if (case path of Some p \<Rightarrow> matches_sensitive_path p | None \<Rightarrow> False) then
        \<lparr>rd_display = ''<'' @ show_nat (length content) @ '' bytes redacted>'' @ [CHR 0x0A, CHR 0xE2, CHR 0x9A, CHR 0xA0]
           @ '' This path is on the gitignore-recommended list. Make sure secrets aren'' @ [CHR 0x27]
           @ ''t committed.'',
         rd_redacted = True, rd_sensitive_path = True\<rparr>
      else
        let (redacted_text, redaction_count) = redact_credentials_in_text content in
        \<lparr>rd_display = redacted_text, rd_redacted = (0 < redaction_count), rd_sensitive_path = False\<rparr>)"

section \<open>The shape of a remembered request\<close>

datatype AllowMatchTarget = TargetExact | TargetTool | TargetPrefix rstr

datatype PersistentMemoryBlock = BlockCompoundCommand | BlockDynamicEval | BlockUnsafeRuleShape

record PermissionMemoryProfile =
  mp_match_target :: AllowMatchTarget
  mp_persistent_block :: "PersistentMemoryBlock option"
  mp_has_stable_target :: bool

definition command_contains_secondary_git_step :: "rstr \<Rightarrow> bool" where
  "command_contains_secondary_git_step command =
     (let parsed = tokenize_compound_command command in
      if length (command_steps parsed) = 1 \<or> is_cd_wrapper_single_command parsed then False
      else list_ex (\<lambda>step. case split_whitespace (step_command step) of w # _ \<Rightarrow> w = ''git'' | [] \<Rightarrow> False)
             (command_steps parsed))"

definition command_match_target :: "'x scope_env_scheme \<Rightarrow> rstr \<Rightarrow> AllowMatchTarget" where
  "command_match_target env command =
     (if git_violations env command \<noteq> [] \<or> command_contains_secondary_git_step command then TargetExact
      else let prefix = normalized_argv_prefix command in
        if prefix = [] then TargetExact else TargetPrefix prefix)"

fun alnum_tokens :: "rstr \<Rightarrow> rstr \<Rightarrow> rstr list" where
  "alnum_tokens cur [] = [cur]"
| "alnum_tokens cur (c # s) =
     (if is_ascii_alphanumeric c \<or> c = CHR ''-'' then alnum_tokens (cur @ [c]) s else cur # alnum_tokens [] s)"

definition powershell_dynamic_eval :: "rstr \<Rightarrow> rstr \<Rightarrow> bool" where
  "powershell_dynamic_eval tool_name command =
     (tool_name = ''powershell''
      \<and> list_ex (\<lambda>token. to_ascii_lowercase token \<in> set [''iex'', ''invoke-expression'']) (alnum_tokens [] command))"

definition shell_persistent_block ::
  "'x scope_env_scheme \<Rightarrow> rstr \<Rightarrow> json \<Rightarrow> bool \<Rightarrow> PersistentMemoryBlock option" where
  "shell_persistent_block env tool_name args has_stable_target =
     (if \<not> has_stable_target then Some BlockUnsafeRuleShape
      else if tool_name \<notin> set [''bash'', ''powershell''] then None
      else
        (case command_hint_from_args args of
           None \<Rightarrow> Some BlockUnsafeRuleShape
         | Some command \<Rightarrow>
             let parsed = tokenize_compound_command command in
             if has_dynamic_eval parsed \<or> powershell_dynamic_eval tool_name command then Some BlockDynamicEval
             else if 1 < length (command_steps parsed)
               \<and> \<not> is_read_only_tool_with_args (shell_reads env) tool_name (Some args)
               \<and> \<not> is_cd_wrapper_single_command parsed then Some BlockCompoundCommand
             else None))"

definition execute_memory_profile :: "'x scope_env_scheme \<Rightarrow> rstr \<Rightarrow> json \<Rightarrow> PermissionMemoryProfile" where
  "execute_memory_profile env tool_name args =
     (case command_hint_from_args args of
        None \<Rightarrow> \<lparr>mp_match_target = TargetTool, mp_persistent_block = Some BlockUnsafeRuleShape,
                 mp_has_stable_target = False\<rparr>
      | Some command \<Rightarrow>
          let target = command_match_target env command;
              stable = (case target of
                          TargetPrefix prefix \<Rightarrow> trim prefix \<noteq> []
                        | TargetExact \<Rightarrow> trim command \<noteq> []
                        | TargetTool \<Rightarrow> False) in
          \<lparr>mp_match_target = target,
           mp_persistent_block = shell_persistent_block env tool_name args stable,
           mp_has_stable_target = stable\<rparr>)"

definition write_memory_profile :: "'x scope_env_scheme \<Rightarrow> json \<Rightarrow> PermissionMemoryProfile" where
  "write_memory_profile env args =
     (case path_hint_from_args args of
        None \<Rightarrow> \<lparr>mp_match_target = TargetTool, mp_persistent_block = None, mp_has_stable_target = True\<rparr>
      | Some path \<Rightarrow>
          \<lparr>mp_match_target =
             (if matches_sensitive_path path then TargetExact
              else case workspace_write_prefix env path of
                     Some root \<Rightarrow> TargetPrefix root | None \<Rightarrow> TargetExact),
           mp_persistent_block = None,
           mp_has_stable_target = (trim path \<noteq> [])\<rparr>)"

definition permission_memory_profile :: "'x scope_env_scheme \<Rightarrow> rstr \<Rightarrow> json \<Rightarrow> PermissionMemoryProfile" where
  "permission_memory_profile env tool_name args =
     (case gated_kind env tool_name None of
        Some GatedExecute \<Rightarrow> execute_memory_profile env tool_name args
      | Some GatedWrite \<Rightarrow> write_memory_profile env args
      | None \<Rightarrow> \<lparr>mp_match_target = TargetTool, mp_persistent_block = None, mp_has_stable_target = True\<rparr>)"

section \<open>Rules and fingerprints of a match target\<close>

definition audit_label :: "AllowMatchTarget \<Rightarrow> rstr" where
  "audit_label target =
     (case target of TargetExact \<Rightarrow> ''exact'' | TargetTool \<Rightarrow> ''tool'' | TargetPrefix _ \<Rightarrow> ''prefix'')"

definition default_match_target :: "'x scope_env_scheme \<Rightarrow> rstr \<Rightarrow> json \<Rightarrow> AllowMatchTarget" where
  "default_match_target env tool_name args = mp_match_target (permission_memory_profile env tool_name args)"

definition ascii_upper :: "char \<Rightarrow> char" where
  "ascii_upper c =
     (if 97 \<le> (of_char c :: nat) \<and> (of_char c :: nat) \<le> 122 then char_of ((of_char c :: nat) - 32) else c)"

definition display_tool_name :: "'x scope_env_scheme \<Rightarrow> rstr \<Rightarrow> rstr" where
  "display_tool_name env tool_name =
     (case utf8_chars tool_name of
        [] \<Rightarrow> tool_name
      | first # rest \<Rightarrow>
          (if list_all is_ascii first then map ascii_upper first else unicode_upper env first) @ concat rest)"

definition file_write_rule_tool :: "rstr \<Rightarrow> rstr" where
  "file_write_rule_tool tool_name = (if registry_is_file_op tool_name then ''file_write'' else tool_name)"

definition broad_rule :: "'x scope_env_scheme \<Rightarrow> rstr \<Rightarrow> rstr" where
  "broad_rule env tool_name = serialize_rule (empty_rule_spec
     (if tool_name = ''bash'' then display_tool_name env tool_name else tool_name))"

definition exact_rule :: "'x scope_env_scheme \<Rightarrow> rstr \<Rightarrow> json \<Rightarrow> rstr option" where
  "exact_rule env tool_name args =
     (case gated_kind env tool_name None of
        None \<Rightarrow> None
      | Some GatedExecute \<Rightarrow>
          map_option (\<lambda>cmd. serialize_rule ((empty_rule_spec (display_tool_name env tool_name))
            \<lparr>rs_argv_exact := Some cmd, rs_op := Some ''execute''\<rparr>)) (command_hint_from_args args)
      | Some GatedWrite \<Rightarrow>
          map_option (\<lambda>path. serialize_rule ((empty_rule_spec (file_write_rule_tool tool_name))
            \<lparr>rs_path_glob := Some path, rs_op := Some ''write''\<rparr>)) (path_hint_from_args args))"

definition prefix_rule :: "'x scope_env_scheme \<Rightarrow> rstr \<Rightarrow> json \<Rightarrow> rstr \<Rightarrow> rstr option" where
  "prefix_rule env tool_name args prefix =
     (if prefix = [] then None
      else
        (case gated_kind env tool_name None of
           None \<Rightarrow> None
         | Some GatedExecute \<Rightarrow>
             Some (serialize_rule ((empty_rule_spec (display_tool_name env tool_name))
               \<lparr>rs_argv_prefix := Some prefix, rs_op := Some ''execute''\<rparr>))
         | Some GatedWrite \<Rightarrow>
             let cwd_root = (case Option.bind (path_hint_from_args args) (workspace_write_prefix env) of
                               Some root \<Rightarrow> if root = prefix then Some root else None | None \<Rightarrow> None) in
             Some (serialize_rule ((empty_rule_spec (file_write_rule_tool tool_name))
               \<lparr>rs_path_prefix := Some prefix, rs_op := Some ''write'', rs_cwd_root := cwd_root\<rparr>))))"

definition allow_rule_for_match_target ::
  "'x scope_env_scheme \<Rightarrow> rstr \<Rightarrow> json \<Rightarrow> AllowMatchTarget \<Rightarrow> rstr" where
  "allow_rule_for_match_target env tool_name args target =
     (case target of
        TargetTool \<Rightarrow> broad_rule env tool_name
      | TargetExact \<Rightarrow> (case exact_rule env tool_name args of Some r \<Rightarrow> r | None \<Rightarrow> broad_rule env tool_name)
      | TargetPrefix prefix \<Rightarrow>
          (case prefix_rule env tool_name args prefix of Some r \<Rightarrow> r | None \<Rightarrow> broad_rule env tool_name))"

definition fingerprint_for_match_target ::
  "'x scope_env_scheme \<Rightarrow> rstr \<Rightarrow> json \<Rightarrow> AllowMatchTarget \<Rightarrow> ApprovalFingerprint" where
  "fingerprint_for_match_target env tool_name args target =
     (let ul = unicode_lower env; bare = fp_bare ul tool_name;
          reads = is_read_only_tool_with_args (shell_reads env) tool_name (Some args) in
      case target of
        TargetTool \<Rightarrow> bare
      | TargetExact \<Rightarrow>
          (case gated_kind env tool_name None of
             Some GatedExecute \<Rightarrow>
               (case command_hint_from_args args of
                  Some cmd \<Rightarrow> fp_shell_exact ul tool_name cmd reads | None \<Rightarrow> bare)
           | Some GatedWrite \<Rightarrow>
               fp_file_op_exact ul (file_write_rule_tool tool_name) (path_hint_from_args args)
           | None \<Rightarrow> bare)
      | TargetPrefix prefix \<Rightarrow>
          (if prefix = [] then bare
           else case gated_kind env tool_name None of
             Some GatedExecute \<Rightarrow> fp_shell_prefix ul tool_name prefix reads
           | Some GatedWrite \<Rightarrow> fp_file_op_prefix ul (file_write_rule_tool tool_name) prefix
           | None \<Rightarrow> bare))"

definition remember_preview :: "'x scope_env_scheme \<Rightarrow> rstr \<Rightarrow> json \<Rightarrow> rstr \<Rightarrow> rstr" where
  "remember_preview env tool_name args location =
     (let tick = [CHR 0x60];
          write = (gated_kind env tool_name (Some args) = Some GatedWrite);
          target = default_match_target env tool_name args in
      if tool_name = ''bash'' then
        (case target of
           TargetPrefix prefix \<Rightarrow> ''the '' @ tick @ prefix @ tick @ '' command family '' @ location
         | TargetExact \<Rightarrow> ''this shell command '' @ location
         | TargetTool \<Rightarrow> ''safe shell commands '' @ location)
      else if write then
        (case target of
           TargetExact \<Rightarrow> ''this file edit '' @ location
         | TargetPrefix prefix \<Rightarrow>
             if Option.bind (path_hint_from_args args) (workspace_write_prefix env) = Some prefix
             then ''file edits '' @ location
             else ''similar file edits under '' @ tick @ prefix @ tick
         | TargetTool \<Rightarrow> ''file edits '' @ location)
      else
        (case target of
           TargetPrefix prefix \<Rightarrow> ''similar '' @ tick @ prefix @ tick @ '' calls '' @ location
         | TargetExact \<Rightarrow> ''this '' @ tick @ tool_name @ tick @ '' action '' @ location
         | TargetTool \<Rightarrow> tick @ tool_name @ tick @ '' calls '' @ location))"

section \<open>Risk tags and scopes\<close>

datatype RiskTag =
  BashExecute | WritesOutsidePackage | WritesOutsideWorkspace | WritesSensitiveFile
  | NetworkExfiltration | CredentialAccess | GitDestructive | SqlDestructive
  | MCPUnknownCapability | ProviderUnknownCapability | ProviderSideEffect | WorkspaceUntrusted
  | RiskSandboxExpansion

record ToolCapabilityMetadata =
  tcm_destructive_hint :: "bool option"
  tcm_read_only_hint :: "bool option"
  tcm_open_world_hint :: "bool option"
  tcm_server_name :: "rstr option"

definition metadata_risk_tag :: "ToolCapabilityMetadata \<Rightarrow> RiskTag option" where
  "metadata_risk_tag m =
     (if tcm_read_only_hint m = Some True \<and> tcm_destructive_hint m \<noteq> Some True then None
      else Some MCPUnknownCapability)"

definition metadata_is_known :: "ToolCapabilityMetadata \<Rightarrow> bool" where
  "metadata_is_known m =
     (tcm_destructive_hint m \<noteq> None \<or> tcm_read_only_hint m \<noteq> None \<or> tcm_open_world_hint m \<noteq> None)"

datatype AllowScope = OnceThisCall | RestOfTurn | RestOfSession | ScopeProject | ScopeUser

definition scope_persists :: "AllowScope \<Rightarrow> bool" where
  "scope_persists s = (s \<in> {ScopeProject, ScopeUser})"

definition scope_outlives_turn :: "AllowScope \<Rightarrow> bool" where
  "scope_outlives_turn s = (s \<notin> {OnceThisCall, RestOfTurn})"

datatype ScopeUnavailableReason =
    ReasonDestructiveRisk RiskTag
  | ReasonCompoundCommand
  | ReasonSubAgentRequest
  | ReasonMCPUnknownCapability
  | ReasonUntrustedWorkspace
  | ReasonDynamicEvalCommand
  | ReasonUnsafeRuleShape

record ScopeAvailabilityContext =
  sa_risk_tags :: "RiskTag list"
  sa_is_compound_command :: bool
  sa_has_dynamic_eval :: bool
  sa_source_agent_present :: bool
  sa_mcp_unknown_capability :: bool
  sa_workspace_untrusted :: bool
  sa_unsafe_rule_shape :: bool

record ScopeAvailability =
  av_scope :: AllowScope
  av_available :: bool
  av_reason :: "ScopeUnavailableReason option"

definition scope_context_for_tool_request ::
  "'x scope_env_scheme \<Rightarrow> rstr \<Rightarrow> json \<Rightarrow> RiskTag list \<Rightarrow> bool \<Rightarrow> bool \<Rightarrow> ScopeAvailabilityContext" where
  "scope_context_for_tool_request env tool args risk_tags source_agent_present workspace_untrusted =
     (let profile = permission_memory_profile env tool args in
      \<lparr>sa_risk_tags = risk_tags,
       sa_is_compound_command = (mp_persistent_block profile = Some BlockCompoundCommand),
       sa_has_dynamic_eval = (mp_persistent_block profile = Some BlockDynamicEval),
       sa_source_agent_present = source_agent_present,
       sa_mcp_unknown_capability =
         (ProviderUnknownCapability \<in> set risk_tags \<or> MCPUnknownCapability \<in> set risk_tags),
       sa_workspace_untrusted = workspace_untrusted,
       sa_unsafe_rule_shape =
         (\<not> mp_has_stable_target profile \<or> mp_persistent_block profile = Some BlockUnsafeRuleShape)\<rparr>)"

definition destructive_tags :: "RiskTag list" where
  "destructive_tags = [WritesSensitiveFile, GitDestructive, WritesOutsideWorkspace, CredentialAccess]"

definition unavailable_reason_for ::
  "AllowScope \<Rightarrow> ScopeAvailabilityContext \<Rightarrow> ScopeUnavailableReason option" where
  "unavailable_reason_for s ctx =
     (if s \<in> {OnceThisCall, RestOfTurn} then None
      else if sa_is_compound_command ctx \<and> scope_outlives_turn s then Some ReasonCompoundCommand
      else if sa_has_dynamic_eval ctx \<and> scope_outlives_turn s then Some ReasonDynamicEvalCommand
      else if sa_unsafe_rule_shape ctx \<and> scope_outlives_turn s then Some ReasonUnsafeRuleShape
      else if sa_source_agent_present ctx \<and> scope_persists s then Some ReasonSubAgentRequest
      else if sa_mcp_unknown_capability ctx \<and> scope_persists s then Some ReasonMCPUnknownCapability
      else if sa_workspace_untrusted ctx \<and> s = ScopeProject then Some ReasonUntrustedWorkspace
      else if scope_persists s then
        map_option ReasonDestructiveRisk (find (\<lambda>tag. tag \<in> set (sa_risk_tags ctx)) destructive_tags)
      else None)"

definition permitted_scopes :: "ScopeAvailabilityContext \<Rightarrow> ScopeAvailability list" where
  "permitted_scopes ctx =
     map (\<lambda>s. let reason = unavailable_reason_for s ctx in
            \<lparr>av_scope = s, av_available = (reason = None), av_reason = reason\<rparr>)
       [OnceThisCall, RestOfTurn, RestOfSession, ScopeProject, ScopeUser]"

definition scope_is_available :: "ScopeAvailabilityContext \<Rightarrow> AllowScope \<Rightarrow> bool" where
  "scope_is_available ctx target = list_ex (\<lambda>e. av_scope e = target \<and> av_available e) (permitted_scopes ctx)"

definition default_always_scope :: "ScopeAvailabilityContext \<Rightarrow> AllowScope" where
  "default_always_scope ctx =
     (if scope_is_available ctx ScopeProject then ScopeProject
      else if scope_is_available ctx RestOfSession then RestOfSession
      else if scope_is_available ctx RestOfTurn then RestOfTurn
      else OnceThisCall)"

lemmas scope_defs =
  scope_persists_def scope_outlives_turn_def unavailable_reason_for_def permitted_scopes_def
  scope_is_available_def default_always_scope_def

section \<open>The saved rule\<close>

lemma gated_bash [simp]: "gated_kind env ''bash'' None = Some GatedExecute"
  unfolding gated_kind_def execute_gate [OF execute_registered(1)] by simp

lemma bash_letters:
  "list_all is_ascii ''Bash''" "list_all is_ascii ''bash''" "map ascii_upper ''b'' = ''B''"
  "to_ascii_lowercase ''Bash'' = ''bash''" "to_ascii_lowercase ''bash'' = ''bash''"
  by code_simp+

lemma display_bash [simp]: "display_tool_name env ''bash'' = ''Bash''"
  using bash_letters by (simp add: display_tool_name_def utf8_chars_ascii del: utf8_chars.simps)

lemma lower_bash [simp]: "lower env ''Bash'' = ''bash''" "lower env ''bash'' = ''bash''"
  unfolding lower_def by (simp_all only: to_lowercase_ascii bash_letters)

lemma accepted_bash_spec:
  "accepted_rule ((empty_rule_spec ''Bash'')\<lparr>rs_argv_exact := e, rs_argv_prefix := p, rs_op := o'\<rparr>)"
  by (simp add: accepted_rule_def empty_rule_spec_def family_slot_def bash_letters
      trim_def utf8_chars_ascii is_ascii_def is_whitespace_def del: utf8_chars.simps)

text \<open>The rule a saved Bash rule is read back as.\<close>

definition bash_rule :: "rstr option \<Rightarrow> PermissionPatternMatch \<Rightarrow> PermissionRule" where
  "bash_rule pat kind = \<lparr>pr_tool = ''bash'', pr_pattern = pat, pr_pattern_match = kind, pr_op = Some ''execute'',
     pr_cwd_root = None, pr_git_branch = None, pr_domain = None, pr_capability = None\<rparr>"

lemma saved_bash_rule:
  assumes "command_hint_from_args args = Some cmd"
  shows "rule_parse env (allow_rule_for_match_target env ''bash'' args TargetExact) = bash_rule (Some cmd) PatternExact"
    and "p \<noteq> [] \<Longrightarrow> rule_parse env (allow_rule_for_match_target env ''bash'' args (TargetPrefix p)) = bash_rule (Some p) PatternPrefix"
  using assms accepted_bash_spec [where e = "Some cmd" and p = None and o' = "Some ''execute''"]
    accepted_bash_spec [where e = None and p = "Some p" and o' = "Some ''execute''"]
  by (simp_all add: allow_rule_for_match_target_def exact_rule_def prefix_rule_def rule_parse_def
      rule_try_parse_def parse_serialize_accepted empty_rule_spec_def from_rule_spec_def Let_def bash_rule_def)

lemma bash_rule_matches:
  "matches_with_context env (bash_rule (Some pat) kind) ''bash'' (context_from_tool_args env ''bash'' args) \<longleftrightarrow>
     (case command_hint_from_args args of
        None \<Rightarrow> False
      | Some cmd \<Rightarrow> pattern_matches env (bash_rule (Some pat) kind) (context_from_tool_args env ''bash'' args) pat cmd)"
  by (simp add: matches_with_context_def constraints_match_def bash_rule_def match_target_def
      target_is_constrained_path_def context_from_tool_args_def eq_ignore_ascii_case_def Let_def
      split: option.splits)

text \<open>
  C20. The rule an exact approval of a shell command saves is that command and nothing else: written
  to the settings file and read back, it matches a later Bash call exactly when the call has the same
  command text, whatever quotes, commas or backslashes the text has.
\<close>

theorem saved_exact_rule_exact:
  "command_hint_from_args args = Some cmd \<Longrightarrow>
     matches_with_context env (rule_parse env (allow_rule_for_match_target env ''bash'' args TargetExact)) ''bash''
       (context_from_tool_args env ''bash'' args') \<longleftrightarrow> command_hint_from_args args' = Some cmd"
  by (simp add: saved_bash_rule bash_rule_matches split: option.splits)
    (auto simp: pattern_matches_def bash_rule_def)

definition plain_scope_env :: scope_env where
  "plain_scope_env = permission_env.extend bare_env \<lparr>git_violations = (\<lambda>_. []), unicode_upper = (\<lambda>c. c)\<rparr>"

theorem saved_exact_rule_exact_witness:
  "matches_with_context plain_scope_env
     (rule_parse plain_scope_env (allow_rule_for_match_target plain_scope_env ''bash''
        (JObject [(''command'', JString ''python -c 1, 2'')]) TargetExact)) ''bash''
     (context_from_tool_args plain_scope_env ''bash'' (JObject [(''command'', JString ''python -c 1, 2'')]))"
  by (subst saved_exact_rule_exact) (simp_all add: command_hint_from_args_def json_get_def json_as_str_def bt_get_def)

text \<open>
  The rule saved for a command behind \<^verbatim>\<open>cd dir &&\<close> never matches that command again: the request
  may be remembered for the project, the saved rule is the command family without the \<^verbatim>\<open>cd\<close>, and the
  rule does not match the request it was saved for.
\<close>

theorem cd_wrapper_rule_lost:
  "let args = JObject [(''command'', JString ''cd crates && cargo test'')];
       target = default_match_target plain_scope_env ''bash'' args in
   default_always_scope (scope_context_for_tool_request plain_scope_env ''bash'' args [BashExecute] False False) = ScopeProject
   \<and> target = TargetPrefix ''cargo test''
   \<and> \<not> matches_with_context plain_scope_env
         (rule_parse plain_scope_env (allow_rule_for_match_target plain_scope_env ''bash'' args target)) ''bash''
         (context_from_tool_args plain_scope_env ''bash'' args)"
  by code_simp

text \<open>
  A command substitution the detector misses is offered a permanent rule: the default scope of
  \<^verbatim>\<open>echo "it's $(id)"\<close> is the project.
\<close>

theorem missed_eval_offers_project:
  "default_always_scope (scope_context_for_tool_request plain_scope_env ''bash''
     (JObject [(''command'', JString (''echo '' @ [CHR 0x22] @ ''it'' @ [CHR 0x27] @ ''s $(id)'' @ [CHR 0x22]))])
     [BashExecute] False False) = ScopeProject"
  by code_simp

section \<open>Which scopes are offered\<close>


lemma scope_is_available_iff: "scope_is_available ctx s \<longleftrightarrow> unavailable_reason_for s ctx = None"
  by (cases s) (auto simp: scope_is_available_def permitted_scopes_def Let_def)



text \<open>
  The scope the Always button takes is one the card offers, it is never the user's settings, and
  it writes a file only when every persistent scope is offered.
\<close>

theorem default_scope_offered:
  "scope_is_available ctx (default_always_scope ctx)
   \<and> default_always_scope ctx \<notin> {OnceThisCall, ScopeUser}
   \<and> (scope_persists (default_always_scope ctx) \<longleftrightarrow> (scope_is_available ctx ScopeProject \<and> scope_is_available ctx ScopeUser))"
  unfolding default_always_scope_def scope_is_available_iff
  by (auto simp: unavailable_reason_for_def scope_persists_def scope_outlives_turn_def split: if_splits)



section \<open>Sensitive paths\<close>

definition sensitive_endings :: "rstr list" where
  "sensitive_endings =
     [''.env'', ''id_rsa'', ''id_dsa'', ''id_ecdsa'', ''id_ed25519'', ''.aws/credentials'', ''.aws/config'',
      ''.npmrc'', ''.pypirc'', ''credentials.json'', ''secrets.toml'', ''secrets.yaml'', ''secrets.yml'']"

lemma sensitive_ending_pattern: "list_all (\<lambda>e. ''**/'' @ e \<in> set SENSITIVE_PATH_PATTERNS) sensitive_endings"
  by code_simp

lemma sensitive_ending_ascii: "list_all (\<lambda>e. list_all is_ascii e \<and> literal_pattern (map (\<lambda>c. [c]) e)
    \<and> hd e \<noteq> CHR ''/'') sensitive_endings"
  by code_simp

text \<open>
  Every path that ends in the name of a known secrets file is sensitive, whatever stands before
  that name, a separator or not.
\<close>

theorem sensitive_ending_detected: "e \<in> set sensitive_endings \<Longrightarrow> matches_sensitive_path (dir @ e)"
proof -
  assume e: "e \<in> set sensitive_endings"
  then have lit: "literal_pattern (map (\<lambda>c. [c]) e)" and asc: "list_all is_ascii e"
    and pat: "''**/'' @ e \<in> set SENSITIVE_PATH_PATTERNS"
    using sensitive_ending_ascii sensitive_ending_pattern by (simp_all add: list_all_iff)
  have ne: "e \<noteq> []" using e by (auto simp: sensitive_endings_def)
  have pe: "utf8_chars (''**/'' @ e) = ''*'' # ''*'' # ''/'' # map (\<lambda>c. [c]) e"
    using asc by (subst utf8_chars_ascii) (simp_all add: is_ascii_def)
  have de: "utf8_chars (dir @ e) = utf8_chars dir @ map (\<lambda>c. [c]) e"
    using asc ne by (subst utf8_chars_append) (cases e; simp add: not_cont_ascii utf8_chars_ascii del: utf8_chars.simps)+
  have "glob_match (''**/'' @ e) (dir @ e)"
    unfolding glob_match_def pe de glob_double_star
    using glob_literal [OF lit] by (auto simp: skip_separator_def)
  with pat show ?thesis
    unfolding matches_sensitive_path_def list_ex_iff by blast
qed

theorem sensitive_ending_detected_witness: "matches_sensitive_path (''deploy/prod'' @ ''.env'')"
  by (rule sensitive_ending_detected) (simp add: sensitive_endings_def)

text \<open>
  The approval card shows nothing of what is written to a sensitive path: two contents of the same
  length give the same card, whatever the credential patterns find in them.
\<close>

theorem card_hides_content:
  assumes "matches_sensitive_path p" and "length content = length content'"
  shows "redact_for_approval_display redact content (Some p) = redact_for_approval_display redact' content' (Some p)"
  using assms by (simp add: redact_for_approval_display_def)

theorem card_hides_content_witness:
  "redact_for_approval_display (\<lambda>t. (t, 0)) ''KEY=1'' (Some ''.npmrc'') = redact_for_approval_display (\<lambda>t. (t, 0)) ''KEY=2'' (Some ''.npmrc'')"
proof (rule card_hides_content)
  show "matches_sensitive_path ''.npmrc''" by code_simp
qed simp

end
