(* ===== verification/Tool_Chain.thy ===== *)
theory Tool_Chain
  imports Tool_Category "HOL-Library.Sublist"
begin

text \<open>
  Tool chains: the templates of \<^verbatim>\<open>astra-turn-core/src/tool/registry/chain.rs\<close> and the loop of
  \<^verbatim>\<open>astra-cli/src/edge_tools.rs\<close> (\<^verbatim>\<open>execute_chain_outcome\<close>) that runs one. The tools themselves are
  a parameter: \<^verbatim>\<open>exec i tool args\<close> is the outcome of step \<open>i\<close>, whatever the world answers. The
  order in which a \<^verbatim>\<open>HashMap\<close> iterates and the text of a JSON value that is not a string are
  parameters too. The main fact is that a step which names no earlier output is resolved, at
  whatever moment of the run, to the call that was resolved before the run.
\<close>

section \<open>Chains\<close>

record ChainStep =
  cs_tool :: rstr
  cs_args :: json
  cs_output_key :: "rstr option"
  cs_skip_if_prev_contains :: "rstr option"

record ToolChain =
  tc_name :: rstr
  tc_description :: rstr
  tc_steps :: "ChainStep list"

definition tool_chain_new :: "rstr \<Rightarrow> rstr \<Rightarrow> ToolChain" where
  "tool_chain_new name description = \<lparr>tc_name = name, tc_description = description, tc_steps = []\<rparr>"

definition chain_step :: "ToolChain \<Rightarrow> rstr \<Rightarrow> json \<Rightarrow> ToolChain" where
  "chain_step chain tool args =
     chain\<lparr>tc_steps := tc_steps chain @
       [\<lparr>cs_tool = tool, cs_args = args, cs_output_key = None, cs_skip_if_prev_contains = None\<rparr>]\<rparr>"

definition chain_named_step :: "ToolChain \<Rightarrow> rstr \<Rightarrow> rstr \<Rightarrow> json \<Rightarrow> ToolChain" where
  "chain_named_step chain key tool args =
     chain\<lparr>tc_steps := tc_steps chain @
       [\<lparr>cs_tool = tool, cs_args = args, cs_output_key = Some key, cs_skip_if_prev_contains = None\<rparr>]\<rparr>"

definition chain_validate :: "ToolChain \<Rightarrow> rstr list \<Rightarrow> (rstr list, unit) result" where
  "chain_validate chain known =
     (let missing = map cs_tool (filter (\<lambda>s. cs_tool s \<notin> set known) (tc_steps chain)) in
      if missing = [] then Inr () else Inl missing)"

definition MAX_RUN_CHAIN_STEPS :: nat where
  "MAX_RUN_CHAIN_STEPS = 16"

text \<open>
  The derived decoder of a step: from an object, by field, unknown fields ignored; from an array,
  by position. \<^verbatim>\<open>output_key\<close> and \<^verbatim>\<open>skip_if_prev_contains\<close> may be absent or null.
\<close>

definition optional_text :: "json option \<Rightarrow> rstr option option" where
  "optional_text v =
     (case v of None \<Rightarrow> Some None | Some JNull \<Rightarrow> Some None | Some (JString s) \<Rightarrow> Some (Some s) | _ \<Rightarrow> None)"

definition step_of_fields :: "json option \<Rightarrow> json option \<Rightarrow> json option \<Rightarrow> json option \<Rightarrow> ChainStep option" where
  "step_of_fields tool args key skip =
     (case (Option.bind tool json_as_str, args, optional_text key, optional_text skip) of
        (Some t, Some a, Some k, Some s) \<Rightarrow>
          Some \<lparr>cs_tool = t, cs_args = a, cs_output_key = k, cs_skip_if_prev_contains = s\<rparr>
      | _ \<Rightarrow> None)"

definition decode_step :: "json \<Rightarrow> ChainStep option" where
  "decode_step v =
     (case v of
        JObject es \<Rightarrow> step_of_fields (bt_get es ''tool'') (bt_get es ''args'') (bt_get es ''output_key'')
          (bt_get es ''skip_if_prev_contains'')
      | JArray [t, a] \<Rightarrow> step_of_fields (Some t) (Some a) None None
      | JArray [t, a, k] \<Rightarrow> step_of_fields (Some t) (Some a) (Some k) None
      | JArray [t, a, k, s] \<Rightarrow> step_of_fields (Some t) (Some a) (Some k) (Some s)
      | _ \<Rightarrow> None)"

section \<open>The context of a run and its templates\<close>

record ChainContext =
  cc_prev_output :: rstr
  cc_outputs :: "rstr \<rightharpoonup> rstr"
  cc_input :: json
  cc_trace :: "(nat \<times> rstr \<times> bool) list"

definition chain_context_new :: "json \<Rightarrow> ChainContext" where
  "chain_context_new input =
     \<lparr>cc_prev_output = [], cc_outputs = Map.empty, cc_input = input, cc_trace = []\<rparr>"

definition record_step :: "ChainContext \<Rightarrow> nat \<Rightarrow> rstr \<Rightarrow> rstr \<Rightarrow> rstr option \<Rightarrow> bool \<Rightarrow> ChainContext" where
  "record_step ctx idx tool output key success =
     (let key' = (case key of Some k \<Rightarrow> k | None \<Rightarrow> ''step'' @ show_nat idx) in
      ctx\<lparr>cc_outputs := (cc_outputs ctx)(key' \<mapsto> output), cc_prev_output := output,
          cc_trace := cc_trace ctx @ [(idx, tool, success)]\<rparr>)"

definition should_skip :: "ChainContext \<Rightarrow> ChainStep \<Rightarrow> bool" where
  "should_skip ctx step =
     (case cs_skip_if_prev_contains step of Some p \<Rightarrow> contains (cc_prev_output ctx) p | None \<Rightarrow> False)"

text \<open>
  \<^verbatim>\<open>str::replace\<close>, leftmost occurrences first and without overlap; the patterns below are never
  empty.
\<close>

function replace_text :: "rstr \<Rightarrow> rstr \<Rightarrow> rstr \<Rightarrow> rstr" where
  "replace_text pat new [] = []"
| "replace_text pat new (c # s) =
     (if pat \<noteq> [] \<and> starts_with (c # s) pat then new @ replace_text pat new (drop (length pat) (c # s))
      else c # replace_text pat new s)"
  by pat_completeness auto
termination
  by (relation "measure (\<lambda>(pat, new, s). length s)") (auto simp: starts_with_def)

type_synonym hash_order = "(rstr \<rightharpoonup> rstr) \<Rightarrow> (rstr \<times> rstr) list"

definition replace_outputs :: "(rstr \<times> rstr) list \<Rightarrow> rstr \<Rightarrow> rstr" where
  "replace_outputs outs s = foldl (\<lambda>r (k, v).
     let placeholder = ''$step.'' @ k in if contains r placeholder then replace_text placeholder v r else r) s outs"

definition replace_inputs :: "(json \<Rightarrow> rstr) \<Rightarrow> json \<Rightarrow> rstr \<Rightarrow> rstr" where
  "replace_inputs text_of input s =
     (case input of
        JObject es \<Rightarrow>
          if contains s ''$input.'' then
            foldl (\<lambda>r (k, v). let placeholder = ''$input.'' @ k in
              if contains r placeholder
              then replace_text placeholder (case v of JString t \<Rightarrow> t | _ \<Rightarrow> text_of v) r else r) s es
          else s
      | _ \<Rightarrow> s)"

definition resolve_string :: "hash_order \<Rightarrow> (json \<Rightarrow> rstr) \<Rightarrow> ChainContext \<Rightarrow> rstr \<Rightarrow> rstr" where
  "resolve_string order text_of ctx s =
     (let r = (if contains s ''$prev'' then replace_text ''$prev'' (cc_prev_output ctx) s else s) in
      replace_inputs text_of (cc_input ctx) (replace_outputs (order (cc_outputs ctx)) r))"

primrec resolve_args :: "hash_order \<Rightarrow> (json \<Rightarrow> rstr) \<Rightarrow> ChainContext \<Rightarrow> json \<Rightarrow> json" where
  "resolve_args order text_of ctx JNull = JNull"
| "resolve_args order text_of ctx (JBool b) = JBool b"
| "resolve_args order text_of ctx (JNumber t) = JNumber t"
| "resolve_args order text_of ctx (JString s) = JString (resolve_string order text_of ctx s)"
| "resolve_args order text_of ctx (JArray vs) = JArray (map (resolve_args order text_of ctx) vs)"
| "resolve_args order text_of ctx (JObject es) =
     JObject (map (map_prod id (resolve_args order text_of ctx)) es)"

primrec depends_on_previous_step :: "json \<Rightarrow> bool" where
  "depends_on_previous_step JNull = False"
| "depends_on_previous_step (JBool b) = False"
| "depends_on_previous_step (JNumber t) = False"
| "depends_on_previous_step (JString s) = (contains s ''$prev'' \<or> contains s ''$step.'')"
| "depends_on_previous_step (JArray vs) = list_ex id (map depends_on_previous_step vs)"
| "depends_on_previous_step (JObject es) =
     list_ex snd (map (map_prod id depends_on_previous_step) es)"

section \<open>Running a chain\<close>

datatype ChainStepResult = StepSkipped nat rstr | StepRan nat rstr rstr bool

record chain_run =
  cr_context :: ChainContext
  cr_results :: "ChainStepResult list"
  cr_failed :: bool
  cr_calls :: "(rstr \<times> json) list"

definition chain_cancelled_output :: rstr where
  "chain_cancelled_output = ''Chain cancelled; remaining steps were not run.''"

text \<open>
  The loop body by body. The ghost field \<^verbatim>\<open>cr_calls\<close> lists the calls handed to the executor.
\<close>

fun run_steps ::
  "hash_order \<Rightarrow> (json \<Rightarrow> rstr) \<Rightarrow> (nat \<Rightarrow> bool) \<Rightarrow> (nat \<Rightarrow> rstr \<Rightarrow> json \<Rightarrow> bool \<times> rstr) \<Rightarrow>
     nat \<Rightarrow> ChainStep list \<Rightarrow> chain_run \<Rightarrow> chain_run" where
  "run_steps order text_of cancelled exec idx [] run = run"
| "run_steps order text_of cancelled exec idx (step # steps) run =
     (let ctx = cr_context run in
      if cancelled idx then
        run\<lparr>cr_failed := True, cr_context := ctx\<lparr>cc_prev_output := chain_cancelled_output\<rparr>\<rparr>
      else if should_skip ctx step then
        run_steps order text_of cancelled exec (Suc idx) steps
          (run\<lparr>cr_results := cr_results run @ [StepSkipped idx (cs_tool step)]\<rparr>)
      else
        let resolved = resolve_args order text_of ctx (cs_args step);
            (is_err, output) = exec idx (cs_tool step) resolved;
            run' = run\<lparr>cr_context := record_step ctx idx (cs_tool step) output (cs_output_key step) (\<not> is_err),
                       cr_results := cr_results run @ [StepRan idx (cs_tool step) output (\<not> is_err)],
                       cr_calls := cr_calls run @ [(cs_tool step, resolved)]\<rparr> in
        if is_err then run'\<lparr>cr_failed := True\<rparr>
        else run_steps order text_of cancelled exec (Suc idx) steps run')"

definition execute_chain_outcome ::
  "hash_order \<Rightarrow> (json \<Rightarrow> rstr) \<Rightarrow> (nat \<Rightarrow> bool) \<Rightarrow> (nat \<Rightarrow> rstr \<Rightarrow> json \<Rightarrow> bool \<times> rstr) \<Rightarrow>
     ToolChain \<Rightarrow> json \<Rightarrow> chain_run" where
  "execute_chain_outcome order text_of cancelled exec chain input =
     run_steps order text_of cancelled exec 0 (tc_steps chain)
       \<lparr>cr_context = chain_context_new input, cr_results = [], cr_failed = False, cr_calls = []\<rparr>"

section \<open>The action that runs a chain\<close>

datatype RunChainError = RollbackUnsupported | InvalidChain "rstr list" | InvalidChainFormat

primrec decode_steps :: "json list \<Rightarrow> ChainStep list option" where
  "decode_steps [] = Some []"
| "decode_steps (v # vs) =
     (case (decode_step v, decode_steps vs) of (Some s, Some ss) \<Rightarrow> Some (s # ss) | _ \<Rightarrow> None)"

text \<open>The derived decoder of a chain, from an object; the caller reads \<^verbatim>\<open>action\<close> from it, so it is one.\<close>

definition decode_chain :: "json \<Rightarrow> ToolChain option" where
  "decode_chain args =
     (case (Option.bind (json_get args ''name'') json_as_str, Option.bind (json_get args ''description'') json_as_str,
            json_get args ''steps'') of
        (Some name, Some description, Some (JArray vs)) \<Rightarrow>
          map_option (\<lambda>steps. \<lparr>tc_name = name, tc_description = description, tc_steps = steps\<rparr>) (decode_steps vs)
      | _ \<Rightarrow> None)"

definition chain_input :: "json \<Rightarrow> json" where
  "chain_input args = (case json_get args ''input'' of Some v \<Rightarrow> v | None \<Rightarrow> JObject [])"

definition run_chain ::
  "hash_order \<Rightarrow> (json \<Rightarrow> rstr) \<Rightarrow> (nat \<Rightarrow> bool) \<Rightarrow> (nat \<Rightarrow> rstr \<Rightarrow> json \<Rightarrow> bool \<times> rstr) \<Rightarrow> rstr list \<Rightarrow>
     json \<Rightarrow> (RunChainError, chain_run) result" where
  "run_chain order text_of cancelled exec catalog args =
     (if json_get args ''rollback_on_failure'' \<noteq> None then Inl RollbackUnsupported
      else
        (case decode_chain args of
           None \<Rightarrow> Inl InvalidChainFormat
         | Some chain \<Rightarrow>
             (case chain_validate chain catalog of
                Inl missing \<Rightarrow> Inl (InvalidChain missing)
              | Inr _ \<Rightarrow> Inr (execute_chain_outcome order text_of cancelled exec chain (chain_input args)))))"

section \<open>Resolution without earlier outputs\<close>

lemma no_step_placeholder: "\<not> contains s ''$step.'' \<Longrightarrow> \<not> contains s (''$step.'' @ k)"
  unfolding contains_iff by (metis append.assoc)

lemma replace_outputs_unchanged: "\<not> contains s ''$step.'' \<Longrightarrow> replace_outputs outs s = s"
proof (induction outs)
  case (Cons kv outs)
  then show ?case
    using no_step_placeholder [of s "fst kv"]
    by (cases kv) (simp add: replace_outputs_def Let_def del: contains.simps)
qed (simp add: replace_outputs_def)

lemma resolve_string_independent:
  "\<not> contains s ''$prev'' \<Longrightarrow> \<not> contains s ''$step.'' \<Longrightarrow>
     resolve_string order text_of ctx s = replace_inputs text_of (cc_input ctx) s"
  by (simp add: resolve_string_def replace_outputs_unchanged Let_def del: contains.simps)

lemma resolve_args_independent:
  assumes "\<not> depends_on_previous_step args" "cc_input ctx = cc_input ctx'"
  shows "resolve_args order text_of ctx args = resolve_args order' text_of ctx' args"
  using assms(1)
proof (induction args rule: json_induct)
  case (JString s)
  with assms(2) show ?case
    by (simp add: resolve_string_independent del: contains.simps)
next
  case (JObject es)
  then have "\<not> depends_on_previous_step v" if "(k, v) \<in> set es" for k v
    using that by (force simp: list_ex_iff)
  with JObject.IH show ?case
    by auto
qed (auto simp: list_ex_iff)

lemma run_steps_input:
  "cc_input (cr_context (run_steps order text_of cancelled exec idx steps run)) = cc_input (cr_context run)"
  by (induction order text_of cancelled exec idx steps run rule: run_steps.induct)
    (simp_all add: record_step_def Let_def split: prod.splits)

lemma run_steps_calls:
  assumes "list_all (\<lambda>s. \<not> depends_on_previous_step (cs_args s)) steps"
    and "cc_input (cr_context run) = input"
  shows "\<exists>new. cr_calls (run_steps order text_of cancelled exec idx steps run) = cr_calls run @ new
    \<and> subseq new (map (\<lambda>s. (cs_tool s, resolve_args order text_of (chain_context_new input) (cs_args s))) steps)"
  using assms
proof (induction steps arbitrary: idx run)
  case (Cons step steps)
  let ?resolved = "resolve_args order text_of (chain_context_new input) (cs_args step)"
  have here: "resolve_args order text_of (cr_context run) (cs_args step) = ?resolved"
    using Cons.prems by (intro resolve_args_independent) (simp_all add: chain_context_new_def)
  obtain is_err res where ran: "exec idx (cs_tool step) ?resolved = (is_err, res)"
    by fastforce
  let ?run = "run\<lparr>cr_context := record_step (cr_context run) idx (cs_tool step) res (cs_output_key step) (\<not> is_err),
    cr_results := cr_results run @ [StepRan idx (cs_tool step) res (\<not> is_err)],
    cr_calls := cr_calls run @ [(cs_tool step, ?resolved)]\<rparr>"
  consider "cancelled idx" | "\<not> cancelled idx" "should_skip (cr_context run) step"
    | "\<not> cancelled idx" "\<not> should_skip (cr_context run) step" "is_err"
    | "\<not> cancelled idx" "\<not> should_skip (cr_context run) step" "\<not> is_err"
    by blast
  then show ?case
  proof cases
    case 2
    from Cons.IH [of "run\<lparr>cr_results := cr_results run @ [StepSkipped idx (cs_tool step)]\<rparr>" "Suc idx"] Cons.prems 2
    show ?thesis by (auto intro: list_emb_Cons)
  next
    case 4
    from Cons.IH [of ?run "Suc idx"] Cons.prems obtain new where
      "cr_calls (run_steps order text_of cancelled exec (Suc idx) steps ?run) = cr_calls ?run @ new"
      "subseq new (map (\<lambda>s. (cs_tool s, resolve_args order text_of (chain_context_new input) (cs_args s))) steps)"
      by (auto simp: record_step_def Let_def)
    with 4 here ran show ?thesis
      by (intro exI [of _ "(cs_tool step, ?resolved) # new"]) (simp add: Let_def)
  qed (use here ran in \<open>auto simp: Let_def\<close>)
qed simp

lemma execute_chain_calls:
  assumes "list_all (\<lambda>s. \<not> depends_on_previous_step (cs_args s)) (tc_steps chain)"
  shows "subseq (cr_calls (execute_chain_outcome order text_of cancelled exec chain input))
    (map (\<lambda>s. (cs_tool s, resolve_args order text_of (chain_context_new input) (cs_args s))) (tc_steps chain))"
  using run_steps_calls [OF assms, of "\<lparr>cr_context = chain_context_new input, cr_results = [], cr_failed = False,
      cr_calls = []\<rparr>" input order text_of cancelled exec 0]
  by (fastforce simp: execute_chain_outcome_def chain_context_new_def)

lemma subseq_member: "subseq xs ys \<Longrightarrow> x \<in> set xs \<Longrightarrow> x \<in> set ys"
  by (erule (1) list_emb_set) simp

text \<open>
  A chain whose steps name no earlier output makes only the calls that can be read off it
  before it runs, in that order: whatever the tools answer, whatever is skipped, cancelled or fails,
  the calls handed to the executor are a subsequence of the steps resolved against the chain's input
  alone.
\<close>

theorem chain_calls_foreseen:
  "list_all (\<lambda>s. \<not> depends_on_previous_step (cs_args s)) (tc_steps chain) \<Longrightarrow>
     subseq (cr_calls (execute_chain_outcome order text_of cancelled exec chain input))
       (map (\<lambda>s. (cs_tool s, resolve_args order text_of (chain_context_new input) (cs_args s))) (tc_steps chain))"
  by (rule execute_chain_calls)

definition two_step_chain :: ToolChain where
  "two_step_chain = chain_step (chain_step (tool_chain_new ''c'' ''d'') ''read_file''
     (JObject [(''path'', JString ''$input.f'')])) ''read_file'' (JObject [(''path'', JString ''b'')])"

theorem chain_calls_foreseen_witness:
  "subseq (cr_calls (execute_chain_outcome (\<lambda>_. []) (\<lambda>_. []) (\<lambda>_. False) (\<lambda>_ _ _. (False, ''$prev''))
       two_step_chain (JObject [(''f'', JString ''a'')])))
     [(''read_file'', JObject [(''path'', JString ''a'')]), (''read_file'', JObject [(''path'', JString ''b'')])]"
proof -
  have "list_all (\<lambda>s. \<not> depends_on_previous_step (cs_args s)) (tc_steps two_step_chain)"
    by code_simp
  moreover have "map (\<lambda>s. (cs_tool s, resolve_args (\<lambda>_. []) (\<lambda>_. [])
        (chain_context_new (JObject [(''f'', JString ''a'')])) (cs_args s))) (tc_steps two_step_chain) =
      [(''read_file'', JObject [(''path'', JString ''a'')]), (''read_file'', JObject [(''path'', JString ''b'')])]"
    by code_simp
  ultimately show ?thesis
    using chain_calls_foreseen [of two_step_chain "\<lambda>_. []" "\<lambda>_. []" "\<lambda>_. False" "\<lambda>_ _ _. (False, ''$prev'')"
        "JObject [(''f'', JString ''a'')]"] by (simp only:)
qed

section \<open>Decoding\<close>

lemma decode_steps_nth:
  "decode_steps vs = Some ss \<Longrightarrow> list_all2 (\<lambda>v s. decode_step v = Some s) vs ss"
  by (induction vs arbitrary: ss) (auto split: option.splits)

lemma decode_step_fields:
  "decode_step v = Some s \<Longrightarrow> json_get v ''tool'' = Some t \<Longrightarrow>
     t = JString (cs_tool s) \<and> json_get v ''args'' = Some (cs_args s)"
  by (cases v)
    (auto simp: decode_step_def step_of_fields_def json_get_def json_as_str_def
      split: option.splits json.splits prod.splits)
lemma decode_chain_steps:
  "decode_chain args = Some chain \<Longrightarrow>
     \<exists>vs. json_get args ''steps'' = Some (JArray vs) \<and> decode_steps vs = Some (tc_steps chain)"
  by (auto simp: decode_chain_def split: option.splits json.splits)

end
