(* ===== verification/Permission_Engine.thy ===== *)
theory Permission_Engine
  imports Permission_Context Permission_Scope Tool_Chain
begin

text \<open>
  The permission evaluator of \<^verbatim>\<open>permission/engine.rs\<close>. A request passes a fixed sequence of steps;
  each step records what it did in the trace and may decide, and the first decision is the answer.
  The source writes the sequence as one function with early returns; here each step is a definition
  that gives its trace entries and its decision, if any, and \<^verbatim>\<open>evaluate_permission_once\<close> takes the first
  decision of the list. A chain of tool calls is authorised step by step before it runs. The safety
  guards, the sensitive-path scan and the action profiles of other modules are parameters.
\<close>

section \<open>Data\<close>

record engine_env = scope_env +
  safety_denies :: "rstr \<Rightarrow> json \<Rightarrow> rstr option"
  absolute_danger :: "rstr \<Rightarrow> bool"
  sensitive_token :: "rstr \<Rightarrow> json \<Rightarrow> rstr option"
  explicit_approval_reason :: "rstr \<Rightarrow> json \<Rightarrow> rstr option"
  primary_approval_reason :: "rstr \<Rightarrow> json \<Rightarrow> rstr option"
  read_only_capability :: "rstr \<Rightarrow> bool"
  mcp_args_summary :: "json \<Rightarrow> rstr"
  decode_overrides :: "json \<Rightarrow> FingerprintedOverrides option"
  value_text :: "json \<Rightarrow> rstr"

datatype ResolvedToolEffect = EffectReadOnly | EffectMutating | EffectUnknown

datatype ProviderApprovalBaseline = NoAdditionalApproval | RequiresApproval

text \<open>The fields of a resolved provider policy the evaluator reads.\<close>

record ResolvedInvocationPolicy =
  po_collaborator_protocol :: bool
  po_effect :: ResolvedToolEffect
  po_approval :: ProviderApprovalBaseline

definition policy_requires_approval :: "ResolvedInvocationPolicy \<Rightarrow> bool" where
  "policy_requires_approval p = (po_approval p = RequiresApproval)"

definition policy_is_read_only :: "ResolvedInvocationPolicy \<Rightarrow> bool" where
  "policy_is_read_only p = (po_effect p = EffectReadOnly)"

definition policy_is_collaborator_stage :: "ResolvedInvocationPolicy \<Rightarrow> bool" where
  "policy_is_collaborator_stage p = po_collaborator_protocol p"

record ApprovalPrompt =
  ap_tool :: rstr
  ap_header :: rstr
  ap_detail :: "rstr option"
  ap_reason :: rstr
  ap_risk_tags :: "RiskTag list"

datatype HardDecision = HardAllow | HardDeny rstr | NeedExternal ApprovalPrompt

datatype RuleOrigin = OriginProject | OriginUser | OriginInherited | OriginSession | OriginCommandLine

datatype DecisionSource =
    SourceSchemaIdentity
  | SourceDenyRule rstr RuleOrigin
  | SourceSafetyMiddleware rstr
  | SourceGitSafety rstr
  | SourceSensitivePath rstr
  | SourceExecuteHardDeny rstr
  | SourceSandboxExpansion
  | SourceAskRule rstr RuleOrigin
  | SourceReadShortCircuit
  | SourceInternalOrchestration
  | SourceSessionOverride bool
  | SourceExplicitApprovalGate rstr
  | SourceAllowRule rstr RuleOrigin
  | SourceMode rstr
  | SourceUnmatchedFallback

datatype EvaluationStep =
  SchemaIdentity | DenyRules | SafetyMiddleware | GitSafety | ExecuteHardDeny | SensitivePath
  | SandboxExpand | ToolAllowlist | AskRules | ReadShortCircuit | SessionOverride | ExplicitApproval
  | AllowRules | StepMode

definition EVALUATION_ORDER :: "EvaluationStep list" where
  "EVALUATION_ORDER =
     [SchemaIdentity, DenyRules, SafetyMiddleware, GitSafety, ExecuteHardDeny, SensitivePath,
      SandboxExpand, ToolAllowlist, AskRules, ReadShortCircuit, SessionOverride, ExplicitApproval,
      AllowRules, StepMode]"

datatype TraceOutcome = Skipped | Matched HardDecision

record DecisionTraceStep =
  ts_step :: EvaluationStep
  ts_outcome :: TraceOutcome
  ts_note :: rstr

record DecisionEnvelope =
  de_decision :: HardDecision
  de_source :: DecisionSource
  de_trace :: "DecisionTraceStep list"
  de_will_save :: "rstr option"
  de_risk_tags :: "RiskTag list"

section \<open>The chain of steps\<close>

type_synonym trace = "DecisionTraceStep list"
type_synonym step_outcome = "trace \<times> (HardDecision \<times> DecisionSource) option"
type_synonym verdict = "trace \<times> HardDecision \<times> DecisionSource"

definition skipped :: "EvaluationStep \<Rightarrow> rstr \<Rightarrow> DecisionTraceStep" where
  "skipped st note = \<lparr>ts_step = st, ts_outcome = Skipped, ts_note = note\<rparr>"

definition matched :: "EvaluationStep \<Rightarrow> HardDecision \<Rightarrow> rstr \<Rightarrow> DecisionTraceStep" where
  "matched st d note = \<lparr>ts_step = st, ts_outcome = Matched d, ts_note = note\<rparr>"

definition pass :: "EvaluationStep \<Rightarrow> rstr \<Rightarrow> step_outcome" where
  "pass st note = ([skipped st note], None)"

definition decide :: "EvaluationStep \<Rightarrow> HardDecision \<Rightarrow> DecisionSource \<Rightarrow> rstr \<Rightarrow> step_outcome" where
  "decide st d src note = ([matched st d note], Some (d, src))"

fun first_decision :: "step_outcome list \<Rightarrow> verdict \<Rightarrow> verdict" where
  "first_decision [] v = v"
| "first_decision ((t, Some (d, src)) # _) v = (t, d, src)"
| "first_decision ((t, None) # os) v = (let (t', d, src) = first_decision os v in (t @ t', d, src))"

definition envelope ::
  "HardDecision \<Rightarrow> DecisionSource \<Rightarrow> trace \<Rightarrow> rstr option \<Rightarrow> RiskTag list \<Rightarrow> DecisionEnvelope" where
  "envelope d src t will_save tags =
     \<lparr>de_decision = d, de_source = src, de_trace = t,
      de_will_save = (case d of NeedExternal _ \<Rightarrow> will_save | _ \<Rightarrow> None),
      de_risk_tags = tags\<rparr>"

section \<open>Requests\<close>

definition in_quotes :: "rstr \<Rightarrow> rstr" where
  "in_quotes s = [CHR 0x27] @ s @ [CHR 0x27]"

definition is_execute_tool :: "'x engine_env_scheme \<Rightarrow> rstr \<Rightarrow> json \<Rightarrow> bool" where
  "is_execute_tool env tool args = (gated_kind env tool (Some args) = Some GatedExecute)"

definition git_safety_violations_for_request :: "'x engine_env_scheme \<Rightarrow> rstr \<Rightarrow> json \<Rightarrow> (rstr \<times> bool) list" where
  "git_safety_violations_for_request env tool args =
     (if is_execute_tool env tool args then
        (case command_hint_from_args args of Some c \<Rightarrow> git_violations env c | None \<Rightarrow> [])
      else [])"

definition sensitive_path_match :: "'x engine_env_scheme \<Rightarrow> rstr \<Rightarrow> json \<Rightarrow> rstr option" where
  "sensitive_path_match env tool args = sensitive_token env tool args"

definition push_risk_tag :: "RiskTag list \<Rightarrow> RiskTag \<Rightarrow> RiskTag list" where
  "push_risk_tag tags tag = (if tag \<in> set tags then tags else tags @ [tag])"

definition risk_tags_for_request :: "'x engine_env_scheme \<Rightarrow> rstr \<Rightarrow> json \<Rightarrow> RiskTag list" where
  "risk_tags_for_request env tool args =
     foldl push_risk_tag []
       ((if starts_with tool ''sandbox_expand:'' then [RiskSandboxExpansion] else [])
        @ (if starts_with tool ''mcp_'' then [MCPUnknownCapability] else [])
        @ (case gated_kind env tool (Some args) of
             Some GatedExecute \<Rightarrow> [BashExecute]
           | Some GatedWrite \<Rightarrow>
               if sensitive_path_match env tool args \<noteq> None then [WritesSensitiveFile] else [WritesOutsidePackage]
           | None \<Rightarrow> [])
        @ (if git_safety_violations_for_request env tool args \<noteq> [] then [GitDestructive] else [])
        @ (if tool = ''mo_query''
             \<and> (case safety_denies env tool args of
                  Some reason \<Rightarrow> contains (to_ascii_lowercase reason) ''statements are blocked'' | None \<Rightarrow> False)
           then [SqlDestructive] else []))"

definition request_risk_tags ::
  "'x engine_env_scheme \<Rightarrow> rstr \<Rightarrow> json \<Rightarrow> ResolvedInvocationPolicy option \<Rightarrow> RiskTag list" where
  "request_risk_tags env tool args provider =
     (let tags = risk_tags_for_request env tool args in
      case provider of
        None \<Rightarrow> tags
      | Some policy \<Rightarrow>
          let kept = filter (\<lambda>tag. tag \<notin> {MCPUnknownCapability, BashExecute, WritesSensitiveFile, WritesOutsidePackage}) tags in
          if policy_is_read_only policy then kept
          else if po_effect policy = EffectMutating then push_risk_tag kept ProviderSideEffect
          else push_risk_tag kept ProviderUnknownCapability)"

definition allow_rule_preview :: "'x engine_env_scheme \<Rightarrow> rstr \<Rightarrow> json \<Rightarrow> rstr" where
  "allow_rule_preview env tool args =
     allow_rule_for_match_target env tool args (default_match_target env tool args)"

definition permission_prompt_primary_detail :: "'x engine_env_scheme \<Rightarrow> rstr \<Rightarrow> json \<Rightarrow> rstr option" where
  "permission_prompt_primary_detail env tool args =
     (if starts_with tool ''mcp_'' then Some (mcp_args_summary env args)
      else case gated_kind env tool (Some args) of
             Some GatedExecute \<Rightarrow> command_hint_from_args args
           | Some GatedWrite \<Rightarrow> path_hint_from_args args
           | None \<Rightarrow> opt_or (command_hint_from_args args) (path_hint_from_args args))"

definition approval_prompt :: "'x engine_env_scheme \<Rightarrow> rstr \<Rightarrow> json \<Rightarrow> rstr \<Rightarrow> RiskTag list \<Rightarrow> ApprovalPrompt" where
  "approval_prompt env tool args reason tags =
     \<lparr>ap_tool = tool,
      ap_header = (case gated_kind env tool (Some args) of
                     Some GatedExecute \<Rightarrow> ''Execute '' @ tool
                   | Some GatedWrite \<Rightarrow> ''Write with '' @ tool
                   | None \<Rightarrow> tool @ '' requires approval''),
      ap_detail = permission_prompt_primary_detail env tool args,
      ap_reason = reason, ap_risk_tags = tags\<rparr>"

section \<open>Session overrides\<close>

definition content_aware_fingerprint :: "'x engine_env_scheme \<Rightarrow> rstr \<Rightarrow> json \<Rightarrow> ApprovalFingerprint" where
  "content_aware_fingerprint env tool args =
     (let ul = unicode_lower env in
      case gated_kind env tool None of
        Some GatedExecute \<Rightarrow>
          (case command_hint_from_args args of
             None \<Rightarrow> fp_bare ul tool
           | Some cmd \<Rightarrow> fp_shell ul tool cmd (is_read_only_tool_with_args (shell_reads env) tool (Some args)))
      | Some GatedWrite \<Rightarrow>
          (case path_hint_from_args args of
             None \<Rightarrow> fp_bare ul tool
           | Some path \<Rightarrow> fp_file_op_exact ul (file_write_rule_tool tool) (Some path))
      | None \<Rightarrow> fp_bare ul tool)"

definition push_unique_fingerprint :: "ApprovalFingerprint list \<Rightarrow> ApprovalFingerprint \<Rightarrow> ApprovalFingerprint list" where
  "push_unique_fingerprint fps fp = (if fp \<in> set fps then fps else fps @ [fp])"

definition content_aware_fingerprint_candidates ::
  "'x engine_env_scheme \<Rightarrow> rstr \<Rightarrow> json \<Rightarrow> ApprovalFingerprint list" where
  "content_aware_fingerprint_candidates env tool args =
     (let ul = unicode_lower env; primary = [content_aware_fingerprint env tool args] in
      case (gated_kind env tool None, path_hint_from_args args) of
        (Some GatedWrite, Some path) \<Rightarrow>
          foldl push_unique_fingerprint primary
            ((if registry_is_file_op tool then [fp_file_op_exact ul ''file_write'' (Some path)] else [])
             @ (case resolved_write_path env path of
                  None \<Rightarrow> []
                | Some resolved \<Rightarrow>
                    fp_file_op_exact ul tool (Some resolved)
                    # (if registry_is_file_op tool then [fp_file_op_exact ul ''file_write'' (Some resolved)] else [])))
      | _ \<Rightarrow> primary)"

definition fingerprinted_override_match ::
  "'x engine_env_scheme \<Rightarrow> rstr \<Rightarrow> json \<Rightarrow> PermissionSyncContext \<Rightarrow> (ApprovalFingerprint \<times> bool) option" where
  "fingerprinted_override_match env tool args ctx =
     (case ip_fingerprinted_overrides (sc_inherited ctx) of
        None \<Rightarrow> None
      | Some blob \<Rightarrow>
          (case decode_overrides env blob of
             None \<Rightarrow> Some (fp_bare (unicode_lower env) tool, False)
           | Some overrides \<Rightarrow>
               (case List.map_filter (matching_rule (unicode_lower env) overrides)
                       (content_aware_fingerprint_candidates env tool args) of
                  [] \<Rightarrow> None | hit # _ \<Rightarrow> Some hit)))"

definition fingerprinted_override ::
  "'x engine_env_scheme \<Rightarrow> rstr \<Rightarrow> json \<Rightarrow> PermissionSyncContext \<Rightarrow> bool option" where
  "fingerprinted_override env tool args ctx = map_option snd (fingerprinted_override_match env tool args ctx)"

definition stored_override_allows_git_safety :: "ApprovalFingerprint \<Rightarrow> bool" where
  "stored_override_allows_git_safety stored = (fp_command_exact stored \<noteq> None)"

definition stored_override_allows_sensitive_path :: "'x engine_env_scheme \<Rightarrow> ApprovalFingerprint \<Rightarrow> bool" where
  "stored_override_allows_sensitive_path env stored =
     (case opt_or (fp_command_exact stored) (fp_command_prefix stored) of
        Some command \<Rightarrow> sensitive_path_match env ''bash'' (JObject [(''command'', JString command)]) \<noteq> None
      | None \<Rightarrow>
          (case fp_path_pattern stored of
             None \<Rightarrow> False
           | Some path \<Rightarrow> sensitive_path_match env (fp_tool_name stored) (JObject [(''path'', JString path)]) \<noteq> None))"

section \<open>Guards\<close>

datatype GuardResolution = GuardContinue "rstr list" | GuardReturn HardDecision DecisionSource rstr "rstr list"

abbreviation ctx_mode :: "PermissionSyncContext \<Rightarrow> PermissionMode" where
  "ctx_mode ctx \<equiv> ip_mode (sc_inherited ctx)"

abbreviation has_allowlist :: "PermissionSyncContext \<Rightarrow> bool" where
  "has_allowlist ctx \<equiv> ip_allowed_tools (sc_inherited ctx) \<noteq> None"

definition git_guard_without_override ::
  "'x engine_env_scheme \<Rightarrow> rstr \<Rightarrow> json \<Rightarrow> PermissionSyncContext \<Rightarrow> rstr \<Rightarrow> bool \<Rightarrow> RiskTag list \<Rightarrow> rstr list \<Rightarrow> GuardResolution" where
  "git_guard_without_override env tool args ctx joined has_hard tags notes =
     (if skips_human_approval_prompts (ctx_mode ctx) then
        GuardContinue (notes @ [''git risk retained as advisory in bypass mode: '' @ joined])
      else if auto_allows_soft_git_policy (ctx_mode ctx) \<and> \<not> has_hard then
        GuardContinue (notes @
          [(if has_allowlist ctx then ''auto mode soft violation, deferring to allowlist: ''
            else ''soft git risk retained as advisory in auto mode: '') @ joined])
      else
        let reason = ''Git safety: '' @ joined in
        GuardReturn (NeedExternal (approval_prompt env tool args reason tags)) (SourceGitSafety reason) reason notes)"

definition resolve_git_safety_guard ::
  "'x engine_env_scheme \<Rightarrow> rstr \<Rightarrow> json \<Rightarrow> PermissionSyncContext \<Rightarrow> rstr list \<Rightarrow> bool \<Rightarrow> RiskTag list \<Rightarrow> GuardResolution" where
  "resolve_git_safety_guard env tool args ctx reasons has_hard tags =
     (let joined = join_with '', '' reasons in
      if ctx_mode ctx = ModeDeny then
        GuardReturn (HardDeny ''Git safety violation (deny mode)'') (SourceGitSafety joined) joined []
      else
        (case fingerprinted_override_match env tool args ctx of
           None \<Rightarrow> git_guard_without_override env tool args ctx joined has_hard tags []
         | Some (stored, allowed) \<Rightarrow>
             if allowed \<and> \<not> stored_override_allows_git_safety stored then
               git_guard_without_override env tool args ctx joined has_hard tags
                 [''broad session override cannot bypass git safety'']
             else if has_allowlist ctx then
               GuardContinue [''session override matched git violation, deferring to allowlist: '' @ joined]
             else
               GuardReturn (if allowed then HardAllow else HardDeny ''Skipped for session'')
                 (SourceSessionOverride allowed) ''fingerprinted session override matched git safety request'' []))"

definition sensitive_guard_without_override ::
  "'x engine_env_scheme \<Rightarrow> rstr \<Rightarrow> json \<Rightarrow> PermissionSyncContext \<Rightarrow> rstr \<Rightarrow> RiskTag list \<Rightarrow> rstr list \<Rightarrow> GuardResolution" where
  "sensitive_guard_without_override env tool args ctx path tags notes =
     (if skips_human_approval_prompts (ctx_mode ctx) then
        if has_allowlist ctx then
          GuardContinue (notes @ [''bypass mode sensitive path, deferring to allowlist''])
        else GuardReturn HardAllow (SourceSensitivePath path) ''sensitive path allowed by bypass mode'' notes
      else
        GuardReturn (NeedExternal (approval_prompt env tool args
            ''Targets a sensitive file path and requires manual approval'' tags))
          (SourceSensitivePath path) path notes)"

definition resolve_sensitive_path_guard ::
  "'x engine_env_scheme \<Rightarrow> rstr \<Rightarrow> json \<Rightarrow> PermissionSyncContext \<Rightarrow> rstr \<Rightarrow> RiskTag list \<Rightarrow> GuardResolution" where
  "resolve_sensitive_path_guard env tool args ctx path tags =
     (if ctx_mode ctx = ModeDeny then
        GuardReturn (HardDeny ''Sensitive path (deny mode)'') (SourceSensitivePath path) path []
      else
        (case fingerprinted_override_match env tool args ctx of
           None \<Rightarrow> sensitive_guard_without_override env tool args ctx path tags []
         | Some (stored, allowed) \<Rightarrow>
             if allowed \<and> \<not> stored_override_allows_sensitive_path env stored then
               sensitive_guard_without_override env tool args ctx path tags
                 [''broad session override cannot bypass sensitive path'']
             else if has_allowlist ctx then
               GuardContinue [''session override matched sensitive path, deferring to allowlist'']
             else
               GuardReturn (if allowed then HardAllow else HardDeny ''Sensitive path denied for session'')
                 (SourceSessionOverride allowed) ''fingerprinted session override matched sensitive path'' []))"

definition guard_outcome :: "EvaluationStep \<Rightarrow> rstr \<Rightarrow> GuardResolution \<Rightarrow> step_outcome" where
  "guard_outcome st skip_note g =
     (case g of
        GuardContinue notes \<Rightarrow> (map (skipped st) notes @ [skipped st skip_note], None)
      | GuardReturn d src detail notes \<Rightarrow> (map (skipped st) notes @ [matched st d detail], Some (d, src)))"

definition is_ascii_whitespace :: "char \<Rightarrow> bool" where
  "is_ascii_whitespace c = (c \<in> set [CHR 0x20, CHR 0x09, CHR 0x0A, CHR 0x0C, CHR 0x0D])"

fun pipe_loop :: "rstr \<Rightarrow> bool \<Rightarrow> rstr \<Rightarrow> bool" where
  "pipe_loop target escaped [] = False"
| "pipe_loop target escaped (b # s) =
     (if b \<noteq> CHR ''|'' \<or> escaped then pipe_loop target (b = CHR 0x5C) s
      else
        (case strip_prefix target (dropWhile is_ascii_whitespace s) of
           Some rest \<Rightarrow> rest = [] \<or> starts_with_whitespace rest
         | None \<Rightarrow> False) \<or> pipe_loop target False s)"

definition contains_pipe_to :: "rstr \<Rightarrow> rstr \<Rightarrow> bool" where
  "contains_pipe_to command target = pipe_loop target False command"

definition execute_hard_deny_reason :: "'x engine_env_scheme \<Rightarrow> rstr \<Rightarrow> json \<Rightarrow> rstr option" where
  "execute_hard_deny_reason env tool args =
     (if \<not> is_execute_tool env tool args then None
      else
        (case command_hint_from_args args of
           None \<Rightarrow> None
         | Some command \<Rightarrow>
             let lower_command = to_ascii_lowercase command in
             if absolute_danger env command then Some ''Dangerous command refused''
             else if contains lower_command ''shred '' \<or> contains lower_command ''wipefs''
               then Some ''Dangerous command refused: destructive disk/file wiping''
             else if contains lower_command ''fdisk'' \<or> contains lower_command ''parted ''
               then Some ''Dangerous command refused: low-level disk mutation''
             else if list_ex (contains_pipe_to lower_command) [''sh'', ''bash'', ''/bin/sh'', ''/bin/bash'']
               then Some ''Dangerous command refused: shell interpreter pipeline''
             else None))"

section \<open>Orchestration and edits\<close>

definition json_as_array :: "json \<Rightarrow> json list option" where
  "json_as_array v = (case v of JArray vs \<Rightarrow> Some vs | _ \<Rightarrow> None)"

definition text_field :: "json \<Rightarrow> rstr \<Rightarrow> rstr option" where
  "text_field v key = Option.bind (json_get v key) json_as_str"

definition array_field :: "json \<Rightarrow> rstr \<Rightarrow> json list option" where
  "array_field v key = Option.bind (json_get v key) json_as_array"

definition SAFE_WORK_PLAN_MAX_ADDITIONS :: nat where
  "SAFE_WORK_PLAN_MAX_ADDITIONS = 16"

definition SAFE_WORK_PLAN_MAX_DEPENDENCIES :: nat where
  "SAFE_WORK_PLAN_MAX_DEPENDENCIES = 64"

definition is_safe_additive_work_plan_proposal :: "json \<Rightarrow> bool" where
  "is_safe_additive_work_plan_proposal args =
     (case (array_field args ''additions'', array_field args ''dependencies'', array_field args ''revisions'',
            array_field args ''dependency_removals'') of
        (Some additions, Some dependencies, Some revisions, Some removals) \<Rightarrow>
          let new_ids = set (List.map_filter (\<lambda>item. text_field item ''item_id'') additions) in
          additions \<noteq> [] \<and> length additions \<le> SAFE_WORK_PLAN_MAX_ADDITIONS
          \<and> length dependencies \<le> SAFE_WORK_PLAN_MAX_DEPENDENCIES \<and> revisions = [] \<and> removals = []
          \<and> card new_ids = length additions
          \<and> list_all (\<lambda>edge. case text_field edge ''successor_item_id'' of Some s \<Rightarrow> s \<in> new_ids | None \<Rightarrow> False)
              dependencies
      | _ \<Rightarrow> False)"

definition is_internal_orchestration_control :: "rstr \<Rightarrow> json \<Rightarrow> bool" where
  "is_internal_orchestration_control tool args =
     (if tool = ''send_message'' then True
      else if tool = ''agent'' then
        (case agent_action_from_args args of
           Inr action \<Rightarrow> action \<in> {Spawn, GetResult, Wait, SendMessage} | Inl _ \<Rightarrow> False)
      else if tool = ''agent_fanout'' then
        (case agent_fanout_action_from_args args of
           Inr action \<Rightarrow> action \<in> {StartGroup, GetResults} | Inl _ \<Rightarrow> False)
      else if tool = ''start_work'' then True
      else if tool = ''propose_work_plan'' then is_safe_additive_work_plan_proposal args
      else tool = ''propose_work_criteria'')"

definition accept_edits_auto_allows :: "'x engine_env_scheme \<Rightarrow> rstr \<Rightarrow> json \<Rightarrow> bool" where
  "accept_edits_auto_allows env tool args =
     (gated_kind env tool (Some args) = Some GatedWrite
      \<and> (case default_match_target env tool args of TargetPrefix _ \<Rightarrow> True | _ \<Rightarrow> False))"

definition sandbox_expand_action_label :: "'x engine_env_scheme \<Rightarrow> rstr \<Rightarrow> rstr" where
  "sandbox_expand_action_label env inner =
     (case gated_kind env inner None of
        Some GatedWrite \<Rightarrow> ''write''
      | Some GatedExecute \<Rightarrow> ''execute''
      | None \<Rightarrow>
          if inner \<in> set [''read_file'', ''list_dir'', ''grep'', ''glob'', ''symbols'', ''find_definition'',
             ''find_references'', ''symbol_search'', ''hover_info'', ''extract_members'']
          then ''read'' else ''access'')"

definition plan_mode_denial_reason :: "rstr \<Rightarrow> rstr" where
  "plan_mode_denial_reason tool =
     ''Tool '' @ in_quotes tool @ '' denied by permission mode. Plan mode keeps the normal tool surface for exploration but allows only read-only invocations plus ''
     @ [CHR 0x60] @ ''enter_plan_mode'' @ [CHR 0x60] @ '' / '' @ [CHR 0x60] @ ''exit_plan_mode'' @ [CHR 0x60]
     @ ''; author the plan, then call '' @ [CHR 0x60] @ ''exit_plan_mode(plan=...)'' @ [CHR 0x60] @ ''.''"

section \<open>The steps\<close>

text \<open>One request, as the steps see it.\<close>

record request =
  rq_tool :: rstr
  rq_args :: json
  rq_ctx :: PermissionSyncContext
  rq_provider :: "ResolvedInvocationPolicy option"
  rq_discovery :: "rstr option"

abbreviation rq_mode :: "request \<Rightarrow> PermissionMode" where
  "rq_mode r \<equiv> ctx_mode (rq_ctx r)"

definition rq_tags :: "'x engine_env_scheme \<Rightarrow> request \<Rightarrow> RiskTag list" where
  "rq_tags env r = request_risk_tags env (rq_tool r) (rq_args r) (rq_provider r)"

definition rq_match :: "'x engine_env_scheme \<Rightarrow> request \<Rightarrow> RuleMatchContext" where
  "rq_match env r = context_from_tool_args env (rq_tool r) (rq_args r)"

definition rq_prompt :: "'x engine_env_scheme \<Rightarrow> request \<Rightarrow> rstr \<Rightarrow> HardDecision" where
  "rq_prompt env r reason = NeedExternal (approval_prompt env (rq_tool r) (rq_args r) reason (rq_tags env r))"

definition deny_step :: "'x engine_env_scheme \<Rightarrow> request \<Rightarrow> step_outcome" where
  "deny_step env r =
     (if context_denies env (rq_ctx r) (rq_tool r) (rq_match env r) then
        decide DenyRules (HardDeny (''Tool '' @ in_quotes (rq_tool r) @ '' denied by permission rules''))
          (SourceDenyRule (rq_tool r) OriginInherited) ''deny rule matched''
      else pass DenyRules ''no deny rule matched'')"

definition provably_read_only :: "'x engine_env_scheme \<Rightarrow> request \<Rightarrow> bool" where
  "provably_read_only env r =
     (case rq_provider r of
        None \<Rightarrow> is_read_only_tool_with_args (shell_reads env) (rq_tool r) (Some (rq_args r))
      | Some policy \<Rightarrow> policy_is_read_only policy)"

definition collaborator_stage :: "request \<Rightarrow> bool" where
  "collaborator_stage r =
     (case rq_provider r of None \<Rightarrow> False | Some policy \<Rightarrow> policy_is_collaborator_stage policy)"

definition inherited_collaborator_stage :: "request \<Rightarrow> bool" where
  "inherited_collaborator_stage r =
     (ip_read_only_execution (sc_inherited (rq_ctx r)) \<and> collaborator_stage r)"

definition coordination_or_consultation :: "'x engine_env_scheme \<Rightarrow> request \<Rightarrow> bool" where
  "coordination_or_consultation env r =
     (rq_provider r = None
        \<and> (is_internal_orchestration_control (rq_tool r) (rq_args r)
           \<or> cl_category (classify (shell_reads env) (rq_tool r) (Some (rq_args r))) = CatConsultative
           \<or> read_only_capability env (rq_tool r))
      \<or> collaborator_stage r)"

definition ceiling_reason :: rstr where
  "ceiling_reason = ''read-only agent cannot execute a shell, LSP, or non-read-only tool''"

definition ceiling_step :: "'x engine_env_scheme \<Rightarrow> request \<Rightarrow> step_outcome" where
  "ceiling_step env r =
     (if ip_read_only_execution (sc_inherited (rq_ctx r))
         \<and> (rq_tool r = ''bash'' \<or> rq_tool r = ''lsp''
            \<or> rq_tool r \<noteq> ''bash'' \<and> \<not> provably_read_only env r \<and> \<not> coordination_or_consultation env r)
      then decide SafetyMiddleware (HardDeny ceiling_reason) (SourceSafetyMiddleware ceiling_reason) ceiling_reason
      else ([], None))"

definition safety_relaxed :: "request \<Rightarrow> rstr \<Rightarrow> bool" where
  "safety_relaxed r reason =
     (relaxes_soft_shell_obfuscation (rq_mode r) \<and> contains reason ''shell_obfuscation''
      \<and> \<not> contains reason ''catastrophic'')"

definition safety_step :: "'x engine_env_scheme \<Rightarrow> request \<Rightarrow> step_outcome" where
  "safety_step env r =
     (case safety_denies env (rq_tool r) (rq_args r) of
        None \<Rightarrow> pass SafetyMiddleware ''safety guards passed''
      | Some reason \<Rightarrow>
          if safety_relaxed r reason then
            ([matched SafetyMiddleware HardAllow (''auto mode relaxed: '' @ reason)], None)
          else decide SafetyMiddleware (HardDeny reason) (SourceSafetyMiddleware reason) reason)"

definition git_step :: "'x engine_env_scheme \<Rightarrow> request \<Rightarrow> step_outcome" where
  "git_step env r =
     (let violations = git_safety_violations_for_request env (rq_tool r) (rq_args r) in
      if violations = [] then pass GitSafety ''no git violation''
      else guard_outcome GitSafety ''no git violation''
        (resolve_git_safety_guard env (rq_tool r) (rq_args r) (rq_ctx r) (map fst violations)
          (list_ex (\<lambda>v. \<not> snd v) violations) (rq_tags env r)))"

definition hard_deny_step :: "'x engine_env_scheme \<Rightarrow> request \<Rightarrow> step_outcome" where
  "hard_deny_step env r =
     (case execute_hard_deny_reason env (rq_tool r) (rq_args r) of
        None \<Rightarrow> pass ExecuteHardDeny ''no execute hard deny''
      | Some reason \<Rightarrow>
          decide ExecuteHardDeny
            (HardDeny (if rq_mode r = ModeDeny then ''Command hard-denied (deny mode)'' else reason))
            (SourceExecuteHardDeny reason) reason)"

definition sensitive_step :: "'x engine_env_scheme \<Rightarrow> request \<Rightarrow> step_outcome" where
  "sensitive_step env r =
     (case sensitive_path_match env (rq_tool r) (rq_args r) of
        None \<Rightarrow> pass SensitivePath ''no sensitive path''
      | Some path \<Rightarrow>
          guard_outcome SensitivePath ''no sensitive path''
            (resolve_sensitive_path_guard env (rq_tool r) (rq_args r) (rq_ctx r) path (rq_tags env r)))"

definition sandbox_prompt :: "'x engine_env_scheme \<Rightarrow> request \<Rightarrow> rstr \<Rightarrow> ApprovalPrompt" where
  "sandbox_prompt env r inner =
     (let directory = Option.bind (text_field (rq_args r) ''directory'') (\<lambda>d. if trim d = [] then None else Some d);
          action = sandbox_expand_action_label env inner in
      \<lparr>ap_tool = rq_tool r,
       ap_header = (case directory of
                      Some d \<Rightarrow> inner @ '' wants to '' @ action @ '' in '' @ d
                    | None \<Rightarrow> inner @ '' wants to '' @ action @ '' outside the project''),
       ap_detail = map_option (\<lambda>d. ''Approve temporary sandbox access to '' @ d) directory,
       ap_reason = (case text_field (rq_args r) ''reason'' of
                      Some reason \<Rightarrow> reason | None \<Rightarrow> ''Access to path outside project boundary''),
       ap_risk_tags = rq_tags env r\<rparr>)"

definition sandbox_step :: "'x engine_env_scheme \<Rightarrow> request \<Rightarrow> step_outcome" where
  "sandbox_step env r =
     (case strip_prefix ''sandbox_expand:'' (rq_tool r) of
        None \<Rightarrow> pass SandboxExpand ''not a sandbox expansion''
      | Some inner \<Rightarrow>
          if auto_resolves_approval_prompts (rq_mode r) then
            decide SandboxExpand HardAllow SourceSandboxExpansion ''sandbox expansion allowed by mode''
          else
            (case the (manual_approval_policy (rq_mode r)) of
               ManualPlan \<Rightarrow>
                 decide SandboxExpand (HardDeny ''Sandbox expansion denied (plan mode)'') SourceSandboxExpansion
                   ''sandbox expansion denied by mode''
             | ManualDeny \<Rightarrow>
                 decide SandboxExpand (HardDeny ''Sandbox expansion denied (deny mode)'') SourceSandboxExpansion
                   ''sandbox expansion denied by mode''
             | _ \<Rightarrow>
                 decide SandboxExpand (NeedExternal (sandbox_prompt env r inner)) SourceSandboxExpansion
                   ''sandbox expansion requires approval''))"

definition allowlist_step :: "'x engine_env_scheme \<Rightarrow> request \<Rightarrow> step_outcome" where
  "allowlist_step env r =
     (let p = sc_inherited (rq_ctx r) in
      if ip_allowed_tools p = None then pass ToolAllowlist ''no tool allowlist''
      else if \<not> is_tool_allowed_by_allowlist p (rq_tool r)
        \<and> \<not> (rq_provider r \<noteq> None
             \<and> (case rq_discovery r of Some source \<Rightarrow> is_tool_allowed_by_allowlist p source | None \<Rightarrow> False))
      then decide ToolAllowlist (HardDeny (''Tool '' @ in_quotes (rq_tool r) @ '' not in allowed tools list''))
             (SourceMode ''agent policy allowlist'') ''tool not in allowed_tools''
      else pass ToolAllowlist ''tool in allowed_tools; continuing to permission mode'')"

definition ask_step :: "'x engine_env_scheme \<Rightarrow> request \<Rightarrow> step_outcome" where
  "ask_step env r =
     (case ask_rule_with_context env (sc_inherited (rq_ctx r)) (rq_tool r) (rq_match env r) of
        None \<Rightarrow> pass AskRules ''no ask rule matched''
      | Some rule \<Rightarrow>
          if skips_human_approval_prompts (rq_mode r) then pass AskRules ''ask rule skipped by bypass mode''
          else
            let reason = ''Tool '' @ in_quotes (rq_tool r) @ '' requires parent approval'' in
            decide AskRules (rq_prompt env r reason) (SourceAskRule (rule_to_string rule) OriginInherited) reason)"

definition provider_requires_approval :: "request \<Rightarrow> bool" where
  "provider_requires_approval r =
     (case rq_provider r of
        None \<Rightarrow> False
      | Some policy \<Rightarrow> policy_requires_approval policy \<and> \<not> inherited_collaborator_stage r)"

definition static_explicit_reason :: "'x engine_env_scheme \<Rightarrow> request \<Rightarrow> rstr option" where
  "static_explicit_reason env r =
     (if rq_provider r = None then explicit_approval_reason env (rq_tool r) (rq_args r) else None)"

definition read_step :: "'x engine_env_scheme \<Rightarrow> request \<Rightarrow> step_outcome" where
  "read_step env r =
     (if static_explicit_reason env r = None \<and> \<not> provider_requires_approval r \<and> provably_read_only env r
         \<and> rq_mode r \<noteq> ModeDeny
      then decide ReadShortCircuit HardAllow SourceReadShortCircuit ''read-only tool''
      else pass ReadShortCircuit ''not read-only'')"

definition plan_step :: "'x engine_env_scheme \<Rightarrow> request \<Rightarrow> step_outcome" where
  "plan_step env r =
     (if rq_mode r \<noteq> ModePlan then ([], None)
      else
        let before = [skipped SessionOverride ''plan mode ignores mutating session overrides'',
                      skipped ExplicitApproval ''plan mode never escalates mutating requests'',
                      skipped AllowRules ''plan mode ignores mutating allow rules''];
            label = mode_text (rq_mode r) in
        if collaborator_stage r \<or> \<not> is_plan_mode_blocked_tool (shell_reads env) (rq_tool r) (rq_args r) then
          (before @ [matched StepMode HardAllow
             (if collaborator_stage r then ''collaborator stage admitted; its adapter applies the plan-mode ceiling''
              else ''allowed by plan-mode policy'')],
           Some (HardAllow, SourceMode label))
        else
          let d = HardDeny (plan_mode_denial_reason (rq_tool r)) in
          (before @ [matched StepMode d label], Some (d, SourceMode label)))"

definition override_step :: "'x engine_env_scheme \<Rightarrow> request \<Rightarrow> step_outcome" where
  "override_step env r =
     (case fingerprinted_override env (rq_tool r) (rq_args r) (rq_ctx r) of
        None \<Rightarrow> pass SessionOverride ''no fingerprinted override''
      | Some allowed \<Rightarrow>
          decide SessionOverride (if allowed then HardAllow else HardDeny ''Skipped for session'')
            (SourceSessionOverride allowed) ''fingerprinted session override matched'')"

definition explicit_reason :: "'x engine_env_scheme \<Rightarrow> request \<Rightarrow> rstr option" where
  "explicit_reason env r =
     opt_or (static_explicit_reason env r)
       (if provider_requires_approval r then Some ''resolved provider capability requires approval'' else None)"

definition explicit_step :: "'x engine_env_scheme \<Rightarrow> request \<Rightarrow> step_outcome" where
  "explicit_step env r =
     (case explicit_reason env r of
        None \<Rightarrow> pass ExplicitApproval ''no explicit approval requirement''
      | Some policy_reason \<Rightarrow>
          let prompt_reason = (case primary_approval_reason env (rq_tool r) (rq_args r) of
                                 Some p \<Rightarrow> p | None \<Rightarrow> policy_reason);
              src = SourceExplicitApprovalGate policy_reason in
          if auto_resolves_approval_prompts (rq_mode r) then
            decide ExplicitApproval HardAllow src ''explicit approval auto-allowed by mode''
          else
            (case the (manual_approval_policy (rq_mode r)) of
               ManualPlan \<Rightarrow> decide ExplicitApproval (HardDeny ''Explicit approval required (plan mode)'') src policy_reason
             | ManualDeny \<Rightarrow> decide ExplicitApproval (HardDeny ''Explicit approval required (deny mode)'') src policy_reason
             | _ \<Rightarrow> decide ExplicitApproval (rq_prompt env r prompt_reason) src policy_reason))"

definition allow_step :: "'x engine_env_scheme \<Rightarrow> request \<Rightarrow> step_outcome" where
  "allow_step env r =
     (if context_allows env (rq_ctx r) (rq_tool r) (rq_match env r) then
        decide AllowRules HardAllow (SourceAllowRule (rq_tool r) OriginInherited) ''allow rule matched''
      else pass AllowRules ''no allow rule matched'')"

definition collaborator_step :: "request \<Rightarrow> step_outcome" where
  "collaborator_step r =
     (if inherited_collaborator_stage r \<and> rq_mode r \<noteq> ModeDeny then
        decide StepMode HardAllow SourceInternalOrchestration
          ''collaborator stage admitted by the read-only execution ceiling; workspace effects remain grant-bound''
      else ([], None))"

definition orchestration_step :: "request \<Rightarrow> step_outcome" where
  "orchestration_step r =
     (if rq_mode r \<noteq> ModeDeny \<and> is_internal_orchestration_control (rq_tool r) (rq_args r) then
        decide StepMode HardAllow SourceInternalOrchestration ''internal orchestration control''
      else ([], None))"

definition mode_decision :: "'x engine_env_scheme \<Rightarrow> request \<Rightarrow> HardDecision" where
  "mode_decision env r =
     (let denied = HardDeny (''Tool '' @ in_quotes (rq_tool r) @ '' denied by permission mode'');
          ask = rq_prompt env r ''Write/execute tool requires approval'' in
      if auto_resolves_approval_prompts (rq_mode r) then HardAllow
      else
        (case the (manual_approval_policy (rq_mode r)) of
           ManualPlan \<Rightarrow> denied
         | ManualAcceptEdits \<Rightarrow> if accept_edits_auto_allows env (rq_tool r) (rq_args r) then HardAllow else ask
         | ManualDeny \<Rightarrow> denied
         | ManualPrompt \<Rightarrow> ask))"

definition mode_verdict :: "'x engine_env_scheme \<Rightarrow> request \<Rightarrow> verdict" where
  "mode_verdict env r =
     (let d = mode_decision env r; label = mode_text (rq_mode r) in
      ([matched StepMode d label], d, SourceMode label))"

definition guard_steps :: "'x engine_env_scheme \<Rightarrow> request \<Rightarrow> step_outcome list" where
  "guard_steps env r =
     [pass SchemaIdentity ''schema accepted'', deny_step env r, ceiling_step env r, safety_step env r, git_step env r,
      hard_deny_step env r, sensitive_step env r, sandbox_step env r, allowlist_step env r, ask_step env r]"

definition relaxable_steps :: "'x engine_env_scheme \<Rightarrow> request \<Rightarrow> step_outcome list" where
  "relaxable_steps env r =
     [read_step env r, plan_step env r, override_step env r, explicit_step env r, allow_step env r,
      collaborator_step r, orchestration_step r]"

definition evaluate_permission_once :: "'x engine_env_scheme \<Rightarrow> request \<Rightarrow> DecisionEnvelope" where
  "evaluate_permission_once env r =
     (let (t, d, src) = first_decision (guard_steps env r @ relaxable_steps env r) (mode_verdict env r) in
      envelope d src t (Some (allow_rule_preview env (rq_tool r) (rq_args r))) (rq_tags env r))"

section \<open>Chains\<close>

primrec find_index :: "('a \<Rightarrow> bool) \<Rightarrow> 'a list \<Rightarrow> nat option" where
  "find_index p [] = None"
| "find_index p (x # xs) = (if p x then Some 0 else map_option Suc (find_index p xs))"

definition reject_chain :: "DecisionEnvelope \<Rightarrow> rstr \<Rightarrow> DecisionEnvelope" where
  "reject_chain outer reason =
     outer\<lparr>de_decision := HardDeny reason, de_source := SourceSafetyMiddleware reason, de_will_save := None,
           de_trace := (case find_index (\<lambda>s. ts_step s = SafetyMiddleware) (de_trace outer) of
                          None \<Rightarrow> de_trace outer
                        | Some i \<Rightarrow> (de_trace outer)[i := (de_trace outer ! i)
                            \<lparr>ts_outcome := Matched (HardDeny reason), ts_note := reason\<rparr>])\<rparr>"

fun check_chain_steps ::
  "'x engine_env_scheme \<Rightarrow> PermissionSyncContext \<Rightarrow> ChainContext \<Rightarrow> json list \<Rightarrow> rstr option" where
  "check_chain_steps env ctx cc [] = None"
| "check_chain_steps env ctx cc (step # steps) =
     (case text_field step ''tool'' of
        None \<Rightarrow> Some ''This chain contains an invalid step.''
      | Some name \<Rightarrow>
          let step_args = (case json_get step ''args'' of Some a \<Rightarrow> a | None \<Rightarrow> JNull) in
          if depends_on_previous_step step_args then
            Some ''This chain depends on an earlier result; run its steps separately so each can be authorized.''
          else
            let resolved = resolve_args (\<lambda>_. []) (value_text env) cc step_args in
            if name = ''run_chain'' \<or> name = ''agent'' \<and> text_field resolved ''action'' = Some ''run_chain'' then
              Some ''Nested chains are unavailable; run the steps separately.''
            else
              (case de_decision (evaluate_permission_once env
                      \<lparr>rq_tool = name, rq_args = resolved, rq_ctx = ctx, rq_provider = None, rq_discovery = None\<rparr>) of
                 HardAllow \<Rightarrow> check_chain_steps env ctx cc steps
               | HardDeny reason \<Rightarrow> Some (''Chain step '' @ in_quotes name @ '' was denied: '' @ reason)
               | NeedExternal _ \<Rightarrow>
                   Some (''Chain step '' @ in_quotes name
                     @ '' needs approval; run it separately so approval can be requested.'')))"

definition is_deny :: "HardDecision \<Rightarrow> bool" where
  "is_deny d = (case d of HardDeny _ \<Rightarrow> True | _ \<Rightarrow> False)"

definition evaluate_permission_with_provider_policy :: "'x engine_env_scheme \<Rightarrow> request \<Rightarrow> DecisionEnvelope" where
  "evaluate_permission_with_provider_policy env r =
     (let outer = evaluate_permission_once env r in
      if rq_provider r \<noteq> None \<or> rq_tool r \<noteq> ''agent'' \<or> text_field (rq_args r) ''action'' \<noteq> Some ''run_chain''
         \<or> is_deny (de_decision outer)
      then outer
      else
        (case array_field (rq_args r) ''steps'' of
           None \<Rightarrow> outer
         | Some steps \<Rightarrow>
             if MAX_RUN_CHAIN_STEPS < length steps then
               reject_chain outer ''This chain has too many steps; split it into smaller calls.''
             else
               (case check_chain_steps env (rq_ctx r) (chain_context_new (chain_input (rq_args r))) steps of
                  Some reason \<Rightarrow> reject_chain outer reason
                | None \<Rightarrow> outer)))"

definition evaluate_permission ::
  "'x engine_env_scheme \<Rightarrow> rstr \<Rightarrow> json \<Rightarrow> PermissionSyncContext \<Rightarrow> DecisionEnvelope" where
  "evaluate_permission env tool args ctx =
     evaluate_permission_with_provider_policy env
       \<lparr>rq_tool = tool, rq_args = args, rq_ctx = ctx, rq_provider = None, rq_discovery = None\<rparr>"

section \<open>Reasoning about the first decision\<close>

text \<open>\<open>answers P o\<close>: the step decides nothing, or something of which \<open>P\<close> holds.\<close>

definition answers :: "(HardDecision \<Rightarrow> DecisionSource \<Rightarrow> bool) \<Rightarrow> step_outcome \<Rightarrow> bool" where
  "answers P o' = (case snd o' of None \<Rightarrow> True | Some (d, src) \<Rightarrow> P d src)"

lemma answers_simps [simp]:
  "answers P (pass st note)"
  "answers P (decide st d src note) = P d src"
  "answers P (t, None)"
  "answers P (t, Some (d, src)) = P d src"
  by (simp_all add: answers_def pass_def decide_def)

lemma answers_guard [simp]:
  "answers P (guard_outcome st note g) =
     (case g of GuardContinue _ \<Rightarrow> True | GuardReturn d src _ _ \<Rightarrow> P d src)"
  by (simp add: guard_outcome_def split: GuardResolution.split)

definition concludes :: "(HardDecision \<Rightarrow> DecisionSource \<Rightarrow> bool) \<Rightarrow> verdict \<Rightarrow> bool" where
  "concludes P v = P (fst (snd v)) (snd (snd v))"

lemma first_decision_pass:
  "snd o' = None \<Longrightarrow> snd (first_decision (o' # os) v) = snd (first_decision os v)"
  by (cases o') (auto split: prod.splits)

lemma first_decision_stop:
  "snd o' = Some p \<Longrightarrow> first_decision (o' # os) v = (fst o', p)"
  by (cases o'; cases p) auto

lemma concludes_all:
  "list_all (answers P) os \<Longrightarrow> concludes P v \<Longrightarrow> concludes P (first_decision os v)"
proof (induction os)
  case (Cons o' os)
  then show ?case
    by (cases "snd o'") (auto simp: first_decision_pass first_decision_stop concludes_def answers_def)
qed simp

lemma concludes_until:
  "list_all (answers P) os \<Longrightarrow> snd o' = Some (d, src) \<Longrightarrow> P d src \<Longrightarrow>
     concludes P (first_decision (os @ o' # rest) v)"
proof (induction os)
  case (Cons a os)
  then show ?case
    by (cases "snd a") (auto simp: first_decision_pass first_decision_stop concludes_def answers_def)
qed (simp add: first_decision_stop concludes_def)

text \<open>The verdict of one evaluation; the envelope repeats its decision and its source.\<close>

definition verdict_once :: "'x engine_env_scheme \<Rightarrow> request \<Rightarrow> verdict" where
  "verdict_once env r = first_decision (guard_steps env r @ relaxable_steps env r) (mode_verdict env r)"

lemma evaluate_once_fields:
  "de_decision (evaluate_permission_once env r) = fst (snd (verdict_once env r))"
  "de_source (evaluate_permission_once env r) = snd (snd (verdict_once env r))"
  "de_trace (evaluate_permission_once env r) = fst (verdict_once env r)"
  by (simp_all add: evaluate_permission_once_def verdict_once_def envelope_def split: prod.split)

lemma concludes_once:
  "concludes P (verdict_once env r) =
     P (de_decision (evaluate_permission_once env r)) (de_source (evaluate_permission_once env r))"
  by (simp add: concludes_def evaluate_once_fields)

lemma concludes_steps:
  assumes "list_all (answers P) (guard_steps env r)" "list_all (answers P) (relaxable_steps env r)"
    and "P (mode_decision env r) (SourceMode (mode_text (rq_mode r)))"
  shows "P (de_decision (evaluate_permission_once env r)) (de_source (evaluate_permission_once env r))"
proof -
  have "concludes P (mode_verdict env r)"
    using assms(3) by (simp add: concludes_def mode_verdict_def Let_def)
  with assms(1,2) show ?thesis
    unfolding concludes_once [symmetric] verdict_once_def by (intro concludes_all) simp_all
qed

text \<open>What the steps that only refuse can answer.\<close>

lemma refusing_steps:
  assumes "\<And>reason src. P (HardDeny reason) src"
  shows "answers P (deny_step env r)" "answers P (ceiling_step env r)" "answers P (safety_step env r)"
    "answers P (hard_deny_step env r)" "answers P (allowlist_step env r)"
  by (simp_all add: assms deny_step_def ceiling_step_def safety_step_def hard_deny_step_def allowlist_step_def
      Let_def split: option.split)

lemma is_deny_simps [simp]:
  "is_deny (HardDeny reason)" "\<not> is_deny HardAllow" "\<not> is_deny (NeedExternal p)"
  "\<not> is_deny (rq_prompt env r reason)" "rq_prompt env r reason \<noteq> HardAllow"
  by (simp_all add: is_deny_def rq_prompt_def)


text \<open>The unwrap of the manual policy is reached only where there is one.\<close>

lemma manual_policy_present:
  "\<not> auto_resolves_approval_prompts m \<Longrightarrow> \<exists>p. manual_approval_policy m = Some p"
  by (cases m) (simp_all add: auto_resolves_approval_prompts_def)

lemma verdict_at:
  assumes "guard_steps env r @ relaxable_steps env r = os @ o' # rest"
    and "list_all (answers P) os" "answers P o'" "snd o' \<noteq> None"
  shows "P (de_decision (evaluate_permission_once env r)) (de_source (evaluate_permission_once env r))"
proof -
  obtain d src where "snd o' = Some (d, src)"
    using assms(4) by auto
  with assms(2,3) show ?thesis
    unfolding concludes_once [symmetric] verdict_once_def assms(1)
    by (intro concludes_until) (auto simp: answers_def)
qed

lemmas steps_unfold = guard_steps_def relaxable_steps_def

lemma undecided_at:
  assumes "guard_steps env r @ relaxable_steps env r = os @ o' # rest"
    and "list_all (answers P) os" "answers P o'"
    and "\<not> P (de_decision (evaluate_permission_once env r)) (de_source (evaluate_permission_once env r))"
  shows "snd o' = None"
  using verdict_at [OF assms(1-3)] assms(4) by blast

section \<open>Guards before every answer\<close>

lemma refused_early:
  assumes "\<not> is_deny (de_decision (evaluate_permission_once env r))"
  shows "snd (deny_step env r) = None" "snd (ceiling_step env r) = None" "snd (safety_step env r) = None"
proof -
  show "snd (deny_step env r) = None"
    by (rule undecided_at [where env=env and r=r and P="\<lambda>d _. is_deny d" and os="take 1 (guard_steps env r)"])
      (simp_all add: steps_unfold refusing_steps assms)
  show "snd (ceiling_step env r) = None"
    by (rule undecided_at [where env=env and r=r and P="\<lambda>d _. is_deny d" and os="take 2 (guard_steps env r)"])
      (simp_all add: steps_unfold refusing_steps assms)
  show "snd (safety_step env r) = None"
    by (rule undecided_at [where env=env and r=r and P="\<lambda>d _. is_deny d" and os="take 3 (guard_steps env r)"])
      (simp_all add: steps_unfold refusing_steps assms)
qed

lemma outer_not_denied:
  assumes "\<not> is_deny (de_decision (evaluate_permission_with_provider_policy env r))"
  shows "evaluate_permission_with_provider_policy env r = evaluate_permission_once env r"
  using assms
  by (auto simp: evaluate_permission_with_provider_policy_def reject_chain_def Let_def
      split: option.splits if_splits)








section \<open>What each mode releases\<close>

lemma concludes_outer:
  assumes "\<And>reason src. P (HardDeny reason) src"
    and "P (de_decision (evaluate_permission_once env r)) (de_source (evaluate_permission_once env r))"
  shows "P (de_decision (evaluate_permission_with_provider_policy env r))
    (de_source (evaluate_permission_with_provider_policy env r))"
  using assms outer_not_denied [of env r]
  by (cases "de_decision (evaluate_permission_with_provider_policy env r)") auto

lemmas guard_defs = git_step_def resolve_git_safety_guard_def git_guard_without_override_def sensitive_step_def
  resolve_sensitive_path_guard_def sensitive_guard_without_override_def

lemmas mode_defs = auto_resolves_approval_prompts_def skips_human_approval_prompts_def
  relaxes_soft_shell_obfuscation_def auto_allows_soft_git_policy_def

lemmas release_defs = read_step_def plan_step_def override_step_def explicit_step_def allow_step_def
  collaborator_step_def orchestration_step_def mode_decision_def sandbox_step_def ask_step_def

text \<open>
  C17. In bypass mode the evaluator never stops to ask: whatever the call, the rules and the stored answers,
  the decision is to run it or to refuse it.
\<close>

theorem bypass_never_asks:
  assumes "rq_mode r = ModeBypass"
  shows "de_decision (evaluate_permission_with_provider_policy env r) \<noteq> NeedExternal prompt"
proof (rule concludes_outer [where P="\<lambda>d _. d \<noteq> NeedExternal prompt"])
  show "de_decision (evaluate_permission_once env r) \<noteq> NeedExternal prompt"
    by (rule concludes_steps [where P="\<lambda>d _. d \<noteq> NeedExternal prompt"])
      (simp_all add: assms steps_unfold refusing_steps guard_defs release_defs mode_defs Let_def split: option.split)
qed simp

text \<open>
  C16. Deny mode releases a call only on the strength of a stored answer for this very call or of an allow
  rule, and it asks only where a rule inherited from the parent says to ask.
\<close>

theorem deny_mode_releases:
  assumes "rq_mode r = ModeDeny"
  shows "let e = evaluate_permission_with_provider_policy env r in
    (de_decision e = HardAllow \<longrightarrow>
      de_source e \<in> {SourceSessionOverride True, SourceAllowRule (rq_tool r) OriginInherited})
    \<and> (\<forall>prompt. de_decision e = NeedExternal prompt \<longrightarrow> (\<exists>rule. de_source e = SourceAskRule rule OriginInherited))"
proof -
  let ?P = "\<lambda>d src.
    (d = HardAllow \<longrightarrow> src \<in> {SourceSessionOverride True, SourceAllowRule (rq_tool r) OriginInherited})
    \<and> (\<forall>prompt. d = NeedExternal prompt \<longrightarrow> (\<exists>rule. src = SourceAskRule rule OriginInherited))"
  have "?P (de_decision (evaluate_permission_once env r)) (de_source (evaluate_permission_once env r))"
    by (rule concludes_steps [where P="?P"])
      (simp_all add: assms steps_unfold refusing_steps guard_defs release_defs mode_defs Let_def split: option.split)
  then show ?thesis
    using concludes_outer [of ?P env r] by (simp add: Let_def)
qed

text \<open>
  C15. Plan mode releases a call only if it is read-only, a collaborator stage, admitted by the plan-mode
  policy, or if the user stored this very call for the session.
\<close>

theorem plan_mode_releases:
  assumes "rq_mode r = ModePlan"
    and "de_decision (evaluate_permission_with_provider_policy env r) = HardAllow"
  shows "provably_read_only env r \<or> collaborator_stage r
    \<or> \<not> is_plan_mode_blocked_tool (shell_reads env) (rq_tool r) (rq_args r)
    \<or> de_source (evaluate_permission_with_provider_policy env r) = SourceSessionOverride True"
proof -
  let ?ok = "provably_read_only env r \<or> collaborator_stage r
    \<or> \<not> is_plan_mode_blocked_tool (shell_reads env) (rq_tool r) (rq_args r)"
  let ?P = "\<lambda>d src. d = HardAllow \<longrightarrow> ?ok \<or> src = SourceSessionOverride True"
  have "?P (de_decision (evaluate_permission_once env r)) (de_source (evaluate_permission_once env r))"
    by (rule verdict_at [where P="?P" and env=env and r=r and os="guard_steps env r @ take 1 (relaxable_steps env r)"
        and o'="plan_step env r" and rest="drop 2 (relaxable_steps env r)"])
      (simp_all add: assms(1) steps_unfold refusing_steps guard_defs release_defs mode_defs Let_def
        split: option.split)
  then show ?thesis
    using concludes_outer [of ?P env r] assms(2) by simp
qed

section \<open>The trace\<close>

text \<open>
  The entries of one step carry its name; a trace is ordered by \<open>sl\<close> when, with the repeated entries of
  a step taken once, its steps are an initial part of \<open>sl\<close>.
\<close>

definition in_slot :: "EvaluationStep \<Rightarrow> step_outcome \<Rightarrow> bool" where
  "in_slot st o' = (fst o' \<noteq> [] \<and> ts_step ` set (fst o') \<subseteq> {st})"

definition ordered_by :: "EvaluationStep list \<Rightarrow> trace \<Rightarrow> bool" where
  "ordered_by sl t = prefix (remdups_adj (map ts_step t)) sl"

lemma in_slot_simps [simp]:
  "in_slot st (pass st note)" "in_slot st (decide st d src note)" "in_slot st (guard_outcome st note g)"
  "in_slot st ([matched st d note], a)"
  by (auto simp: in_slot_def pass_def decide_def guard_outcome_def skipped_def matched_def split: GuardResolution.split)

lemma remdups_slot:
  "xs \<noteq> [] \<Longrightarrow> set xs \<subseteq> {st} \<Longrightarrow> st \<notin> set ys \<Longrightarrow> remdups_adj (xs @ ys) = st # remdups_adj ys"
proof (induction xs)
  case (Cons x xs)
  then show ?case
    by (cases xs) (cases ys, auto)
qed simp

lemma first_decision_trace:
  "fst (first_decision (o' # os) v) = (if snd o' = None then fst o' @ fst (first_decision os v) else fst o')"
  by (cases o'; cases "snd o'") (auto split: prod.splits)

lemma remdups_in_slot: "in_slot st o' \<Longrightarrow> remdups_adj (map ts_step (fst o')) = [st]"
  using remdups_slot [of "map ts_step (fst o')" st "[]"] by (simp add: in_slot_def)

lemma ordered_step:
  assumes "in_slot st o'" "st \<notin> set sl" "ordered_by sl (fst (first_decision os v))"
  shows "ordered_by (st # sl) (fst (first_decision (o' # os) v))"
proof -
  have "st \<notin> set (map ts_step (fst (first_decision os v)))"
    using assms(2,3) by (metis ordered_by_def remdups_adj_set set_mono_prefix subsetD)
  then have "remdups_adj (map ts_step (fst o' @ fst (first_decision os v))) =
      st # remdups_adj (map ts_step (fst (first_decision os v)))"
    using assms(1) by (simp add: in_slot_def remdups_slot)
  with assms(3) remdups_in_slot [OF assms(1)] show ?thesis
    by (simp add: ordered_by_def first_decision_trace)
qed

lemma ordered_optional:
  assumes "o' = ([], None) \<or> in_slot st o' \<and> snd o' \<noteq> None" "ordered_by (st # sl) (fst (first_decision os v))"
  shows "ordered_by (st # sl) (fst (first_decision (o' # os) v))"
  using assms remdups_in_slot [of st o'] by (auto simp: ordered_by_def first_decision_trace)

lemma step_slots:
  "in_slot DenyRules (deny_step env r)" "in_slot SafetyMiddleware (safety_step env r)"
  "in_slot GitSafety (git_step env r)" "in_slot ExecuteHardDeny (hard_deny_step env r)"
  "in_slot SensitivePath (sensitive_step env r)" "in_slot SandboxExpand (sandbox_step env r)"
  "in_slot ToolAllowlist (allowlist_step env r)" "in_slot AskRules (ask_step env r)"
  "in_slot ReadShortCircuit (read_step env r)" "in_slot SessionOverride (override_step env r)"
  "in_slot ExplicitApproval (explicit_step env r)" "in_slot AllowRules (allow_step env r)"
  by (simp_all add: deny_step_def safety_step_def git_step_def hard_deny_step_def sensitive_step_def
      allowlist_step_def release_defs Let_def split: option.split ManualApprovalPolicy.split)

lemmas ordered_slots = step_slots [THEN ordered_step] in_slot_simps(1) [THEN ordered_step]

lemma optional_slots:
  "ceiling_step env r = ([], None) \<or> in_slot SafetyMiddleware (ceiling_step env r) \<and> snd (ceiling_step env r) \<noteq> None"
  "collaborator_step r = ([], None) \<or> in_slot StepMode (collaborator_step r) \<and> snd (collaborator_step r) \<noteq> None"
  "orchestration_step r = ([], None) \<or> in_slot StepMode (orchestration_step r) \<and> snd (orchestration_step r) \<noteq> None"
  by (simp_all add: ceiling_step_def collaborator_step_def orchestration_step_def)
    (simp_all add: decide_def)

lemma plan_slots:
  "plan_step env r = ([], None)
   \<or> map ts_step (fst (plan_step env r)) = [SessionOverride, ExplicitApproval, AllowRules, StepMode]
     \<and> snd (plan_step env r) \<noteq> None"
  by (simp add: plan_step_def skipped_def matched_def Let_def)

lemma relaxable_ordered:
  "ordered_by [ReadShortCircuit, SessionOverride, ExplicitApproval, AllowRules, StepMode]
     (fst (first_decision (relaxable_steps env r) (mode_verdict env r)))"
proof -
  let ?late = "[SessionOverride, ExplicitApproval, AllowRules, StepMode]"
  let ?v = "mode_verdict env r"
  have "ordered_by [StepMode] (fst (first_decision [collaborator_step r, orchestration_step r] ?v))"
    by (intro ordered_optional optional_slots) (simp add: ordered_by_def mode_verdict_def matched_def Let_def)
  then have "ordered_by ?late (fst (first_decision [override_step env r, explicit_step env r, allow_step env r,
      collaborator_step r, orchestration_step r] ?v))"
    by (intro ordered_slots) simp_all
  then have "ordered_by ?late (fst (first_decision (tl (relaxable_steps env r)) ?v))"
    using plan_slots [of env r] by (auto simp: relaxable_steps_def ordered_by_def first_decision_trace)
  then show ?thesis
    using ordered_step [OF step_slots(9), of ?late "tl (relaxable_steps env r)" ?v env r]
    by (simp add: relaxable_steps_def)
qed

lemma trace_ordered: "ordered_by EVALUATION_ORDER (fst (verdict_once env r))"
proof -
  let ?rest = "drop 3 (guard_steps env r) @ relaxable_steps env r"
  have "ordered_by (drop 2 EVALUATION_ORDER) (fst (first_decision ?rest (mode_verdict env r)))"
    using relaxable_ordered [of env r] unfolding guard_steps_def EVALUATION_ORDER_def
    by (simp, intro ordered_slots) simp_all
  then have "ordered_by (drop 2 EVALUATION_ORDER) (fst (first_decision (ceiling_step env r # ?rest) (mode_verdict env r)))"
    unfolding EVALUATION_ORDER_def by (simp, intro ordered_optional optional_slots)
  then show ?thesis
    unfolding verdict_once_def guard_steps_def EVALUATION_ORDER_def
    by (simp, intro ordered_slots) simp_all
qed

text \<open>A step that decides says so in its last entry.\<close>

definition accounted :: "step_outcome \<Rightarrow> bool" where
  "accounted o' =
     (case snd o' of None \<Rightarrow> True | Some (d, _) \<Rightarrow> fst o' \<noteq> [] \<and> ts_outcome (last (fst o')) = Matched d)"

lemma accounted_simps [simp]:
  "accounted (pass st note)" "accounted (decide st d src note)" "accounted (guard_outcome st note g)"
  "accounted (t, None)"
  by (simp_all add: accounted_def pass_def decide_def guard_outcome_def matched_def split: GuardResolution.split)

lemma steps_accounted_each:
  "accounted (deny_step env r)" "accounted (ceiling_step env r)" "accounted (safety_step env r)"
  "accounted (git_step env r)" "accounted (hard_deny_step env r)" "accounted (sensitive_step env r)"
  "accounted (sandbox_step env r)" "accounted (allowlist_step env r)" "accounted (ask_step env r)"
  "accounted (read_step env r)" "accounted (override_step env r)" "accounted (explicit_step env r)"
  "accounted (allow_step env r)" "accounted (collaborator_step r)" "accounted (orchestration_step r)"
  by (simp_all add: deny_step_def ceiling_step_def safety_step_def git_step_def hard_deny_step_def
      sensitive_step_def allowlist_step_def release_defs Let_def split: option.split ManualApprovalPolicy.split)

lemma plan_accounted: "accounted (plan_step env r)"
  by (simp add: plan_step_def accounted_def matched_def Let_def)

lemma steps_accounted: "list_all accounted (guard_steps env r @ relaxable_steps env r)"
  by (simp add: steps_unfold steps_accounted_each plan_accounted)

lemma first_decision_last:
  assumes "list_all accounted os" "fst v \<noteq> []" "ts_outcome (last (fst v)) = Matched (fst (snd v))"
  shows "fst (first_decision os v) \<noteq> []
    \<and> ts_outcome (last (fst (first_decision os v))) = Matched (fst (snd (first_decision os v)))"
  using assms
proof (induction os)
  case (Cons o' os)
  then show ?case
    by (cases "snd o'")
      (auto simp: first_decision_trace first_decision_pass first_decision_stop accounted_def)
qed simp

lemma trace_last:
  "de_trace (evaluate_permission_once env r) \<noteq> []
   \<and> ts_outcome (last (de_trace (evaluate_permission_once env r))) =
       Matched (de_decision (evaluate_permission_once env r))"
  using first_decision_last [OF steps_accounted, of "mode_verdict env r" env r]
  by (simp add: evaluate_once_fields verdict_once_def mode_verdict_def matched_def Let_def)

lemma snd_pass [simp]: "snd (pass st note) = None"
  by (simp add: pass_def)

lemma find_index_Some: "find_index p xs = Some i \<Longrightarrow> i < length xs \<and> p (xs ! i)"
  by (induction xs arbitrary: i) (auto split: if_splits)

lemma find_index_None: "find_index p xs = None \<longleftrightarrow> (\<forall>x \<in> set xs. \<not> p x)"
  by (induction xs) auto

lemma safety_entry:
  assumes "\<not> is_deny (de_decision (evaluate_permission_once env r))"
  shows "SafetyMiddleware \<in> ts_step ` set (de_trace (evaluate_permission_once env r))"
proof -
  have "fst (safety_step env r) \<noteq> [] \<and> ts_step ` set (fst (safety_step env r)) \<subseteq> {SafetyMiddleware}"
    using step_slots(2) [of env r] by (simp add: in_slot_def)
  then have "SafetyMiddleware \<in> ts_step ` set (fst (safety_step env r))"
    by (cases "fst (safety_step env r)") auto
  then show ?thesis
    using refused_early [OF assms]
    by (simp add: evaluate_once_fields verdict_once_def guard_steps_def first_decision_trace image_Un
        del: first_decision.simps)
qed

lemma reject_chain_steps: "map ts_step (de_trace (reject_chain e reason)) = map ts_step (de_trace e)"
proof (cases "find_index (\<lambda>s. ts_step s = SafetyMiddleware) (de_trace e)")
  case (Some i)
  then have "i < length (de_trace e)"
    by (simp add: find_index_Some)
  then have "(map ts_step (de_trace e))[i := ts_step (de_trace e ! i)] = map ts_step (de_trace e)"
    by (metis list_update_id nth_map)
  with Some show ?thesis
    by (simp add: reject_chain_def map_update)
qed (simp add: reject_chain_def)

lemma reject_chain_trace:
  assumes "SafetyMiddleware \<in> ts_step ` set (de_trace e)"
  shows "Matched (HardDeny reason) \<in> ts_outcome ` set (de_trace (reject_chain e reason))"
proof (cases "find_index (\<lambda>s. ts_step s = SafetyMiddleware) (de_trace e)")
  case None
  with assms show ?thesis
    by (auto simp: find_index_None)
next
  case (Some i)
  then have "i < length (de_trace e)"
    by (simp add: find_index_Some)
  then have "(de_trace e ! i)\<lparr>ts_outcome := Matched (HardDeny reason), ts_note := reason\<rparr>
      \<in> set (de_trace (reject_chain e reason))"
    using Some by (simp add: reject_chain_def set_update_memI)
  then show ?thesis
    by (rule rev_image_eqI) simp
qed

text \<open>
  C14. Every envelope accounts for itself. Its trace walks the steps of the documented order from the
  first, leaving none out, with the entries of one step together; the decision it carries is the outcome
  of an entry of the trace; and a rule to save is offered exactly with the decisions that ask.
\<close>

theorem envelope_well_formed:
  "let e = evaluate_permission_with_provider_policy env r in
   prefix (remdups_adj (map ts_step (de_trace e))) EVALUATION_ORDER
   \<and> Matched (de_decision e) \<in> ts_outcome ` set (de_trace e)
   \<and> (de_will_save e \<noteq> None \<longleftrightarrow> (\<exists>prompt. de_decision e = NeedExternal prompt))"
proof -
  let ?e = "evaluate_permission_once env r"
  define good where "good = (\<lambda>e :: DecisionEnvelope. prefix (remdups_adj (map ts_step (de_trace e))) EVALUATION_ORDER
    \<and> Matched (de_decision e) \<in> ts_outcome ` set (de_trace e)
    \<and> (de_will_save e \<noteq> None \<longleftrightarrow> (\<exists>prompt. de_decision e = NeedExternal prompt)))"
  have ordered: "prefix (remdups_adj (map ts_step (de_trace ?e))) EVALUATION_ORDER"
    using trace_ordered [of env r] by (simp add: ordered_by_def evaluate_once_fields)
  have "Matched (de_decision ?e) \<in> ts_outcome ` set (de_trace ?e)"
    using trace_last [of env r] by (metis image_eqI last_in_set)
  moreover have "de_will_save ?e \<noteq> None \<longleftrightarrow> (\<exists>prompt. de_decision ?e = NeedExternal prompt)"
    by (auto simp: evaluate_permission_once_def envelope_def split: prod.split HardDecision.split)
  ultimately have "good ?e"
    using ordered by (simp add: good_def)
  moreover have "good (reject_chain ?e reason)" if "\<not> is_deny (de_decision ?e)" for reason
    using ordered reject_chain_trace [OF safety_entry [OF that], of reason]
    by (simp add: good_def reject_chain_steps) (simp add: reject_chain_def)
  ultimately have "good (evaluate_permission_with_provider_policy env r)"
    by (simp add: evaluate_permission_with_provider_policy_def Let_def split: option.split)
  then show ?thesis
    by (simp add: good_def Let_def)
qed


section \<open>Chains\<close>

lemma checked_chain_steps:
  assumes "check_chain_steps env ctx cc steps = None" "list_all2 (\<lambda>v s. decode_step v = Some s) steps ss" "s \<in> set ss"
  shows "\<not> depends_on_previous_step (cs_args s)
    \<and> (let a = resolve_args (\<lambda>_. []) (value_text env) cc (cs_args s) in
       \<not> (cs_tool s = ''agent'' \<and> text_field a ''action'' = Some ''run_chain'')
       \<and> de_decision (evaluate_permission_once env
           \<lparr>rq_tool = cs_tool s, rq_args = a, rq_ctx = ctx, rq_provider = None, rq_discovery = None\<rparr>) = HardAllow)"
  using assms(2,1,3)
proof (induction steps ss rule: list_all2_induct)
  case (Cons v steps s' ss)
  obtain t where t: "json_get v ''tool'' = Some t" "text_field v ''tool'' = Some (cs_tool s')"
    and a: "json_get v ''args'' = Some (cs_args s')"
    using Cons.prems(1) decode_step_fields [OF Cons.hyps(1)]
    by (auto simp: text_field_def json_as_str_def split: option.splits bind_splits)
  then show ?case
    using Cons.prems Cons.IH by (auto simp: Let_def split: if_splits HardDecision.splits)
qed simp

text \<open>
  C3. Authorising a chain authorises exactly what it will do. When the call that runs a chain is not
  refused, every call the chain then hands to the executor, whatever the earlier steps answered and in
  whatever order a hash map is walked, is one that the evaluator allows on its own.
\<close>

theorem chain_calls_allowed:
  assumes "agent_action_from_args args = Inr RunChain"
    and "\<not> is_deny (de_decision (evaluate_permission env ''agent'' args ctx))"
    and "run_chain order (value_text env) cancelled exec catalog args = Inr run"
    and "(tool, a) \<in> set (cr_calls run)"
  shows "de_decision (evaluate_permission env tool a ctx) = HardAllow"
proof -
  let ?cc = "chain_context_new (chain_input args)"
  obtain vs chain where vs: "json_get args ''steps'' = Some (JArray vs)" and steps: "decode_steps vs = Some (tc_steps chain)"
    and run: "run = execute_chain_outcome order (value_text env) cancelled exec chain (chain_input args)"
    using assms(3) decode_chain_steps [of args]
    by (auto simp: run_chain_def split: option.splits sum.splits if_splits)
  have "text_field args ''action'' = Some ''run_chain''"
    using assms(1)
    by (auto simp: agent_action_from_args_def text_field_def json_as_str_def try_bind_def
        split: option.splits json.splits if_splits sum.splits)
  then have checked: "check_chain_steps env ctx ?cc vs = None"
    using assms(2) vs
    by (auto simp: evaluate_permission_def evaluate_permission_with_provider_policy_def array_field_def
        json_as_array_def reject_chain_def Let_def split: if_splits option.splits)
  note each = checked_chain_steps [OF checked decode_steps_nth [OF steps]]
  have "list_all (\<lambda>s. \<not> depends_on_previous_step (cs_args s)) (tc_steps chain)"
    using each by (auto simp: list_all_iff)
  then have "subseq (cr_calls run)
      (map (\<lambda>s. (cs_tool s, resolve_args order (value_text env) ?cc (cs_args s))) (tc_steps chain))"
    unfolding run by (rule execute_chain_calls)
  then have "(tool, a) \<in> set (map (\<lambda>s. (cs_tool s, resolve_args order (value_text env) ?cc (cs_args s))) (tc_steps chain))"
    using assms(4) by (rule subseq_member)
  then obtain s where s: "s \<in> set (tc_steps chain)" "tool = cs_tool s"
    and a: "a = resolve_args order (value_text env) ?cc (cs_args s)"
    by auto
  have "a = resolve_args (\<lambda>_. []) (value_text env) ?cc (cs_args s)"
    unfolding a using each [OF s(1)] by (intro resolve_args_independent) simp_all
  with each [OF s(1)] s(2) show ?thesis
    by (auto simp: evaluate_permission_def evaluate_permission_with_provider_policy_def Let_def)
qed

section \<open>Concrete requests\<close>

text \<open>
  An environment in which nothing is flagged but pushes and the file \<^verbatim>\<open>.env\<close>, and in which the only
  stored answers that decode are none at all and one exact command.
\<close>

definition pushed_command :: rstr where
  "pushed_command = ''git push --force''"

definition plain_engine_env :: engine_env where
  "plain_engine_env = scope_env.extend (plain_scope_env\<lparr>git_violations := (\<lambda>c. if contains c ''push'' then [(''force push'', False)] else [])\<rparr>)
     \<lparr>safety_denies = (\<lambda>_ _. None), absolute_danger = (\<lambda>_. False),
      sensitive_token = (\<lambda>_ args. if path_hint_from_args args = Some ''.env'' then Some ''.env'' else None),
      explicit_approval_reason = (\<lambda>_ _. None), primary_approval_reason = (\<lambda>_ _. None),
      read_only_capability = (\<lambda>_. False), mcp_args_summary = (\<lambda>_. []),
      decode_overrides = (\<lambda>v. case v of JObject [] \<Rightarrow> Some []
        | JString c \<Rightarrow> Some [(fp_shell (\<lambda>s. s) ''bash'' c False, True)] | _ \<Rightarrow> None),
      value_text = (\<lambda>_. [])\<rparr>"

definition plain_context :: "PermissionMode \<Rightarrow> rstr set option \<Rightarrow> json option \<Rightarrow> PermissionSyncContext" where
  "plain_context m tools overrides =
     sync_context_new ((inherited_new m)\<lparr>ip_allowed_tools := tools, ip_fingerprinted_overrides := overrides\<rparr>)"

definition plain_request :: "rstr \<Rightarrow> json \<Rightarrow> PermissionSyncContext \<Rightarrow> request" where
  "plain_request tool args ctx =
     \<lparr>rq_tool = tool, rq_args = args, rq_ctx = ctx, rq_provider = None, rq_discovery = None\<rparr>"


definition read_other :: json where
  "read_other = JObject [(''path'', JString ''a.rs'')]"

definition push_args :: json where
  "push_args = JObject [(''command'', JString pushed_command)]"


text \<open>
  A stored answer reaches past plan mode. The policy of the mode blocks a force push, and the evaluator
  says that plan mode ignores stored answers; the exact command stored for the session is released by
  the git guard before the mode is looked at.
\<close>

theorem plan_mode_stored_answer:
  "is_plan_mode_blocked_tool (shell_reads plain_engine_env) ''bash'' push_args
   \<and> de_decision (evaluate_permission plain_engine_env ''bash'' push_args
       (plain_context ModePlan None (Some (JString pushed_command)))) = HardAllow"
  by code_simp


theorem bypass_never_asks_witness:
  "\<forall>prompt. de_decision (evaluate_permission_with_provider_policy plain_engine_env
     (plain_request ''bash'' push_args (plain_context ModeBypass None None))) \<noteq> NeedExternal prompt"
proof -
  have "rq_mode (plain_request ''bash'' push_args (plain_context ModeBypass None None)) = ModeBypass"
    by code_simp
  then show ?thesis
    using bypass_never_asks by blast
qed

theorem deny_mode_releases_witness:
  "de_source (evaluate_permission_with_provider_policy plain_engine_env
     (plain_request ''bash'' (JObject [(''command'', JString ''make'')])
       (plain_context ModeDeny None (Some (JString ''make'')))))
   \<in> {SourceSessionOverride True, SourceAllowRule ''bash'' OriginInherited}"
proof -
  let ?r = "plain_request ''bash'' (JObject [(''command'', JString ''make'')])
    (plain_context ModeDeny None (Some (JString ''make'')))"
  have "rq_mode ?r = ModeDeny" "rq_tool ?r = ''bash''"
    and "de_decision (evaluate_permission_with_provider_policy plain_engine_env ?r) = HardAllow"
    by code_simp+
  then show ?thesis
    using deny_mode_releases [of ?r plain_engine_env] by (simp add: Let_def)
qed

theorem plan_mode_releases_witness:
  "let r = plain_request ''bash'' push_args (plain_context ModePlan None (Some (JString pushed_command))) in
   provably_read_only plain_engine_env r \<or> collaborator_stage r
   \<or> \<not> is_plan_mode_blocked_tool (shell_reads plain_engine_env) (rq_tool r) (rq_args r)
   \<or> de_source (evaluate_permission_with_provider_policy plain_engine_env r) = SourceSessionOverride True"
proof -
  let ?r = "plain_request ''bash'' push_args (plain_context ModePlan None (Some (JString pushed_command)))"
  have "rq_mode ?r = ModePlan" "de_decision (evaluate_permission_with_provider_policy plain_engine_env ?r) = HardAllow"
    by code_simp+
  then show ?thesis
    unfolding Let_def by (rule plan_mode_releases)
qed

definition two_reads :: json where
  "two_reads = JObject [(''action'', JString ''run_chain''), (''description'', JString ''d''),
     (''input'', JObject [(''f'', JString ''a.rs'')]), (''name'', JString ''c''),
     (''steps'', JArray [
        JObject [(''args'', JObject [(''path'', JString ''$input.f'')]), (''tool'', JString ''read_file'')],
        JObject [(''args'', JObject [(''path'', JString ''b.rs'')]), (''tool'', JString ''read_file'')]])]"

theorem chain_calls_allowed_witness:
  "de_decision (evaluate_permission plain_engine_env ''read_file'' read_other (plain_context ModeAuto None None)) = HardAllow"
proof -
  let ?run = "run_chain (\<lambda>_. []) (value_text plain_engine_env) (\<lambda>_. False) (\<lambda>_ _ _. (False, ''ok'')) [''read_file''] two_reads"
  have "agent_action_from_args two_reads = Inr RunChain"
    and "\<not> is_deny (de_decision (evaluate_permission plain_engine_env ''agent'' two_reads (plain_context ModeAuto None None)))"
    and "map_sum id (\<lambda>run. map fst (cr_calls run)) ?run = Inr [''read_file'', ''read_file'']"
    and "map_sum id (\<lambda>run. map snd (cr_calls run)) ?run = Inr [read_other, JObject [(''path'', JString ''b.rs'')]]"
    by code_simp+
  then show ?thesis
    using chain_calls_allowed
      [of two_reads plain_engine_env "plain_context ModeAuto None None" "\<lambda>_. []" "\<lambda>_. False"
        "\<lambda>_ _ _. (False, ''ok'')" "[''read_file'']" "projr ?run" "''read_file''" read_other]
    by (cases ?run) (auto simp: map_eq_Cons_conv)
qed

end
