(* ===== verification/Path_Sensitivity.thy ===== *)
theory Path_Sensitivity
  imports Permission_Engine
begin

text \<open>
  Which paths ask before they are touched: the classification of a path and the scan of tool arguments
  and shell commands of \<^verbatim>\<open>permission/path_sensitivity.rs\<close>, with the credential tables of
  \<^verbatim>\<open>astra-sandbox/src/policy.rs\<close>, the protected directories of \<^verbatim>\<open>astra-sandbox/src/shell_hardening.rs\<close> and
  the session identifiers of \<^verbatim>\<open>core/src/session_id.rs\<close>. A \<^verbatim>\<open>PathBuf\<close> is its text where the code reads the
  text and its components where it compares paths. The home directory and the two artifact roots
  are read from the environment; the last section connects the scan to the evaluator.
\<close>

section \<open>Credential tables\<close>

definition SENSITIVE_PATH_SUBSTRINGS :: "rstr list" where
  "SENSITIVE_PATH_SUBSTRINGS =
     [''/etc/passwd'', ''/etc/shadow'', ''/etc/gshadow'', ''/etc/sudoers'', ''/etc/ssh/'', ''.ssh/id_'',
      ''.ssh/authorized_keys'', ''.ssh/identity'', ''.aws/credentials'', ''.gnupg/secring.gpg'',
      ''.gnupg/private-keys-v1.d'', ''.docker/config.json'', ''.netrc'', ''/var/run/secrets'', ''.env'',
      ''.kube/config'', ''.npmrc'', ''.pypirc'', ''.git-credentials'', ''.config/gcloud/credentials'',
      ''credentials.json'', ''credentials.db'']"

definition SENSITIVE_SYSTEM_DIR_PREFIXES :: "rstr list" where
  "SENSITIVE_SYSTEM_DIR_PREFIXES =
     [''/etc'', ''/var/run/secrets'', ''/var/lib/secrets'', ''/boot'', ''/proc'', ''/sys'', ''/dev'']"

definition SENSITIVE_CRED_DIR_MARKERS :: "rstr list" where
  "SENSITIVE_CRED_DIR_MARKERS =
     [''/.ssh'', ''/.aws'', ''/.kube'', ''/.gnupg'', ''/.azure'', ''/.config/gh'', ''/.config/gcloud'', ''/.docker'',
      ''/.git-credentials'', ''/.netrc'']"

definition SENSITIVE_CRED_FILE_NAMES :: "rstr list" where
  "SENSITIVE_CRED_FILE_NAMES =
     [''id_rsa'', ''id_ed25519'', ''id_ecdsa'', ''id_ed25519_sk'', ''id_dsa'', ''.env'', ''.pgpass'', ''.my.cnf'',
      ''htpasswd'', ''token.json'', ''access_token'', ''.terraformrc'']"

definition SAFE_DEVICE_FILES :: "rstr list" where
  "SAFE_DEVICE_FILES = [''/dev/null'', ''/dev/zero'', ''/dev/full'']"

definition file_name :: "rpath \<Rightarrow> rstr option" where
  "file_name p = (if p = [] then None else case last p of Normal n \<Rightarrow> Some n | _ \<Rightarrow> None)"

definition is_sensitive_system_dir :: "rstr \<Rightarrow> bool" where
  "is_sensitive_system_dir path =
     (let lowered = to_ascii_lowercase path in
      lowered \<notin> set SAFE_DEVICE_FILES
      \<and> (list_ex (\<lambda>prefix. lowered = prefix \<or> starts_with lowered (prefix @ ''/'')) SENSITIVE_SYSTEM_DIR_PREFIXES
         \<or> list_ex (\<lambda>marker. lowered = dropWhile (\<lambda>c. c = CHR ''/'') marker \<or> ends_with lowered marker
              \<or> contains lowered (marker @ ''/'')) SENSITIVE_CRED_DIR_MARKERS))"

definition is_sensitive_path :: "rstr \<Rightarrow> bool" where
  "is_sensitive_path path =
     (is_sensitive_system_dir path
      \<or> list_ex (contains path) SENSITIVE_PATH_SUBSTRINGS
      \<or> (case file_name (path_components path) of
           Some name \<Rightarrow> name \<in> set SENSITIVE_CRED_FILE_NAMES | None \<Rightarrow> False))"

definition DANGEROUS_FILE_PATHS :: "rstr list" where
  "DANGEROUS_FILE_PATHS = [''.git/'', ''.claude/'', ''.astra/'', ''.ssh/'']"

definition trim_end_slashes :: "rstr \<Rightarrow> rstr" where
  "trim_end_slashes s = rev (dropWhile (\<lambda>c. c = CHR ''/'') (rev s))"

definition is_dangerous_file_path :: "rstr \<Rightarrow> bool" where
  "is_dangerous_file_path path =
     (let normalized = map (\<lambda>c. if c = CHR 0x5C then CHR ''/'' else c) path in
      list_ex (\<lambda>dangerous.
        let d = (if ends_with dangerous ''/'' then trim_end_slashes dangerous else dangerous) in
        normalized = d \<or> ends_with normalized (''/'' @ d) \<or> contains normalized (''/'' @ d @ ''/'')
        \<or> starts_with normalized (d @ ''/'')) DANGEROUS_FILE_PATHS)"

section \<open>Session artifacts\<close>

datatype InternalPathKind = SessionRoot | SessionDirectory | SessionJournal | SessionDiagnostic | SessionToolResult

definition MAX_SESSION_ID_LEN :: nat where
  "MAX_SESSION_ID_LEN = 200"

definition is_ascii_control :: "char \<Rightarrow> bool" where
  "is_ascii_control c = (of_char c < (32 :: nat) \<or> c = CHR 0x7F)"

definition validate_session_id :: "rstr \<Rightarrow> bool" where
  "validate_session_id i =
     (i \<noteq> [] \<and> trim i \<noteq> [] \<and> list_all is_ascii i \<and> length i \<le> MAX_SESSION_ID_LEN
      \<and> \<not> (i = ''.'' \<or> CHR ''/'' \<in> set i \<or> CHR 0x5C \<in> set i \<or> contains i ''..'' \<or> list_ex is_ascii_control i)
      \<and> length (path_components i) = 1)"

definition contains_glob_meta :: "rstr \<Rightarrow> bool" where
  "contains_glob_meta path = list_ex (\<lambda>c. c \<in> set ''*?[]{}'') path"

definition is_session_selector :: "rstr \<Rightarrow> bool \<Rightarrow> bool" where
  "is_session_selector component globs =
     (validate_session_id component \<or> globs \<and> contains_glob_meta component)"

definition is_session_diagnostic_file :: "rstr \<Rightarrow> bool" where
  "is_session_diagnostic_file name =
     (name \<in> set [''workspace.yaml'', ''conversation_log.jsonl'', ''step_events.jsonl'', ''session-memory.md'',
                  ''session-memory.meta.json'']
      \<or> starts_with name ''llm_error_'' \<and> ends_with name ''.json'')"

definition session_artifact_dir_kind :: "rstr \<Rightarrow> InternalPathKind option" where
  "session_artifact_dir_kind name =
     (if name = ''tool-results'' then Some SessionToolResult
      else if name \<in> set [''step_checkpoints'', ''checkpoints'', ''file_checkpoints''] then Some SessionDiagnostic
      else None)"

definition is_session_journal_file_name :: "rstr \<Rightarrow> bool" where
  "is_session_journal_file_name name =
     (case strip_suffix ''.jsonl'' name of None \<Rightarrow> False | Some i \<Rightarrow> validate_session_id i)"

definition classify_session_relative_components :: "rstr list \<Rightarrow> bool \<Rightarrow> InternalPathKind option" where
  "classify_session_relative_components components globs =
     (case components of
        [] \<Rightarrow> Some SessionRoot
      | [f] \<Rightarrow>
          if is_session_journal_file_name f then Some SessionJournal
          else if is_session_selector f globs then Some SessionDirectory
          else None
      | [s, child] \<Rightarrow>
          if is_session_selector s globs \<and> is_session_diagnostic_file child then Some SessionDiagnostic
          else if is_session_selector s globs then session_artifact_dir_kind child
          else None
      | s # dir # rest \<Rightarrow>
          if is_session_selector s globs \<and> list_all (\<lambda>c. globs \<or> \<not> contains_glob_meta c) rest
          then session_artifact_dir_kind dir else None)"

fun normal_components :: "rpath \<Rightarrow> rstr list option" where
  "normal_components [] = Some []"
| "normal_components (Normal n # p) = map_option ((#) n) (normal_components p)"
| "normal_components (CurDir # p) = normal_components p"
| "normal_components (_ # p) = None"

definition classify_session_relative_path :: "rpath \<Rightarrow> bool \<Rightarrow> InternalPathKind option" where
  "classify_session_relative_path relative globs =
     Option.bind (normal_components relative) (\<lambda>cs. classify_session_relative_components cs globs)"

text \<open>The places the code asks the system for: home and the two canonical artifact roots, if they exist.\<close>

record path_env = permission_env +
  home_dir :: "rstr option"
  tool_results_root :: "rpath option"
  sessions_root :: "rpath option"

definition path_push :: "rstr \<Rightarrow> rstr \<Rightarrow> rstr" where
  "path_push base rest =
     (if starts_with rest ''/'' then rest
      else if base = [] \<or> ends_with base ''/'' then base @ rest else base @ ''/'' @ rest)"

definition expand_home_path :: "'x path_env_scheme \<Rightarrow> rstr \<Rightarrow> rstr" where
  "expand_home_path env path =
     (case home_dir env of
        None \<Rightarrow> path
      | Some home \<Rightarrow>
          if path = ''~'' then home
          else case strip_prefix ''~/'' path of Some rest \<Rightarrow> path_push home rest
          | None \<Rightarrow> (case strip_prefix ''$HOME/'' path of Some rest \<Rightarrow> path_push home rest
          | None \<Rightarrow> (case strip_prefix ''${HOME}/'' path of Some rest \<Rightarrow> path_push home rest
          | None \<Rightarrow> path)))"

definition normals :: "rpath \<Rightarrow> nat" where
  "normals p = length (filter (\<lambda>c. case c of Normal _ \<Rightarrow> True | _ \<Rightarrow> False) p)"

lemma normals_butlast: "file_name p = Some n \<Longrightarrow> normals (butlast p) < normals p"
  by (cases p rule: rev_cases) (auto simp: file_name_def normals_def split: path_component.splits)

function nearest_existing :: "(rpath \<Rightarrow> rpath option) \<Rightarrow> rpath \<Rightarrow> rstr list \<Rightarrow> rpath option" where
  "nearest_existing canonicalize current missing =
     (case file_name current of
        None \<Rightarrow> None
      | Some name \<Rightarrow>
          let parent = (if butlast current = [] then [CurDir] else butlast current) in
          (case canonicalize parent of
             Some canonical \<Rightarrow> Some (canonical @ map Normal (rev (missing @ [name])))
           | None \<Rightarrow> nearest_existing canonicalize parent (missing @ [name])))"
  by pat_completeness auto
termination
proof (relation "measure (\<lambda>(_, current, _). normals current)", goal_cases)
  case (2 canonicalize current missing name parent)
  then show ?case
    using normals_butlast [of current name] by (auto simp: normals_def)
qed simp

declare nearest_existing.simps [simp del]

definition canonicalize_existing_or_nearest :: "'x permission_env_scheme \<Rightarrow> rpath \<Rightarrow> rpath option" where
  "canonicalize_existing_or_nearest env path =
     (case fs_canonicalize env path of
        Some canonical \<Rightarrow> Some canonical
      | None \<Rightarrow> nearest_existing (fs_canonicalize env) path [])"

definition relative_to :: "rpath \<Rightarrow> rpath \<Rightarrow> rpath option" where
  "relative_to root p = (if path_starts_with p root then Some (drop (length root) p) else None)"

definition artifact_relative :: "'x path_env_scheme \<Rightarrow> rpath option \<Rightarrow> rstr \<Rightarrow> rpath option" where
  "artifact_relative env root path =
     Option.bind root (\<lambda>r.
     Option.bind (canonicalize_existing_or_nearest env (path_components (expand_home_path env path)))
       (relative_to r))"

definition classify_legacy_tool_result_path :: "'x path_env_scheme \<Rightarrow> rstr \<Rightarrow> InternalPathKind option" where
  "classify_legacy_tool_result_path env path =
     (case artifact_relative env (tool_results_root env) path of
        Some [Normal _] \<Rightarrow> Some SessionToolResult | _ \<Rightarrow> None)"

definition classify_current_session_artifact_path :: "'x path_env_scheme \<Rightarrow> rstr \<Rightarrow> InternalPathKind option" where
  "classify_current_session_artifact_path env path =
     (if contains_glob_meta path then None
      else Option.bind (artifact_relative env (sessions_root env) path)
        (\<lambda>relative. classify_session_relative_path relative False))"

definition classify_current_session_listing_pattern :: "'x path_env_scheme \<Rightarrow> rstr \<Rightarrow> InternalPathKind option" where
  "classify_current_session_listing_pattern env path =
     (if \<not> contains_glob_meta path then None
      else Option.bind (artifact_relative env (sessions_root env) path)
        (\<lambda>relative. classify_session_relative_path relative True))"

section \<open>The classification of a path\<close>

datatype PathSensitivity = PathNormal | PathSensitive | PathWriteSensitive | InternalArtifactReadOnly InternalPathKind

datatype PathAccess = AccessRead | AccessList | AccessWrite

record SensitivePathMatch =
  sm_token :: rstr
  sm_sensitivity :: PathSensitivity
  sm_access :: PathAccess

definition is_read_sensitive_path :: "'x path_env_scheme \<Rightarrow> rstr \<Rightarrow> bool" where
  "is_read_sensitive_path env path =
     (let expanded = expand_home_path env path in
      is_sensitive_path expanded \<or> matches_sensitive_path path \<or> matches_sensitive_path expanded)"

definition is_write_sensitive_path :: "'x path_env_scheme \<Rightarrow> rstr \<Rightarrow> bool" where
  "is_write_sensitive_path env path =
     (is_read_sensitive_path env path \<or> is_dangerous_file_path path
      \<or> is_dangerous_file_path (expand_home_path env path))"

definition normalize_lexical_path :: "rpath \<Rightarrow> rpath" where
  "normalize_lexical_path p = normalize_path_components p"

definition normal_component_strings :: "rpath \<Rightarrow> rstr list" where
  "normal_component_strings p =
     List.map_filter (\<lambda>c. case c of Normal n \<Rightarrow> Some n | _ \<Rightarrow> None) (normalize_lexical_path p)"

fun has_skills_window :: "rstr list \<Rightarrow> bool" where
  "has_skills_window (a # b # cs) =
     (a \<in> {''.astra'', ''.claude''} \<and> b = ''skills'' \<or> has_skills_window (b # cs))"
| "has_skills_window _ = False"

definition is_agent_skill_content_path :: "'x path_env_scheme \<Rightarrow> rstr \<Rightarrow> bool" where
  "is_agent_skill_content_path env path =
     (has_skills_window (normal_component_strings (path_components path))
      \<or> has_skills_window (normal_component_strings (path_components (expand_home_path env path))))"

definition classify_path_sensitivity :: "'x path_env_scheme \<Rightarrow> rstr \<Rightarrow> PathSensitivity" where
  "classify_path_sensitivity env path =
     (case classify_legacy_tool_result_path env path of
        Some kind \<Rightarrow> InternalArtifactReadOnly kind
      | None \<Rightarrow>
          (case classify_current_session_artifact_path env path of
             Some kind \<Rightarrow> InternalArtifactReadOnly kind
           | None \<Rightarrow>
               if is_read_sensitive_path env path then PathSensitive
               else if is_agent_skill_content_path env path then PathNormal
               else if is_write_sensitive_path env path then PathWriteSensitive
               else PathNormal))"

definition path_requires_sensitive_gate ::
  "'x path_env_scheme \<Rightarrow> rstr \<Rightarrow> PathAccess \<Rightarrow> SensitivePathMatch option" where
  "path_requires_sensitive_gate env path access =
     (let first = classify_path_sensitivity env path;
          sensitivity = (if first = PathWriteSensitive \<and> access = AccessList then
              (case classify_current_session_listing_pattern env path of
                 Some kind \<Rightarrow> InternalArtifactReadOnly kind | None \<Rightarrow> first)
            else first);
          gated = (case sensitivity of
              PathNormal \<Rightarrow> False
            | PathSensitive \<Rightarrow> True
            | PathWriteSensitive \<Rightarrow> access = AccessWrite \<or> access = AccessRead \<and> contains_glob_meta path
            | InternalArtifactReadOnly _ \<Rightarrow> access = AccessWrite) in
      if gated then Some \<lparr>sm_token = path, sm_sensitivity = sensitivity, sm_access = access\<rparr> else None)"

section \<open>Shell words\<close>

definition digits_only :: "rstr \<Rightarrow> bool" where
  "digits_only s = list_all is_ascii_digit s"

text \<open>What an angle bracket collects: itself doubled, then an ampersand; the rest of the input is left.\<close>

definition redirection_text :: "uchar \<Rightarrow> uchar list \<Rightarrow> rstr \<times> uchar list" where
  "redirection_text ch cs =
     (let (op1, cs1) = (case cs of n # r \<Rightarrow> if n = ch then (ch @ n, r) else (ch, cs) | [] \<Rightarrow> (ch, cs)) in
      case cs1 of n # r \<Rightarrow> if n = ''&'' then (op1 @ n, r) else (op1, cs1) | [] \<Rightarrow> (op1, cs1))"

lemma redirection_text_length: "length (snd (redirection_text ch cs)) \<le> length cs"
  by (auto simp: redirection_text_def split: list.splits)

function shell_words :: "uchar list \<Rightarrow> rstr \<Rightarrow> bool \<Rightarrow> bool \<Rightarrow> rstr list" where
  "shell_words [] current dq sq = (if current \<noteq> [] then [current] else [])"
| "shell_words (ch # cs) current dq sq =
     (if ch = [CHR 0x22] \<and> \<not> sq then shell_words cs current (\<not> dq) sq
      else if ch = [CHR 0x27] \<and> \<not> dq then shell_words cs current dq (\<not> sq)
      else if ch = [CHR 0x5C] \<and> \<not> sq then
        (case cs of
           [] \<Rightarrow> shell_words [] current dq sq
         | n # cs' \<Rightarrow> shell_words cs' (if n = [CHR 0x0A] \<or> n = [CHR 0x0D] then current else current @ n) dq sq)
      else if (ch = ''>'' \<or> ch = ''<'') \<and> \<not> dq \<and> \<not> sq then
        (let fd = (current \<noteq> [] \<and> digits_only current) in
         (if current \<noteq> [] \<and> \<not> fd then [current] else [])
         @ ((if fd then current else []) @ fst (redirection_text ch cs))
           # shell_words (snd (redirection_text ch cs)) [] dq sq)
      else if is_whitespace ch \<and> \<not> dq \<and> \<not> sq then
        (if current \<noteq> [] then current # shell_words cs [] dq sq else shell_words cs [] dq sq)
      else shell_words cs (current @ ch) dq sq)"
  by pat_completeness auto
termination
  by (relation "measure (\<lambda>(cs, _). length cs)") (auto simp: redirection_text_length less_Suc_eq_le)

declare shell_words.simps(2) [simp del]

definition shell_tokenize_like_bash :: "rstr \<Rightarrow> rstr list" where
  "shell_tokenize_like_bash input = shell_words (utf8_chars input) [] False False"

definition is_ascii_alphabetic :: "char \<Rightarrow> bool" where
  "is_ascii_alphabetic c = (is_ascii_alphanumeric c \<and> \<not> is_ascii_digit c)"

definition looks_like_shell_assignment :: "rstr \<Rightarrow> bool" where
  "looks_like_shell_assignment token =
     (case find_byte (CHR ''='') token of
        None \<Rightarrow> False
      | Some k \<Rightarrow>
          let key = take k token in
          key \<noteq> [] \<and> drop (Suc k) token \<noteq> []
          \<and> list_all (\<lambda>c. c = CHR ''_'' \<or> is_ascii_alphanumeric c) key
          \<and> (hd key = CHR ''_'' \<or> is_ascii_alphabetic (hd key)))"

definition shell_basename :: "rstr \<Rightarrow> rstr" where
  "shell_basename token = last (split_byte (CHR ''/'') token)"

definition trim_matches :: "(char \<Rightarrow> bool) \<Rightarrow> rstr \<Rightarrow> rstr" where
  "trim_matches p s = rev (dropWhile p (rev (dropWhile p s)))"

definition shell_path_operand :: "rstr \<Rightarrow> rstr option" where
  "shell_path_operand token =
     (let trimmed = trim_matches (\<lambda>c. c \<in> set ''(),;'') (trim_matches (\<lambda>c. c = CHR 0x22 \<or> c = CHR 0x27) token) in
      if trimmed = [] \<or> trimmed = ''-'' \<or> starts_with trimmed ''http://'' \<or> starts_with trimmed ''https://'' then None
      else Some trimmed)"

definition is_redirection_operator :: "rstr \<Rightarrow> PathAccess option" where
  "is_redirection_operator token =
     (let without_fd = dropWhile is_ascii_digit token in
      if without_fd = [] \<or> CHR ''&'' \<in> set without_fd then None
      else if starts_with without_fd ''>'' then Some AccessWrite
      else if starts_with without_fd ''<<'' then None
      else if starts_with without_fd ''<'' then Some AccessRead
      else None)"

definition shell_operand_sensitive_path_match ::
  "'x path_env_scheme \<Rightarrow> rstr \<Rightarrow> PathAccess \<Rightarrow> SensitivePathMatch option" where
  "shell_operand_sensitive_path_match env token access =
     Option.bind (shell_path_operand token) (\<lambda>path. path_requires_sensitive_gate env path access)"

section \<open>Operands of a command\<close>

text \<open>The loops over the tokens from an index on are recursions over the tokens that are left.\<close>

function redirection_sensitive_path_match :: "'x path_env_scheme \<Rightarrow> rstr list \<Rightarrow> SensitivePathMatch option" where
  "redirection_sensitive_path_match env [] = None"
| "redirection_sensitive_path_match env [t] = None"
| "redirection_sensitive_path_match env (t # u # ts) =
     (case is_redirection_operator t of
        None \<Rightarrow> redirection_sensitive_path_match env (u # ts)
      | Some access \<Rightarrow>
          (case shell_operand_sensitive_path_match env u access of
             Some hit \<Rightarrow> Some hit
           | None \<Rightarrow> redirection_sensitive_path_match env ts))"
  by pat_completeness auto
termination
  by (relation "measure (\<lambda>(_, ts). length ts)") auto

function generic_loop ::
  "'x path_env_scheme \<Rightarrow> PathAccess \<Rightarrow> bool \<Rightarrow> rstr list \<Rightarrow> SensitivePathMatch option" where
  "generic_loop env access stop [] = None"
| "generic_loop env access stop (t # ts) =
     (if is_redirection_operator t \<noteq> None then generic_loop env access stop (drop 1 ts)
      else if \<not> stop \<and> t = ''--'' then generic_loop env access True ts
      else if \<not> stop \<and> starts_with t ''-'' then generic_loop env access stop ts
      else
        (case shell_operand_sensitive_path_match env t access of
           Some hit \<Rightarrow> Some hit
         | None \<Rightarrow> generic_loop env access stop ts))"
  by pat_completeness auto
termination
  by (relation "measure (\<lambda>(_, _, _, ts). length ts)") auto

definition generic_sensitive_path_match ::
  "'x path_env_scheme \<Rightarrow> rstr list \<Rightarrow> PathAccess \<Rightarrow> SensitivePathMatch option" where
  "generic_sensitive_path_match env tokens access = generic_loop env access False tokens"

datatype GrepFlagValue = FlagPattern | FlagFile

function grep_loop ::
  "'x path_env_scheme \<Rightarrow> bool \<Rightarrow> GrepFlagValue option \<Rightarrow> bool \<Rightarrow> rstr list \<Rightarrow> SensitivePathMatch option" where
  "grep_loop env pattern_seen pending stop [] = None"
| "grep_loop env pattern_seen pending stop (t # ts) =
     (if is_redirection_operator t \<noteq> None then grep_loop env pattern_seen pending stop (drop 1 ts)
      else case pending of
        Some kind \<Rightarrow>
          (case (if kind = FlagFile then shell_operand_sensitive_path_match env t AccessRead else None) of
             Some hit \<Rightarrow> Some hit
           | None \<Rightarrow> grep_loop env pattern_seen None stop ts)
      | None \<Rightarrow>
          if \<not> stop \<and> t = ''--'' then grep_loop env pattern_seen None True ts
          else if \<not> stop \<and> starts_with t ''-'' then
            if t \<in> {''-e'', ''--regexp''} then grep_loop env pattern_seen (Some FlagPattern) stop ts
            else if starts_with t ''--regexp='' then grep_loop env pattern_seen None stop ts
            else if t \<in> {''-f'', ''--file''} then grep_loop env pattern_seen (Some FlagFile) stop ts
            else
              (case Option.bind (strip_prefix ''--file='' t) (\<lambda>v. shell_operand_sensitive_path_match env v AccessRead) of
                 Some hit \<Rightarrow> Some hit
               | None \<Rightarrow> grep_loop env pattern_seen None stop ts)
          else if \<not> pattern_seen then grep_loop env True None stop ts
          else
            (case shell_operand_sensitive_path_match env t AccessRead of
               Some hit \<Rightarrow> Some hit
             | None \<Rightarrow> grep_loop env pattern_seen None stop ts))"
  by pat_completeness auto
termination
  by (relation "measure (\<lambda>(_, _, _, _, ts). length ts)") auto

definition grep_like_sensitive_path_match :: "'x path_env_scheme \<Rightarrow> rstr list \<Rightarrow> SensitivePathMatch option" where
  "grep_like_sensitive_path_match env tokens = grep_loop env False None False tokens"

function sed_loop ::
  "'x path_env_scheme \<Rightarrow> bool \<Rightarrow> bool \<Rightarrow> bool \<Rightarrow> rstr list \<Rightarrow> SensitivePathMatch option" where
  "sed_loop env script_seen write stop [] = None"
| "sed_loop env script_seen write stop (t # ts) =
     (if is_redirection_operator t \<noteq> None then sed_loop env script_seen write stop (drop 1 ts)
      else if \<not> stop \<and> t = ''--'' then sed_loop env script_seen write True ts
      else if \<not> stop \<and> starts_with t ''-'' then
        sed_loop env script_seen (write \<or> t = ''-i'' \<or> starts_with t ''-i'' \<or> t = ''--in-place'') stop ts
      else if \<not> script_seen then sed_loop env True write stop ts
      else
        (case shell_operand_sensitive_path_match env t (if write then AccessWrite else AccessRead) of
           Some hit \<Rightarrow> Some hit
         | None \<Rightarrow> sed_loop env script_seen write stop ts))"
  by pat_completeness auto
termination
  by (relation "measure (\<lambda>(_, _, _, _, ts). length ts)") auto

definition sed_sensitive_path_match :: "'x path_env_scheme \<Rightarrow> rstr list \<Rightarrow> SensitivePathMatch option" where
  "sed_sensitive_path_match env tokens = sed_loop env False False False tokens"

fun find_sensitive_path_match :: "'x path_env_scheme \<Rightarrow> rstr list \<Rightarrow> SensitivePathMatch option" where
  "find_sensitive_path_match env [] = None"
| "find_sensitive_path_match env (t # ts) =
     (if t = ''--'' then find_sensitive_path_match env ts
      else if starts_with t ''-'' then None
      else
        (case shell_operand_sensitive_path_match env t AccessRead of
           Some hit \<Rightarrow> Some hit
         | None \<Rightarrow> find_sensitive_path_match env ts))"

function path_operands_loop :: "bool \<Rightarrow> rstr list \<Rightarrow> rstr list" where
  "path_operands_loop stop [] = []"
| "path_operands_loop stop (t # ts) =
     (if is_redirection_operator t \<noteq> None then path_operands_loop stop (drop 1 ts)
      else if \<not> stop \<and> t = ''--'' then path_operands_loop True ts
      else if \<not> stop \<and> starts_with t ''-'' then path_operands_loop stop ts
      else (if shell_path_operand t \<noteq> None then [t] else []) @ path_operands_loop stop ts)"
  by pat_completeness auto
termination
  by (relation "measure (\<lambda>(_, ts). length ts)") auto

definition shell_path_operands :: "rstr list \<Rightarrow> rstr list" where
  "shell_path_operands tokens = path_operands_loop False tokens"

fun copy_operands :: "'x path_env_scheme \<Rightarrow> rstr list \<Rightarrow> SensitivePathMatch option" where
  "copy_operands env [] = None"
| "copy_operands env (t # ts) =
     (case shell_operand_sensitive_path_match env t (if ts = [] then AccessWrite else AccessRead) of
        Some hit \<Rightarrow> Some hit
      | None \<Rightarrow> copy_operands env ts)"

definition copy_like_sensitive_path_match :: "'x path_env_scheme \<Rightarrow> rstr list \<Rightarrow> SensitivePathMatch option" where
  "copy_like_sensitive_path_match env tokens = copy_operands env (shell_path_operands tokens)"

text \<open>The command word and what follows it, after assignments, redirections and wrappers.\<close>

definition command_wrappers :: "rstr list" where
  "command_wrappers =
     [''command'', ''builtin'', ''exec'', ''nohup'', ''noglob'', ''nocorrect'', ''sudo'', ''doas'', ''time'']"

function first_command_tokens :: "rstr list \<Rightarrow> rstr list option" where
  "first_command_tokens [] = None"
| "first_command_tokens (t # ts) =
     (if t = [] \<or> looks_like_shell_assignment t \<or> is_redirection_operator t \<noteq> None then first_command_tokens ts
      else if shell_basename t \<in> set command_wrappers then first_command_tokens ts
      else if shell_basename t = ''env'' then
        first_command_tokens (dropWhile (\<lambda>e. looks_like_shell_assignment e \<or> starts_with e ''-'') ts)
      else Some (t # ts))"
  by pat_completeness auto
termination
  by (relation "measure length") (auto simp: length_dropWhile_le less_Suc_eq_le)

definition grep_commands :: "rstr list" where
  "grep_commands = [''grep'', ''egrep'', ''fgrep'', ''rg'', ''ag'', ''ack'']"

definition copy_commands :: "rstr list" where
  "copy_commands = [''cp'', ''install'', ''rsync'']"

definition write_commands :: "rstr list" where
  "write_commands =
     [''rm'', ''rmdir'', ''unlink'', ''mv'', ''touch'', ''mkdir'', ''chmod'', ''chown'', ''chgrp'', ''truncate'', ''tee'']"

definition list_commands :: "rstr list" where
  "list_commands = [''ls'', ''ll'', ''tree'']"

definition read_commands :: "rstr list" where
  "read_commands =
     [''cat'', ''head'', ''tail'', ''less'', ''more'', ''wc'', ''stat'', ''file'', ''du'', ''basename'', ''dirname'',
      ''realpath'', ''readlink'', ''test'']"

definition pathless_commands :: "rstr list" where
  "pathless_commands =
     [''echo'', ''printf'', ''pwd'', ''date'', ''true'', ''false'', ''sleep'', ''whoami'', ''id'', ''uname'', ''hostname'',
      ''env'', ''printenv'']"

definition command_operands_match ::
  "'x path_env_scheme \<Rightarrow> rstr \<Rightarrow> rstr \<Rightarrow> rstr list \<Rightarrow> SensitivePathMatch option" where
  "command_operands_match env segment command ts =
     (if command \<in> set grep_commands then grep_like_sensitive_path_match env ts
      else if command = ''sed'' then sed_sensitive_path_match env ts
      else if command = ''find'' then find_sensitive_path_match env ts
      else if command \<in> set copy_commands then copy_like_sensitive_path_match env ts
      else if command \<in> set write_commands then generic_sensitive_path_match env ts AccessWrite
      else if command \<in> set list_commands then generic_sensitive_path_match env ts AccessList
      else if command \<in> set read_commands then generic_sensitive_path_match env ts AccessRead
      else if command \<in> set pathless_commands then None
      else if shell_reads env segment then None
      else generic_sensitive_path_match env ts AccessWrite)"

definition sensitive_path_match_for_shell_segment :: "'x path_env_scheme \<Rightarrow> rstr \<Rightarrow> SensitivePathMatch option" where
  "sensitive_path_match_for_shell_segment env segment =
     (let tokens = shell_tokenize_like_bash segment in
      if tokens = [] then None
      else
        (case redirection_sensitive_path_match env tokens of
           Some hit \<Rightarrow> Some hit
         | None \<Rightarrow>
             (case first_command_tokens tokens of
                None \<Rightarrow> None
              | Some ts \<Rightarrow> command_operands_match env segment (shell_basename (hd ts)) (tl ts))))"

primrec first_hit :: "('a \<Rightarrow> 'b option) \<Rightarrow> 'a list \<Rightarrow> 'b option" where
  "first_hit f [] = None"
| "first_hit f (x # xs) = (case f x of Some y \<Rightarrow> Some y | None \<Rightarrow> first_hit f xs)"

definition sensitive_path_match_for_shell_command :: "'x path_env_scheme \<Rightarrow> rstr \<Rightarrow> SensitivePathMatch option" where
  "sensitive_path_match_for_shell_command env command =
     first_hit (\<lambda>step. sensitive_path_match_for_shell_segment env (step_command step))
       (command_steps (tokenize_compound_command command))"

definition direct_read_access :: "rstr \<Rightarrow> PathAccess" where
  "direct_read_access tool = (if tool \<in> {''list_dir'', ''glob''} then AccessList else AccessRead)"

definition sensitive_path_match_for_tool_args ::
  "'x path_env_scheme \<Rightarrow> rstr \<Rightarrow> json \<Rightarrow> SensitivePathMatch option" where
  "sensitive_path_match_for_tool_args env tool args =
     (let direct_read = is_read_only_tool_with_args (shell_reads env) tool (Some args);
          by_command = (if category_is_shell (registry_category tool) then
              Option.bind (command_hint_from_args args) (sensitive_path_match_for_shell_command env) else None) in
      case path_hint_from_args args of
        Some path \<Rightarrow>
          if path \<noteq> [] then path_requires_sensitive_gate env path (if direct_read then direct_read_access tool else AccessWrite)
          else by_command
      | None \<Rightarrow> by_command)"

definition sensitive_path_token_for_tool_args :: "'x path_env_scheme \<Rightarrow> rstr \<Rightarrow> json \<Rightarrow> rstr option" where
  "sensitive_path_token_for_tool_args env tool args =
     map_option sm_token (sensitive_path_match_for_tool_args env tool args)"

section \<open>Quoted words\<close>

definition single_quoted :: "rstr \<Rightarrow> rstr" where
  "single_quoted w = [CHR 0x27] @ w @ [CHR 0x27]"

definition quoted_args :: "rstr list \<Rightarrow> rstr" where
  "quoted_args ws = concat (map (\<lambda>w. '' '' @ single_quoted w) ws)"

definition quotable :: "rstr \<Rightarrow> bool" where
  "quotable w = (w \<noteq> [] \<and> CHR 0x27 \<notin> set w \<and> \<not> is_cont_byte (hd w))"

lemma quote_byte: "is_ascii (CHR 0x27)" "\<not> is_cont_byte (CHR 0x27)" "\<not> is_cont_byte (CHR 0x20)"
  by (simp_all add: is_ascii_def is_cont_byte_def)

lemma utf8_ascii_Cons:
  "\<not> is_cont_byte b \<Longrightarrow> is_ascii b \<Longrightarrow> s = [] \<or> \<not> is_cont_byte (hd s) \<Longrightarrow> utf8_chars (b # s) = [b] # utf8_chars s"
  using utf8_chars_append [of s "[b]"] by simp

lemma utf8_no_byte: "c \<notin> set w \<Longrightarrow> [c] \<notin> set (utf8_chars w)"
  using concat_utf8_chars [of w] by (metis UN_I list.set_intros(1) set_concat)

lemma shell_words_in_quotes:
  "[CHR 0x27] \<notin> set cs \<Longrightarrow>
     shell_words (cs @ [CHR 0x27] # rest) current False True = shell_words rest (current @ concat cs) False False"
  by (induction cs arbitrary: current) (auto simp: shell_words.simps(2))

lemma shell_words_quote:
  assumes "[CHR 0x27] \<notin> set cs"
  shows "shell_words ([CHR 0x27] # cs @ [CHR 0x27] # rest) current False False =
    shell_words rest (current @ concat cs) False False"
  using shell_words_in_quotes [OF assms] by (simp add: shell_words.simps(2))

lemma shell_words_space:
  "shell_words ('' '' # rest) current False False =
     (if current \<noteq> [] then current # shell_words rest [] False False else shell_words rest [] False False)"
  by (simp add: shell_words.simps(2) is_whitespace_def)

lemma utf8_quoted_args:
  "list_all quotable ws \<Longrightarrow>
     utf8_chars (quoted_args ws) = concat (map (\<lambda>w. '' '' # [CHR 0x27] # utf8_chars w @ [[CHR 0x27]]) ws)"
proof (induction ws)
  case (Cons w ws)
  let ?rest = "quoted_args ws"
  have rest: "?rest = [] \<or> \<not> is_cont_byte (hd ?rest)"
    by (cases ws) (simp_all add: quoted_args_def quote_byte)
  have "utf8_chars (w @ [CHR 0x27] @ ?rest) = utf8_chars w @ [CHR 0x27] # utf8_chars ?rest"
    using rest by (subst utf8_chars_append) (simp_all add: quote_byte utf8_ascii_Cons del: utf8_chars.simps)
  moreover have "utf8_chars (CHR 0x20 # CHR 0x27 # w @ [CHR 0x27] @ ?rest) =
      '' '' # [CHR 0x27] # utf8_chars (w @ [CHR 0x27] @ ?rest)"
    using Cons.prems
    by (subst utf8_ascii_Cons; (subst utf8_ascii_Cons)?)
      (simp_all add: quotable_def quote_byte is_ascii_def del: utf8_chars.simps)
  ultimately show ?case
    using Cons by (simp add: quoted_args_def single_quoted_def del: utf8_chars.simps)
qed (simp add: quoted_args_def)

lemma shell_words_args:
  "list_all quotable ws \<Longrightarrow> current \<noteq> [] \<Longrightarrow>
     shell_words (concat (map (\<lambda>w. '' '' # [CHR 0x27] # utf8_chars w @ [[CHR 0x27]]) ws)) current False False = current # ws"
proof (induction ws arbitrary: current)
  case (Cons w ws)
  let ?rest = "concat (map (\<lambda>w. '' '' # [CHR 0x27] # utf8_chars w @ [[CHR 0x27]]) ws)"
  have "[CHR 0x27] \<notin> set (utf8_chars w)" "w \<noteq> []"
    using Cons.prems by (simp_all add: quotable_def utf8_no_byte)
  then have "shell_words ([CHR 0x27] # utf8_chars w @ [CHR 0x27] # ?rest) [] False False = w # ws"
    using shell_words_quote [of "utf8_chars w" ?rest "[]"] Cons.IH [of w] Cons.prems by simp
  then show ?case
    using Cons.prems shell_words_space [of "[CHR 0x27] # utf8_chars w @ [CHR 0x27] # ?rest" current] by simp
qed simp

definition plain_char :: "uchar \<Rightarrow> bool" where
  "plain_char ch = (ch \<notin> {[CHR 0x22], [CHR 0x27], [CHR 0x5C], ''>'', ''<''} \<and> \<not> is_whitespace ch)"

lemma shell_words_plain:
  "list_all plain_char cs \<Longrightarrow>
     shell_words (cs @ rest) current False False = shell_words rest (current @ concat cs) False False"
  by (induction cs arbitrary: current) (simp_all add: shell_words.simps(2) plain_char_def)

lemma tokenize_quoted:
  assumes "list_all plain_char (utf8_chars cmd)" "cmd \<noteq> []" "list_all quotable ws"
  shows "shell_tokenize_like_bash (cmd @ quoted_args ws) = cmd # ws"
proof -
  have "quoted_args ws = [] \<or> \<not> is_cont_byte (hd (quoted_args ws))"
    by (cases ws) (simp_all add: quoted_args_def quote_byte)
  then have "utf8_chars (cmd @ quoted_args ws) = utf8_chars cmd @ utf8_chars (quoted_args ws)"
    by (rule utf8_chars_append)
  then show ?thesis
    using shell_words_plain [OF assms(1), of "utf8_chars (quoted_args ws)" "[]"]
      shell_words_args [OF assms(3,2)] utf8_quoted_args [OF assms(3)]
    by (simp add: shell_tokenize_like_bash_def)
qed

section \<open>Quoted words and the compound tokenizer\<close>

lemma quiet_in_single:
  assumes "CHR 0x27 \<notin> set w"
  shows "quiet (scan_start\<lparr>in_single := True\<rparr>) (w @ [CHR 0x27] @ s) st' \<longleftrightarrow> quiet scan_start s st'"
  using assms
proof (induction w)
  case Nil
  then show ?case
    by (simp add: quiet_plain escapes_def top_operator_def quoted_def scan_byte_def scan_start_def)
next
  case (Cons b w)
  then show ?case
    by (auto simp: quiet_plain escapes_def top_operator_def quoted_def scan_byte_def scan_start_def)
qed

lemma quiet_single_quoted:
  "CHR 0x27 \<notin> set w \<Longrightarrow> quiet scan_start (single_quoted w @ s) st' \<longleftrightarrow> quiet scan_start s st'"
proof -
  assume w: "CHR 0x27 \<notin> set w"
  have "\<not> escapes scan_start (CHR 0x27) (w @ [CHR 0x27] @ s)"
    and "top_operator scan_start (CHR 0x27) (w @ [CHR 0x27] @ s) = None"
    and "scan_byte scan_start (CHR 0x27) = scan_start\<lparr>in_single := True\<rparr>"
    by (simp_all add: escapes_def top_operator_def scan_byte_def scan_start_def)
  then show ?thesis
    using quiet_in_single [OF w, of s st'] quiet_plain [of scan_start "CHR 0x27" "w @ [CHR 0x27] @ s" st']
    by (simp add: single_quoted_def)
qed

lemma quiet_quoted_args: "list_all quotable ws \<Longrightarrow> quiet scan_start (quoted_args ws) scan_start"
proof (induction ws)
  case (Cons w ws)
  then show ?case
    using quiet_single_quoted [of w "quoted_args ws" scan_start] quiet_plain_byte [of "CHR 0x20" scan_start]
    by (simp add: quoted_args_def quotable_def plain_byte_def)
qed (simp add: quoted_args_def)

lemma compound_quoted:
  assumes "list_all plain_char (utf8_chars cmd)" "list_all plain_byte cmd" "cmd \<noteq> []" "list_all quotable ws"
  shows "map step_command (command_steps (tokenize_compound_command (cmd @ quoted_args ws))) = [cmd @ quoted_args ws]"
proof -
  have quiet: "quiet scan_start (cmd @ quoted_args ws) scan_start"
    using quiet_plain_prefix [OF assms(2)] quiet_quoted_args [OF assms(4)] by simp
  have cmd: "trim cmd = cmd"
  proof -
    obtain a m where am: "utf8_chars cmd = a # m" using assms(3) by (cases cmd) auto
    then have "\<not> is_whitespace a" "\<not> is_whitespace (last (a # m))"
      using assms(1) by (auto simp: list_all_iff plain_char_def)
    with am show ?thesis by (rule trim_fixed)
  qed
  have "trim (cmd @ quoted_args ws) = cmd @ quoted_args ws"
  proof (cases ws rule: rev_cases)
    case (snoc vs w)
    have "quoted_args ws = (quoted_args vs @ '' '' @ [CHR 0x27] @ w) @ [CHR 0x27]"
      by (simp add: snoc quoted_args_def single_quoted_def)
    moreover have "\<not> is_cont_byte (hd (quoted_args vs @ '' '' @ [CHR 0x27] @ w))"
      by (cases vs) (simp_all add: quoted_args_def quote_byte)
    ultimately show ?thesis
      using trim_closed [OF cmd assms(3), of "quoted_args vs @ '' '' @ [CHR 0x27] @ w" "CHR 0x27"]
      by (simp add: quote_byte is_whitespace_def)
  qed (simp add: cmd quoted_args_def)
  then show ?thesis
    using tokenize_quiet [OF _ _ quiet] assms(3) by simp
qed

section \<open>What a reading command asks for\<close>

definition operand_word :: "rstr \<Rightarrow> bool" where
  "operand_word w = (quotable w \<and> is_redirection_operator w = None \<and> \<not> starts_with w ''-'')"

definition command_word :: "rstr \<Rightarrow> bool" where
  "command_word c =
     (list_all plain_char (utf8_chars c) \<and> list_all plain_byte c \<and> c \<noteq> [] \<and> is_redirection_operator c = None
      \<and> \<not> looks_like_shell_assignment c \<and> shell_basename c = c \<and> c \<notin> set command_wrappers \<and> c \<noteq> ''env'')"

lemma generic_loop_operands:
  "list_all operand_word ws \<Longrightarrow>
     generic_loop env access stop ws = first_hit (\<lambda>w. shell_operand_sensitive_path_match env w access) ws"
  by (induction ws) (auto simp: operand_word_def starts_with_def split: option.split)

lemma redirection_match_None:
  "list_all (\<lambda>t. is_redirection_operator t = None) ts \<Longrightarrow> redirection_sensitive_path_match env ts = None"
  by (induction env ts rule: redirection_sensitive_path_match.induct) auto

lemma segment_quoted:
  assumes "command_word c" "list_all operand_word ws"
  shows "sensitive_path_match_for_shell_segment env (c @ quoted_args ws) =
    command_operands_match env (c @ quoted_args ws) c ws"
proof -
  have "list_all quotable ws"
    using assms(2) by (auto simp: list_all_iff operand_word_def)
  then have "shell_tokenize_like_bash (c @ quoted_args ws) = c # ws"
    using assms(1) by (intro tokenize_quoted) (simp_all add: command_word_def)
  moreover have "redirection_sensitive_path_match env (c # ws) = None"
    using assms by (intro redirection_match_None) (auto simp: list_all_iff operand_word_def command_word_def)
  moreover have "first_command_tokens (c # ws) = Some (c # ws)"
    using assms(1) by (simp add: command_word_def)
  ultimately show ?thesis
    using assms(1) by (simp add: sensitive_path_match_for_shell_segment_def command_word_def)
qed

lemma command_quoted:
  assumes "command_word c" "list_all operand_word ws"
  shows "sensitive_path_match_for_shell_command env (c @ quoted_args ws) =
    command_operands_match env (c @ quoted_args ws) c ws"
proof -
  have "list_all quotable ws"
    using assms(2) by (auto simp: list_all_iff operand_word_def)
  then have "map step_command (command_steps (tokenize_compound_command (c @ quoted_args ws))) = [c @ quoted_args ws]"
    using assms(1) by (intro compound_quoted) (simp_all add: command_word_def)
  then obtain step where "command_steps (tokenize_compound_command (c @ quoted_args ws)) = [step]"
    and "step_command step = c @ quoted_args ws"
    by (auto simp: map_eq_Cons_conv)
  then show ?thesis
    using segment_quoted [OF assms, of env]
    by (simp add: sensitive_path_match_for_shell_command_def split: option.split)
qed

lemma read_command_words:
  "list_all (\<lambda>c. command_word c \<and> c \<notin> set grep_commands \<and> c \<notin> {''sed'', ''find''} \<and> c \<notin> set copy_commands
     \<and> c \<notin> set write_commands \<and> c \<notin> set list_commands) read_commands"
  by code_simp

text \<open>
  A command that reads files is asked about exactly for its sensitive operands. Whatever the operands are,
  written in single quotes, with blanks, separators, globs or anything but a quote in them, the scan
  of the whole command finds the first of them that the gate stops for reading, and nothing else.
\<close>

theorem quoted_read_scanned:
  assumes "c \<in> set read_commands" "list_all operand_word ws"
  shows "sensitive_path_match_for_shell_command env (c @ quoted_args ws) =
    first_hit (\<lambda>w. shell_operand_sensitive_path_match env w AccessRead) ws"
proof -
  note c = list_all_iff [THEN iffD1, OF read_command_words, rule_format, OF assms(1)]
  have "sensitive_path_match_for_shell_command env (c @ quoted_args ws) =
      generic_sensitive_path_match env ws AccessRead"
    using c assms(1) command_quoted [OF _ assms(2), of c env] by (simp add: command_operands_match_def)
  then show ?thesis
    using generic_loop_operands [OF assms(2), of env AccessRead False] by (simp add: generic_sensitive_path_match_def)
qed

theorem quoted_read_scanned_witness:
  "sensitive_path_match_for_shell_command (permission_env.extend bare_env
     \<lparr>home_dir = None, tool_results_root = None, sessions_root = None\<rparr>)
     (''cat'' @ quoted_args [''a; b'', ''x/.env'']) \<noteq> None"
proof -
  let ?env = "permission_env.extend bare_env \<lparr>home_dir = None, tool_results_root = None, sessions_root = None\<rparr>"
  have "''cat'' \<in> set read_commands" "list_all operand_word [''a; b'', ''x/.env'']"
    and "first_hit (\<lambda>w. shell_operand_sensitive_path_match ?env w AccessRead) [''a; b'', ''x/.env''] \<noteq> None"
    by code_simp+
  then show ?thesis
    using quoted_read_scanned [of "''cat''" "[''a; b'', ''x/.env'']" ?env] by simp
qed

section \<open>The gate in the evaluator\<close>

lemma sensitive_call_stopped:
  assumes "sensitive_path_match env (rq_tool r) (rq_args r) \<noteq> None" "rq_mode r \<noteq> ModeBypass"
    and "fingerprinted_override_match env (rq_tool r) (rq_args r) (rq_ctx r) = None"
  shows "de_decision (evaluate_permission_with_provider_policy env r) \<noteq> HardAllow"
proof (rule concludes_outer [where P="\<lambda>d _. d \<noteq> HardAllow"])
  show "de_decision (evaluate_permission_once env r) \<noteq> HardAllow"
  proof (rule verdict_at [where P="\<lambda>d _. d \<noteq> HardAllow" and env=env and r=r and os="take 6 (guard_steps env r)"
        and o'="sensitive_step env r" and rest="drop 7 (guard_steps env r) @ relaxable_steps env r"])
    show "snd (sensitive_step env r) \<noteq> None" "answers (\<lambda>d _. d \<noteq> HardAllow) (sensitive_step env r)"
      using assms
      by (auto simp: guard_defs mode_defs guard_outcome_def Let_def)
    have "answers (\<lambda>d _. d \<noteq> HardAllow) (git_step env r)"
      using assms(3) by (simp add: guard_defs Let_def)
    then show "list_all (answers (\<lambda>d _. d \<noteq> HardAllow)) (take 6 (guard_steps env r))"
      by (simp add: guard_steps_def refusing_steps)
  qed (simp add: guard_steps_def)
qed simp

lemma secret_gated:
  assumes "is_read_sensitive_path penv path" "classify_legacy_tool_result_path penv path = None"
    and "classify_current_session_artifact_path penv path = None"
  shows "path_requires_sensitive_gate penv path access \<noteq> None"
  using assms by (simp add: path_requires_sensitive_gate_def classify_path_sensitivity_def Let_def)

lemma first_hit_some: "x \<in> set xs \<Longrightarrow> f x \<noteq> None \<Longrightarrow> first_hit f xs \<noteq> None"
  by (induction xs) (auto split: option.split)

definition secret_path :: "'x path_env_scheme \<Rightarrow> rstr \<Rightarrow> bool" where
  "secret_path penv path =
     (path \<noteq> [] \<and> is_read_sensitive_path penv path \<and> classify_legacy_tool_result_path penv path = None
      \<and> classify_current_session_artifact_path penv path = None)"

definition names_secret :: "'x path_env_scheme \<Rightarrow> json \<Rightarrow> bool" where
  "names_secret penv args =
     (case path_hint_from_args args of
        Some path \<Rightarrow> secret_path penv path
      | None \<Rightarrow> (\<exists>c \<in> set read_commands. \<exists>ws. command_hint_from_args args = Some (c @ quoted_args ws)
          \<and> list_all operand_word ws \<and> (\<exists>w \<in> set ws. shell_path_operand w = Some w \<and> secret_path penv w)))"

lemma names_secret_command:
  "path_hint_from_args args = None \<Longrightarrow> command_hint_from_args args = Some (c @ quoted_args ws) \<Longrightarrow>
     c \<in> set read_commands \<Longrightarrow> list_all operand_word ws \<Longrightarrow> w \<in> set ws \<Longrightarrow> shell_path_operand w = Some w \<Longrightarrow>
     secret_path penv w \<Longrightarrow> names_secret penv args"
  unfolding names_secret_def by auto

lemma secret_found:
  assumes "names_secret penv args" "path_hint_from_args args = None \<longrightarrow> tool = ''bash''"
  shows "sensitive_path_token_for_tool_args penv tool args \<noteq> None"
proof (cases "path_hint_from_args args")
  case (Some path)
  with assms show ?thesis
    using secret_gated [of penv path]
    by (auto simp: names_secret_def secret_path_def sensitive_path_token_for_tool_args_def
        sensitive_path_match_for_tool_args_def Let_def)
next
  case None
  then obtain c ws w where c: "c \<in> set read_commands" "list_all operand_word ws"
    and cmd: "command_hint_from_args args = Some (c @ quoted_args ws)"
    and w: "w \<in> set ws" "shell_path_operand w = Some w" "secret_path penv w"
    using assms by (auto simp: names_secret_def)
  have "shell_operand_sensitive_path_match penv w AccessRead \<noteq> None"
    using w secret_gated [of penv w AccessRead] by (simp add: shell_operand_sensitive_path_match_def secret_path_def)
  then have "first_hit (\<lambda>w. shell_operand_sensitive_path_match penv w AccessRead) ws \<noteq> None"
    using w(1) by (intro first_hit_some)
  moreover note c_word = list_all_iff [THEN iffD1, OF read_command_words, rule_format, OF c(1)]
  ultimately have "sensitive_path_match_for_shell_command penv (c @ quoted_args ws) \<noteq> None"
    using c c_word command_quoted [OF _ c(2), of c penv] generic_loop_operands [OF c(2), of penv AccessRead False]
    by (simp add: command_operands_match_def generic_sensitive_path_match_def)
  moreover have "category_is_shell (registry_category ''bash'')"
    by code_simp
  ultimately show ?thesis
    using None assms(2) cmd
    by (simp add: sensitive_path_token_for_tool_args_def sensitive_path_match_for_tool_args_def)
qed

text \<open>
  Reading a secret is never silent. When the evaluator is given the path scan, a call that names, as
  its path or among the quoted operands of a reading command, a path that the credential tables or the patterns match
  and that is not an artifact of the session, is not released in any mode but bypass, unless the user has
  stored an answer for it.
\<close>

theorem secret_read_never_silent:
  assumes "sensitive_token env = sensitive_path_token_for_tool_args penv"
    and "names_secret penv (rq_args r)" "path_hint_from_args (rq_args r) = None \<longrightarrow> rq_tool r = ''bash''"
    and "rq_mode r \<noteq> ModeBypass"
    and "fingerprinted_override_match env (rq_tool r) (rq_args r) (rq_ctx r) = None"
  shows "de_decision (evaluate_permission_with_provider_policy env r) \<noteq> HardAllow"
  using secret_found [OF assms(2,3)] assms(1,4,5)
  by (intro sensitive_call_stopped) (simp_all add: sensitive_path_match_def)

section \<open>Reads the scan does not see\<close>

text \<open>
  The scan and the classifier of reads over one environment, in which the given commands are judged
  reads, as \<^verbatim>\<open>cloud/approval_policy.rs\<close> judges them.
\<close>

definition scan_env :: "rstr list \<Rightarrow> path_env" where
  "scan_env reads = permission_env.extend (bare_env\<lparr>shell_reads := (\<lambda>c. c \<in> set reads)\<rparr>)
     \<lparr>home_dir = Some ''/home/u'', tool_results_root = None, sessions_root = None\<rparr>"

definition scan_engine_env :: "rstr list \<Rightarrow> engine_env" where
  "scan_engine_env reads = plain_engine_env\<lparr>shell_reads := (\<lambda>c. c \<in> set reads),
     sensitive_token := sensitive_path_token_for_tool_args (scan_env reads)\<rparr>"

definition bash_decision :: "rstr list \<Rightarrow> rstr \<Rightarrow> HardDecision" where
  "bash_decision reads command =
     de_decision (evaluate_permission (scan_engine_env reads) ''bash'' (JObject [(''command'', JString command)])
       (plain_context ModePrompt None None))"

definition secret_reads :: "rstr list" where
  "secret_reads = [''nl .env'', ''grep -e KEY .env'', ''find -L /home/u/.ssh'',
     ''true'' @ [CHR 0x0A] @ ''cat .env'']"

text \<open>
  The scan knows its commands by name and by the place of their operands, and what it misses is released
  as a read without asking: a reading command it does not list, an operand after a search pattern
  given by a flag, a directory after an option of \<^verbatim>\<open>find\<close>, and a second line.
\<close>

theorem secret_reads_released:
  "map (bash_decision secret_reads) secret_reads = replicate 4 HardAllow
   \<and> \<not> list_ex (\<lambda>c. bash_decision (c # secret_reads) c = HardAllow) [''cat .env'', ''grep KEY .env'', ''find /home/u/.ssh'']"
  by code_simp

theorem secret_read_never_silent_witness:
  "de_decision (evaluate_permission_with_provider_policy (scan_engine_env [])
     (plain_request ''bash'' (JObject [(''command'', JString (''cat'' @ quoted_args [''a; b'', ''x/.env'']))])
       (plain_context ModeAuto None None))) \<noteq> HardAllow"
proof -
  let ?args = "JObject [(''command'', JString (''cat'' @ quoted_args [''a; b'', ''x/.env'']))]"
  let ?r = "plain_request ''bash'' ?args (plain_context ModeAuto None None)"
  have "path_hint_from_args ?args = None"
    and "command_hint_from_args ?args = Some (''cat'' @ quoted_args [''a; b'', ''x/.env''])"
    and "''cat'' \<in> set read_commands" "list_all operand_word [''a; b'', ''x/.env'']"
    and "''x/.env'' \<in> set [''a; b'', ''x/.env'']" "shell_path_operand ''x/.env'' = Some ''x/.env''"
    and "secret_path (scan_env []) ''x/.env''"
    by code_simp+
  then have "names_secret (scan_env []) (rq_args ?r)"
    unfolding plain_request_def by (simp only: request.simps names_secret_command)
  moreover have "rq_mode ?r \<noteq> ModeBypass" "rq_tool ?r = ''bash''"
    and "fingerprinted_override_match (scan_engine_env []) (rq_tool ?r) (rq_args ?r) (rq_ctx ?r) = None"
    by code_simp+
  ultimately show ?thesis
    by (intro secret_read_never_silent [where penv="scan_env []"]) (simp_all add: scan_engine_env_def)
qed

end
