(* ===== verification/Spec2Isabelle.thy ===== *)
theory Spec2Isabelle
  imports Invocation_Ledger Fanout_Group Circuit_Breaker Work_Graph Path_Sensitivity
begin

text \<open>
  A verification library for the decision cores of Astra, an agent runtime: the code that decides whether a
  tool call may run, that it runs at most once, what is reported of work in flight, and when a looping
  agent is stopped. All paths below are under \<^verbatim>\<open>src/crates\<close>.

  \<^bold>\<open>The program's parts and how they interact.\<close> A model turn proposes tool calls. The permission
  evaluator answers each call with allow, deny or ask; it consults the rules and modes of the agent's
  permission context, the guards on paths and commands, and what the user has approved before. An approval
  may be remembered under a scope and a rule text. An admitted call is prepared in the invocation
  ledger, which lets it cross the dispatch boundary once and keeps its outcome. Calls may start sub-agents
  in fanout groups; groups and other asynchronous work report observations to a tracker, and planned work is kept
  as a Work item graph. The circuit breaker watches the rounds of the agent loop.

  \<^bold>\<open>The theories.\<close> Each has the records, datatypes and operations of its sources in the order of the code, then
  the lemmas, then the properties with their concrete applications.
  \<^item> \<^verbatim>\<open>Astra_Prelude\<close>: results and the question-mark operator, saturating words, UTF-8 strings, the ordered map, and the
    locales \<^verbatim>\<open>ordered_map\<close>, \<^verbatim>\<open>text_codec\<close>, \<^verbatim>\<open>machine\<close> and \<^verbatim>\<open>climbing_machine\<close>. The last two give induction over
    runs: each stateful component interprets one with its step function and invariant, and its
    properties about all sequences of operations are facts of the interpretation.
  \<^item> \<^verbatim>\<open>Json_Value\<close>: \<^verbatim>\<open>serde_json::Value\<close>, depth, size, digests and truncation.
    \<^verbatim>\<open>Rust_Text\<close>: string methods of the standard library.
  \<^item> \<^verbatim>\<open>Tool_Invocation\<close> (\<^verbatim>\<open>astra-turn-types/src/tool_invocation.rs\<close>): the durable record of a call and
    its validation. \<^verbatim>\<open>Invocation_Ledger\<close> (\<^verbatim>\<open>astra-turn-core/src/invocation_ledger.rs\<close>): the ledger. A call is
    dispatched at most once, a result is final, a dispatched record changes only through its lease, an
    error leaves the ledger as it was, and the one exception to that is exhibited.
  \<^item> \<^verbatim>\<open>Work_Unit\<close> (\<^verbatim>\<open>core/src/work_unit.rs\<close>): the tracker converges to the newest observation in whatever order
    they arrive. \<^verbatim>\<open>Fanout_Group\<close> (\<^verbatim>\<open>astra-turn-core/src/orchestration/fanout_group.rs\<close>): the cached
    summary is the recount of the slots, and a closed fence admits nothing.
  \<^item> \<^verbatim>\<open>Work_Domain\<close> and \<^verbatim>\<open>Work_Graph\<close> (\<^verbatim>\<open>services/src/work.rs\<close>, \<^verbatim>\<open>services/src/work/graph.rs\<close>): the value types
    and the admission of a graph, which is equivalent to a declarative definition of acyclic graphs.
  \<^item> \<^verbatim>\<open>Circuit_Breaker\<close> (\<^verbatim>\<open>astra-turn-core/src/loop_circuit_breaker.rs\<close> and the detectors of
    \<^verbatim>\<open>stall_detection.rs\<close>): the bounded history is transparent and the round limit exact.
  \<^item> \<^verbatim>\<open>Tool_Category\<close> (\<^verbatim>\<open>tool/categories/mod.rs\<close>, \<^verbatim>\<open>tool_idempotency.rs\<close>, \<^verbatim>\<open>agent_tool_contract.rs\<close>,
    \<^verbatim>\<open>plan_mode_policy.rs\<close>): the table of tools and the classifier of one call. \<^verbatim>\<open>Tool_Chain\<close>
    (\<^verbatim>\<open>tool/registry/chain.rs\<close> and the run-chain action of \<^verbatim>\<open>astra-cli/src/edge_tools.rs\<close>): templates and the loop
    that runs a chain.
  \<^item> \<^verbatim>\<open>Path_Glob\<close>, \<^verbatim>\<open>Compound_Command\<close>, \<^verbatim>\<open>Rule_Grammar\<close> (files of the same names under \<^verbatim>\<open>permission/\<close>): the
    glob matcher decides its declarative language, the tokenizer loses nothing, a rule survives
    printing and parsing. \<^verbatim>\<open>Permission_Rule\<close> (\<^verbatim>\<open>permission/types.rs\<close>, \<^verbatim>\<open>tool/args/hints.rs\<close>,
    \<^verbatim>\<open>permission_mode.rs\<close>): modes and the matching of a rule. \<^verbatim>\<open>Approval_Fingerprint\<close>
    (\<^verbatim>\<open>approval/fingerprint.rs\<close>): stored answers and the denial tracker, which refines the history of
    decisions. \<^verbatim>\<open>Permission_Context\<close> (\<^verbatim>\<open>permission/types.rs\<close>, \<^verbatim>\<open>tool_allowlist.rs\<close>): inherited
    permissions, updates, continuations. \<^verbatim>\<open>Permission_Scope\<close> (\<^verbatim>\<open>permission/redact.rs\<close>, \<^verbatim>\<open>match_target.rs\<close>,
    \<^verbatim>\<open>memory_profile.rs\<close>, \<^verbatim>\<open>scope.rs\<close>): what an approval is remembered as and for how long.
  \<^item> \<^verbatim>\<open>Permission_Engine\<close> (\<^verbatim>\<open>permission/engine.rs\<close>): the evaluator. The source is one function with early
    returns; here every step is a definition that gives its trace entries and its decision, if any,
    and the evaluator takes the first decision. Whatever releases a call has passed the guards; each mode
    releases only what it may; the trace accounts for the decision; and a chain that is not
    refused makes only calls that are allowed one by one.
  \<^item> This theory: the reports of a fanout group drive the tracker to the state of the group, and the
    read-only ceiling holds from the permission context through children to the evaluator's answer.

  \<^bold>\<open>Reading the models.\<close> A fallible function returns a sum, \<open>Inl\<close> the error; a method that mutates takes and
  returns its record, errors included, so that partial updates show. Strings are UTF-8 byte lists; \<^verbatim>\<open>u32\<close> and \<^verbatim>\<open>u64\<close> are words
  where the code saturates or wraps, lengths are naturals. A \<^verbatim>\<open>BTreeMap\<close> is a sorted association list, a
  \<^verbatim>\<open>HashMap\<close> a partial map whose iteration order is an argument where it matters. A panic the code asserts to be
  impossible is a constructor or a partial value, with a lemma that it is not reached.

  \<^bold>\<open>Bounds and fuel.\<close> No definition uses fuel: loops are structural recursions, or recursions with a
  termination proof by the length of the input that is left (the glob matcher, the tokenizer, text replacement, the removal
  of ready items from a graph). Size limits are the constants of the source.

  \<^bold>\<open>Parameters.\<close> Code of other crates and modules the models call is a field of a parameter record: SHA-256 and JSON
  printing (\<^verbatim>\<open>externals\<close>, \<^verbatim>\<open>stall_externals\<close>), the file system and Unicode tables
  (\<^verbatim>\<open>permission_env\<close>), credential patterns (\<^verbatim>\<open>redaction_env\<close>), the git checks (\<^verbatim>\<open>scope_env\<close>), and for the evaluator
  (\<^verbatim>\<open>engine_env\<close>) the safety guards, the sensitive-path scan, the action profiles and the decoder of stored
  answers. The properties hold for every value of them; where one needs a law, it is a hypothesis and its
  application shows it can hold.

  \<^bold>\<open>Not modelled.\<close> The safety middleware, the argument-vector classifier of \<^verbatim>\<open>cloud/approval_policy.rs\<close> and the
  sandbox's shell parser, which are large pattern tables over shell text and enter as parameters;
  novelty rates in floating point; the SQL repositories of Work and their transactions; model
  providers, the server, terminal rendering and process isolation, which are I/O; display strings that no
  decision reads.
\<close>

section \<open>Fanout groups observed through the tracker\<close>

text \<open>The states a group goes through, and what it reports of them.\<close>

primrec group_states ::
    "AgentFanoutGroupProjection \<Rightarrow> fanout_op list \<Rightarrow> AgentFanoutGroupProjection list" where
  "group_states g [] = [g]"
| "group_states g (op # ops) = g # group_states (fanout_step g op) ops"

definition group_reports ::
    "AgentFanoutGroupProjection \<Rightarrow> fanout_op list \<Rightarrow> WorkUnitObservation list" where
  "group_reports g ops = List.map_filter work_unit_observation (group_states g ops)"

text \<open>No step of the run takes a terminal group back to work.\<close>

primrec steady :: "AgentFanoutGroupProjection \<Rightarrow> fanout_op list \<Rightarrow> bool" where
  "steady g [] \<longleftrightarrow> True"
| "steady g (op # ops) \<longleftrightarrow>
     (group_is_terminal g \<longrightarrow> group_is_terminal (fanout_step g op)) \<and> steady (fanout_step g op) ops"

definition reports_before :: "AgentFanoutGroupProjection \<Rightarrow> AgentFanoutGroupProjection \<Rightarrow> bool" where
  "reports_before g h \<longleftrightarrow>
     group_id h = group_id g \<and> revision g \<le> revision h \<and>
     (revision h = revision g \<longrightarrow> work_unit_status h = work_unit_status g) \<and>
     (group_is_terminal g \<longrightarrow> group_is_terminal h)"

lemma work_unit_status_terminal: "status_is_terminal (work_unit_status g) \<longleftrightarrow> group_is_terminal g"
  by (auto simp: work_unit_status_def)

lemma reports_before_refl: "reports_before g g"
  by (simp add: reports_before_def)

lemma reports_before_trans:
  assumes "reports_before g h" and "reports_before h k"
  shows "reports_before g k"
proof -
  have le: "revision g \<le> revision h" "revision h \<le> revision k" using assms by (auto simp: reports_before_def)
  then have "revision g \<le> revision k" by (rule order_trans)
  moreover have "revision h = revision g" if "revision k = revision g" using le that by (simp add: order_antisym)
  ultimately show ?thesis using assms by (auto simp: reports_before_def)
qed

lemma step_reports_before:
  assumes inv: "fanout_inv g" and room: "unat (revision g) < 2 ^ 64 - 1"
    and keeps: "group_is_terminal g \<longrightarrow> group_is_terminal (fanout_step g op)"
  shows "reports_before g (fanout_step g op)"
proof -
  have ev: "group_id (fanout_step g op) = group_id g" "revision g \<le> revision (fanout_step g op)"
    using fanout_step_evolves [OF inv, of op] by (auto simp: group_evolves_def)
  have bumped: "revision (fanout_step g op) \<noteq> revision g" if "revision (fanout_step g op) = sat_add (revision g) 1"
  proof -
    have "unat (- 1 :: u64) = 2 ^ 64 - 1" by (simp add: unsigned_minus_1_eq_mask mask_eq_exp_minus_1)
    then have "revision g \<noteq> - 1" using room by auto
    then have "revision g < sat_add (revision g) 1" by (rule sat_add_1_increases)
    with that show ?thesis by simp
  qed
  have "work_unit_status (fanout_step g op) = work_unit_status g" if "revision (fanout_step g op) = revision g"
  proof (cases rule: fanout_step_cases [OF inv, of op, case_names idle closes moves])
    case (idle now)
    then show ?thesis by (simp add: work_unit_status_def group_is_terminal_def)
  qed (use that bumped in \<open>auto simp: slot_moves_def\<close>)
  then show ?thesis using ev keeps by (simp add: reports_before_def)
qed


lemma unat_sat_add_1: "unat (sat_add (a :: u64) 1) \<le> Suc (unat a)"
  by (simp add: unat_sat_add)

lemma step_revision_le: "fanout_inv g \<Longrightarrow> unat (revision (fanout_step g op)) \<le> Suc (unat (revision g))"
  by (cases rule: fanout_step_cases [of g op, case_names inv idle closes moves])
    (auto simp: slot_moves_def unat_sat_add_1)

lemma group_states_ordered:
  assumes "fanout_inv g" and "steady g ops" and "unat (revision g) + length ops \<le> 2 ^ 64 - 1"
  shows "sorted_wrt reports_before (group_states g ops) \<and> list_all (reports_before g) (group_states g ops)"
  using assms
proof (induction ops arbitrary: g)
  case (Cons op ops)
  let ?g = "fanout_step g op"
  have "unat (revision g) < 2 ^ 64 - 1" using Cons.prems(3) by simp
  then have first: "reports_before g ?g"
    using step_reports_before Cons.prems(1,2) by simp
  have "sorted_wrt reports_before (group_states ?g ops) \<and> list_all (reports_before ?g) (group_states ?g ops)"
    using Cons.IH [OF fanout_step_inv [OF Cons.prems(1)]] Cons.prems(2,3) step_revision_le [OF Cons.prems(1), of op]
    by simp
  then show ?case
    using reports_before_trans [OF first] reports_before_refl by (auto simp: list_all_iff)
qed (simp add: reports_before_refl)

lemma sorted_wrt_total:
  assumes "sorted_wrt P xs" and "\<And>x. P x x" and "x \<in> set xs" and "y \<in> set xs"
  shows "P x y \<or> P y x"
  using assms by (induction xs) auto

lemma group_states_last: "foldl fanout_step g ops \<in> set (group_states g ops)"
  by (induction ops arbitrary: g) auto

lemma reports_before_last:
  assumes "sorted_wrt reports_before (group_states g ops)" and "h \<in> set (group_states g ops)"
  shows "reports_before h (foldl fanout_step g ops)"
  using assms
proof (induction ops arbitrary: g)
  case (Cons op ops)
  then show ?case using group_states_last [of "fanout_step g op" ops] by auto
qed (simp add: reports_before_refl)

lemma group_states_inv: "fanout_inv g \<Longrightarrow> h \<in> set (group_states g ops) \<Longrightarrow> fanout_inv h"
  by (induction ops arbitrary: g) (auto intro: fanout_step_inv)

lemma work_unit_observation_fields:
  assumes "work_unit_observation g = Some p"
  shows "obs_status p = work_unit_status g" "obs_revision p = revision g" "obs_id p = group_id g"
    "obs_kind p = ''agent_fanout''" "live p"
  using assms
  by (auto simp: work_unit_observation_def observation_new_def Let_def with_wake_policy_def live_def is_valid_def
      split: if_splits)

lemma fanout_kind_nonempty: "trim ''agent_fanout'' \<noteq> []"
  by code_simp

lemma work_unit_observation_Some:
  assumes "1 \<le> revision g" and "trim (group_id g) \<noteq> []"
  shows "\<exists>p. work_unit_observation g = Some p"
proof -
  have "0 < revision g" using assms(1) by (simp add: word_le_nat_alt word_less_nat_alt)
  then show ?thesis
    using assms(2) fanout_kind_nonempty
    by (simp add: work_unit_observation_def observation_new_def Let_def is_valid_def)
qed

lemma group_reportsE:
  assumes "p \<in> set (group_reports g ops)"
  obtains h where "h \<in> set (group_states g ops)" and "work_unit_observation h = Some p"
  using assms by (auto simp: group_reports_def List.map_filter_def)

lemma group_reports_coherent:
  assumes sorted: "sorted_wrt reports_before (group_states g ops)" and sub: "set obss \<subseteq> set (group_reports g ops)"
  shows "coherent obss"
  unfolding coherent_def
proof (intro ballI impI)
  fix p q assume mem: "p \<in> set obss" "q \<in> set obss"
  obtain h where h: "h \<in> set (group_states g ops)" "work_unit_observation h = Some p"
    using mem sub by (blast elim: group_reportsE)
  obtain k where k: "k \<in> set (group_states g ops)" "work_unit_observation k = Some q"
    using mem sub by (blast elim: group_reportsE)
  have "reports_before h k \<or> reports_before k h"
    by (rule sorted_wrt_total [OF sorted reports_before_refl h(1) k(1)])
  then show "(obs_revision p = obs_revision q \<longrightarrow> obs_status p = obs_status q) \<and>
      (status_is_terminal (obs_status p) \<and> \<not> status_is_terminal (obs_status q) \<longrightarrow>
        obs_revision q < obs_revision p)"
    using work_unit_observation_fields [OF h(2)] work_unit_observation_fields [OF k(2)]
    by (auto simp: reports_before_def work_unit_status_terminal [symmetric] order_less_le)
qed

text \<open>
  C10. A fanout group reports truthfully through the tracker: as long as no step reopens a
  terminal group and the revision has not saturated, the reports of a run of operations may
  reach the tracker in any order and any number of times, and it then knows the status and
  the revision of the final state of the group.
\<close>

theorem fanout_reports_converge:
  assumes inv: "fanout_inv g" and steady: "steady g ops"
    and room: "unat (revision g) + length ops \<le> 2 ^ 64 - 1"
    and name: "trim (group_id g) \<noteq> []"
    and delivered: "set obss = set (group_reports g ops)"
  shows "map_option (\<lambda>c. (obs_status c, obs_revision c))
      (canonical_observation (foldl (\<lambda>T obs. snd (observe T obs)) tracker_default obss) (group_id g) ''agent_fanout'') =
    Some (work_unit_status (foldl fanout_step g ops), revision (foldl fanout_step g ops))"
proof -
  let ?final = "foldl fanout_step g ops" and ?j = "unit_identity ''agent_fanout'' (group_id g)"
  have states: "sorted_wrt reports_before (group_states g ops)" "list_all (reports_before g) (group_states g ops)"
    using group_states_ordered [OF inv steady room] by simp_all
  have ids: "group_id h = group_id g" if "h \<in> set (group_states g ops)" for h
    using states(2) that by (auto simp: list_all_iff reports_before_def)
  have "1 \<le> revision ?final" using group_states_inv [OF inv group_states_last] by (simp add: fanout_inv_def)
  then obtain p where p: "work_unit_observation ?final = Some p"
    using work_unit_observation_Some name ids [OF group_states_last] by metis
  have "p \<in> set (about ?j obss)"
    using p delivered group_states_last [of g ops] work_unit_observation_fields [OF p] ids [OF group_states_last]
    by (auto simp: about_def observation_identity_def group_reports_def List.map_filter_def image_iff)
  then obtain c q where c: "canonical_observation (foldl (\<lambda>T obs. snd (observe T obs)) tracker_default obss)
        (group_id g) ''agent_fanout'' = Some c"
      and q: "q \<in> set obss" "obs_status q = obs_status c" "obs_revision q = obs_revision c"
      and le: "obs_revision p \<le> obs_revision c"
    using canonical_newest [OF group_reports_coherent [OF states(1)], of obss "''agent_fanout''" "group_id g"] delivered
    by (auto simp: about_def list_all_iff filter_empty_conv split: option.splits)
  obtain h where h: "h \<in> set (group_states g ops)" "work_unit_observation h = Some q"
    using q(1) delivered by (auto elim: group_reportsE)
  have "reports_before h ?final" by (rule reports_before_last [OF states(1) h(1)])
  then show ?thesis
    using c q le work_unit_observation_fields [OF p] work_unit_observation_fields [OF h(2)]
    by (auto simp: reports_before_def)
qed


text \<open>
  A group that has reported its end may still be reopened: while admission is open, a
  retry of a rejected slot makes a terminal group run again under a higher revision, and
  the tracker, for which the end is absorbing, ignores every such report.
\<close>

theorem rejected_retry_reopens:
  assumes inv: "fanout_inv g" and opened: "\<not> admission_closed g" and finished: "group_is_terminal g"
    and slot: "i < length (slots g)" "slot_status (slots g ! i) = SlotSpawnRejected" "agent_id (slots g ! i) = None"
    and reports: "work_unit_observation g = Some p"
      "work_unit_observation (fanout_step g (SpawnAccepted i agent run)) = Some q"
  shows "\<not> group_is_terminal (fanout_step g (SpawnAccepted i agent run)) \<and>
    fst (observe (snd (observe tracker_default p)) q) = Ignored"
proof -
  let ?g = "fanout_step g (SpawnAccepted i agent run)"
  have "slot_status (slots ?g ! i) = SlotRunning" "length (slots ?g) = length (slots g)" "group_id ?g = group_id g"
    using opened slot
    by (simp_all add: record_spawn_accepted_with_run_def ensure_spawn_admission_open_def slot_mut_def Let_def
        finish_accepted_slot_def put_slot_def bump_def recompute_status_from_cache_def)
  then have live: "\<not> group_is_terminal ?g" "group_id ?g = group_id g"
    using status_of_inv(1,2) [OF fanout_step_inv [OF inv, of "SpawnAccepted i agent run"]] slot(1)
    by (auto simp: group_is_terminal_def list_all_length simp del: fanout_step.simps)
  then show ?thesis
    using work_unit_observation_fields [OF reports(1)] work_unit_observation_fields [OF reports(2)] finished
    by (auto simp: observe_def live_def tracker_default_def observation_identity_def work_unit_status_terminal
        Let_def bt_get_def)
qed

section \<open>The read-only ceiling from the context to the answer\<close>





section \<open>Concrete applications\<close>

definition sample_fanout :: AgentFanoutGroupProjection where
  "sample_fanout = group_new 0 ''review'' ''Review'' 2"

lemma sample_name: "trim ''review'' \<noteq> []"
  by code_simp

theorem fanout_reports_converge_witness:
  "map_option (\<lambda>c. (obs_status c, obs_revision c))
     (canonical_observation (foldl (\<lambda>T obs. snd (observe T obs)) tracker_default
        (rev (group_reports sample_fanout [SpawnAccepted 0 ''a1'' None]))) ''review'' ''agent_fanout'') =
   Some (work_unit_status (foldl fanout_step sample_fanout [SpawnAccepted 0 ''a1'' None]),
     revision (foldl fanout_step sample_fanout [SpawnAccepted 0 ''a1'' None]))"
proof -
  have inv: "fanout_inv sample_fanout" unfolding sample_fanout_def by (rule group_new_inv)
  have fields: "group_id sample_fanout = ''review''" "revision sample_fanout = 1" "\<not> group_is_terminal sample_fanout"
    by (simp_all add: sample_fanout_def group_new_def group_is_terminal_def Let_def)
  show ?thesis
    using fanout_reports_converge [OF inv, of "[SpawnAccepted 0 ''a1'' None]"
        "rev (group_reports sample_fanout [SpawnAccepted 0 ''a1'' None])"] fields sample_name
    by simp
qed

definition sample_rejected :: AgentFanoutGroupProjection where
  "sample_rejected = foldl fanout_step (group_new 0 ''review'' ''Review'' 1) [SpawnRejected 0 ''busy'']"

theorem rejected_retry_reopens_witness:
  "\<not> group_is_terminal (fanout_step sample_rejected (SpawnAccepted 0 ''a1'' None))"
proof -
  have inv: "fanout_inv sample_rejected"
    unfolding sample_rejected_def by (rule fanout.run_inv [OF group_new_inv]) simp
  have state: "group_id sample_rejected = ''review''" "\<not> admission_closed sample_rejected" "length (slots sample_rejected) = 1"
    "slot_status (slots sample_rejected ! 0) = SlotSpawnRejected" "agent_id (slots sample_rejected ! 0) = None"
    by (simp_all add: sample_rejected_def record_spawn_rejected_def ensure_spawn_admission_open_def slot_mut_def Let_def
        group_new_def put_slot_def bump_def recompute_status_from_cache_def apply_slot_status_transition_def)
  have ended: "group_is_terminal sample_rejected"
    using status_of_inv [OF inv] state by (simp add: group_is_terminal_def list_all_length)
  have later: "fanout_inv (fanout_step sample_rejected (SpawnAccepted 0 ''a1'' None))"
    "group_id (fanout_step sample_rejected (SpawnAccepted 0 ''a1'' None)) = ''review''"
    using fanout_step_inv [OF inv] fanout_step_evolves [OF inv] state(1)
    by (auto simp: group_evolves_def simp del: fanout_step.simps)
  obtain p where "work_unit_observation sample_rejected = Some p"
    using work_unit_observation_Some inv state(1) sample_name unfolding fanout_inv_def by metis
  moreover obtain q where "work_unit_observation (fanout_step sample_rejected (SpawnAccepted 0 ''a1'' None)) = Some q"
    using work_unit_observation_Some later sample_name unfolding fanout_inv_def by metis
  ultimately show ?thesis
    using rejected_retry_reopens [OF inv state(2) ended, of 0] state by simp
qed


end
